(* ===== verification/Jlib_Prelude.thy ===== *)
theory Jlib_Prelude
  imports Main "HOL-Library.AList" "HOL-Library.Char_ord" "HOL-Library.List_Lexorder" "HOL-Library.Multiset"
begin

text \<open>
  The vocabulary every component of the development shares.

  A Go function that returns \<open>(T, error)\<close> is modelled by a sum type, \<open>Inl\<close> holding the
  error. A function that can panic returns an \<open>outcome\<close>: \<open>Panics\<close> holds the value the
  code panics with. A Go map is an association list with distinct keys whose order
  stands for one order in which \<open>range\<close> may visit the entries, so a theorem about all
  lists is a theorem about all visiting orders. A Go string is a list of bytes.
\<close>

section \<open>Results and panics\<close>

named_theorems outcome_simps \<open>evaluation of sequenced computations\<close>

datatype ('p, 'a) outcome = Returns 'a | Panics 'p

definition sbind :: "'e + 'a \<Rightarrow> ('a \<Rightarrow> 'e + 'b) \<Rightarrow> 'e + 'b" where
  "sbind m f = (case m of Inl e \<Rightarrow> Inl e | Inr a \<Rightarrow> f a)"

definition obind :: "('p, 'a) outcome \<Rightarrow> ('a \<Rightarrow> ('p, 'b) outcome) \<Rightarrow> ('p, 'b) outcome" where
  "obind m f = (case m of Returns a \<Rightarrow> f a | Panics p \<Rightarrow> Panics p)"

lemma sbind_simps [simp, outcome_simps]:
  "sbind (Inl e) f = Inl e"
  "sbind (Inr a) f = f a"
  by (simp_all add: sbind_def)

lemma sbind_cong [fundef_cong]:
  "m = m' \<Longrightarrow> (\<And>a. m' = Inr a \<Longrightarrow> f a = g a) \<Longrightarrow> sbind m f = sbind m' g"
  by (simp add: sbind_def split: sum.split)

lemma sbind_Inr_iff: "sbind m f = Inr b \<longleftrightarrow> (\<exists>a. m = Inr a \<and> f a = Inr b)"
  by (cases m) auto

lemma sbind_Inl_iff: "sbind m f = Inl e \<longleftrightarrow> m = Inl e \<or> (\<exists>a. m = Inr a \<and> f a = Inl e)"
  by (cases m) auto

lemma obind_simps [simp, outcome_simps]:
  "obind (Returns a) f = f a"
  "obind (Panics p) f = Panics p"
  by (simp_all add: obind_def)

lemma obind_cong [fundef_cong]:
  "m = m' \<Longrightarrow> (\<And>a. m' = Returns a \<Longrightarrow> f a = g a) \<Longrightarrow> obind m f = obind m' g"
  by (simp add: obind_def split: outcome.split)

lemma obind_Returns_iff:
  "obind m f = Returns b \<longleftrightarrow> (\<exists>a. m = Returns a \<and> f a = Returns b)"
  by (cases m) auto

definition is_ok :: "'e + 'a \<Rightarrow> bool" where
  "is_ok m = (case m of Inl _ \<Rightarrow> False | Inr _ \<Rightarrow> True)"

lemma is_ok_simps [simp]: "\<not> is_ok (Inl e)" "is_ok (Inr a)"
  by (simp_all add: is_ok_def)

lemma is_ok_iff: "is_ok m \<longleftrightarrow> (\<exists>a. m = Inr a)"
  by (cases m) auto

definition no_panic :: "('p, 'a) outcome \<Rightarrow> bool" where
  "no_panic m = (case m of Returns _ \<Rightarrow> True | Panics _ \<Rightarrow> False)"

lemma no_panic_simps [simp]: "no_panic (Returns a)" "\<not> no_panic (Panics p)"
  by (simp_all add: no_panic_def)

lemma no_panic_iff: "no_panic m \<longleftrightarrow> (\<exists>a. m = Returns a)"
  by (cases m) auto

text \<open>A loop that stops at the first error.\<close>

fun collect :: "('e + 'a) list \<Rightarrow> 'e + 'a list" where
  "collect [] = Inr []"
| "collect (m # ms) = sbind m (\<lambda>a. sbind (collect ms) (\<lambda>as. Inr (a # as)))"

fun collect_fields :: "('k \<times> ('e + 'a)) list \<Rightarrow> 'e + ('k \<times> 'a) list" where
  "collect_fields [] = Inr []"
| "collect_fields ((k, m) # ms) =
     sbind m (\<lambda>a. sbind (collect_fields ms) (\<lambda>as. Inr ((k, a) # as)))"

lemma collect_Inr [simp]: "collect (map (\<lambda>x. Inr (f x)) xs) = Inr (map f xs)"
  by (induction xs) auto

lemma collect_fields_Inr [simp]:
  "collect_fields (map (\<lambda>(k, x). (k, Inr (f x))) xs) = Inr (map (\<lambda>(k, x). (k, f x)) xs)"
  by (induction xs) auto

section \<open>Go maps as association lists\<close>

named_theorems gomap \<open>laws of the map operations\<close>

text \<open>\<open>m[k] = v\<close>: overwrite in place, or add a new entry.\<close>

definition map_put :: "'k \<Rightarrow> 'v \<Rightarrow> ('k \<times> 'v) list \<Rightarrow> ('k \<times> 'v) list" where
  "map_put = AList.update"

definition map_has :: "('k \<times> 'v) list \<Rightarrow> 'k \<Rightarrow> bool" where
  "map_has m k = (map_of m k \<noteq> None)"

definition map_del :: "'k \<Rightarrow> ('k \<times> 'v) list \<Rightarrow> ('k \<times> 'v) list" where
  "map_del k m = filter (\<lambda>(k', _). k' \<noteq> k) m"

definition go_map :: "('k \<times> 'v) list \<Rightarrow> bool" where
  "go_map m = distinct (map fst m)"

lemma map_of_put [simp, gomap]: "map_of (map_put k v m) = (map_of m)(k \<mapsto> v)"
  by (simp add: map_put_def update_conv')

lemma map_of_del [simp, gomap]: "map_of (map_del k m) = (map_of m)(k := None)"
  by (induction m) (auto simp: map_del_def fun_eq_iff)

lemma map_has_put [simp, gomap]: "map_has (map_put k v m) k' \<longleftrightarrow> k' = k \<or> map_has m k'"
  by (simp add: map_has_def)

lemma map_has_del [simp, gomap]: "map_has (map_del k m) k' \<longleftrightarrow> k' \<noteq> k \<and> map_has m k'"
  by (simp add: map_has_def)

lemma map_has_iff: "map_has m k \<longleftrightarrow> k \<in> fst ` set m"
  by (simp add: map_has_def map_of_eq_None_iff)

lemma go_map_put [simp, gomap]: "go_map m \<Longrightarrow> go_map (map_put k v m)"
  by (simp add: go_map_def map_put_def distinct_update)

lemma go_map_del [simp, gomap]: "go_map m \<Longrightarrow> go_map (map_del k m)"
  by (induction m) (auto simp: go_map_def map_del_def)

lemma go_map_Nil [simp, gomap]: "go_map []"
  by (simp add: go_map_def)

lemma go_map_Cons [simp]: "go_map ((k, v) # m) \<longleftrightarrow> k \<notin> fst ` set m \<and> go_map m"
  by (simp add: go_map_def)

lemma map_put_new: "k \<notin> fst ` set m \<Longrightarrow> map_put k v m = m @ [(k, v)]"
  by (induction m) (auto simp: map_put_def)

text \<open>Sorting by key gives every order of the same map the same representative.\<close>

lemma go_map_sort [simp, gomap]: "go_map (sort_key fst m) \<longleftrightarrow> go_map m"
  unfolding go_map_def by (metis mset_eq_imp_distinct_iff mset_map mset_sort)

lemma map_of_perm: "go_map m \<Longrightarrow> set m' = set m \<Longrightarrow> go_map m' \<Longrightarrow> map_of m' = map_of m"
  by (rule map_of_inject_set [THEN iffD2]) (simp_all add: go_map_def)

lemma map_of_sort [simp, gomap]: "go_map m \<Longrightarrow> map_of (sort_key fst m) = map_of m"
  by (rule map_of_perm) simp_all

lemma sort_map_iff:
  assumes "go_map m" "go_map m'"
  shows "sort_key fst m = sort_key fst m' \<longleftrightarrow> map_of m = map_of m'"
proof
  assume "sort_key fst m = sort_key fst m'"
  then show "map_of m = map_of m'"
    using map_of_sort [OF assms(1)] map_of_sort [OF assms(2)] by simp
next
  assume "map_of m = map_of m'"
  then have "set m = set m'"
    using assms by (simp add: go_map_def map_of_inject_set)
  then have "mset m = mset m'"
    using assms by (metis distinct_map go_map_def set_eq_iff_mset_eq_distinct)
  then show "sort_key fst m = sort_key fst m'"
    using assms unfolding go_map_def by (intro sort_key_inj_key_eq) (auto simp: distinct_map)
qed

lemma go_map_map_snd [simp]: "go_map (map (\<lambda>(k, x). (k, f x)) m) \<longleftrightarrow> go_map m"
  by (simp add: go_map_def comp_def case_prod_unfold)

lemma map_of_map_snd: "map_of (map (\<lambda>(k, x). (k, f x)) m) k = map_option f (map_of m k)"
  by (induction m) auto

lemma go_map_mem: "go_map m \<Longrightarrow> (k, v) \<in> set m \<longleftrightarrow> map_of m k = Some v"
  by (auto simp: go_map_def)

text \<open>
  The comparison loop of the code: equal length, and every entry of the first map has a
  matching entry in the second. It decides that both maps have the same keys with matching
  values.
\<close>

lemma go_map_keys_eq:
  assumes "go_map m" "go_map m'" "length m = length m'" "fst ` set m \<subseteq> fst ` set m'"
  shows "fst ` set m = fst ` set m'"
proof (rule card_subset_eq)
  show "card (fst ` set m) = card (fst ` set m')"
    using assms(1-3) by (metis distinct_card go_map_def length_map list.set_map)
qed (use assms(4) in auto)

lemma map_loop_iff:
  assumes "go_map m" "go_map m'"
  shows "(length m = length m' \<and> (\<forall>(k, e) \<in> set m. \<exists>e'. map_of m' k = Some e' \<and> f e = g e')) \<longleftrightarrow>
    map_of (map (\<lambda>(k, x). (k, f x)) m) = map_of (map (\<lambda>(k, x). (k, g x)) m')"
    (is "?L \<longleftrightarrow> ?R")
proof
  assume L: ?L
  then have "fst ` set m \<subseteq> fst ` set m'"
    by (force dest: map_of_SomeD)
  then have keys: "fst ` set m = fst ` set m'"
    using L assms by (intro go_map_keys_eq) auto
  show ?R
  proof
    fix k
    show "map_of (map (\<lambda>(k, x). (k, f x)) m) k = map_of (map (\<lambda>(k, x). (k, g x)) m') k"
    proof (cases "map_of m k")
      case None
      then have "map_of m' k = None" using keys by (simp add: map_of_eq_None_iff)
      with None show ?thesis by (simp add: map_of_map_snd)
    next
      case (Some e)
      then have "(k, e) \<in> set m" by (rule map_of_SomeD)
      with L obtain e' where "map_of m' k = Some e'" "f e = g e'" by auto
      with Some show ?thesis by (simp add: map_of_map_snd)
    qed
  qed
next
  assume R: ?R
  have eq: "map_option f (map_of m k) = map_option g (map_of m' k)" for k
    using fun_cong [OF R, of k] by (simp add: map_of_map_snd)
  have "fst ` set m = fst ` set m'"
    using eq by (metis (mono_tags) map_of_eq_None_iff option.map_disc_iff subsetI subset_antisym)
  then have "length m = length m'"
    using assms by (metis distinct_card go_map_def length_map list.set_map)
  moreover have "\<exists>e'. map_of m' k = Some e' \<and> f e = g e'" if "(k, e) \<in> set m" for k e
    using eq [of k] that assms(1) by (cases "map_of m' k") (auto simp: go_map_mem)
  ultimately show ?L by auto
qed

section \<open>Decimal texts\<close>

text \<open>\<open>fmt.Sprintf("%d", n)\<close> for a natural number and for an \<open>int\<close>.\<close>

definition digit_char :: "nat \<Rightarrow> char" where
  "digit_char d = char_of (48 + d)"

fun show_nat :: "nat \<Rightarrow> string" where
  "show_nat n = (if n < 10 then [digit_char n] else show_nat (n div 10) @ [digit_char (n mod 10)])"

declare show_nat.simps [simp del]

definition show_int :: "int \<Rightarrow> string" where
  "show_int i = (if i < 0 then ''-'' @ show_nat (nat (- i)) else show_nat (nat i))"

text \<open>The path element \<open>fmt.Sprintf("[%d]", i)\<close>.\<close>

definition index_path :: "nat \<Rightarrow> string" where
  "index_path i = ''['' @ show_nat i @ '']''"

lemma show_nat_ne [simp]: "show_nat n \<noteq> []"
  by (subst show_nat.simps) simp

lemma index_path_ne [simp]: "index_path i \<noteq> []"
  by (simp add: index_path_def)

end
