(* ===== verification/Go_Numbers.thy ===== *)
theory Go_Numbers
  imports Jlib_Prelude Complex_Main
begin

text \<open>
  Numbers as the Go code sees them: \<open>strconv.ParseInt(s, 10, 64)\<close>, the binary64
  floating-point values, \<open>strconv.ParseFloat(s, 64)\<close> and the conversion of an \<open>int\<close>
  to a \<open>float64\<close>. These are the parts of the standard library that
  \<^verbatim>\<open>schema/convert.go\<close>, \<^verbatim>\<open>schema/schema.go\<close>, \<^verbatim>\<open>parse.go\<close> and \<^verbatim>\<open>utils.go\<close> call.
\<close>

section \<open>Digits and ParseInt\<close>

definition is_digit :: "char \<Rightarrow> bool" where
  "is_digit c = (48 \<le> (of_char c :: nat) \<and> (of_char c :: nat) \<le> 57)"

definition digit_val :: "char \<Rightarrow> nat" where
  "digit_val c = of_char c - 48"

fun digits_val :: "int \<Rightarrow> string \<Rightarrow> int" where
  "digits_val acc [] = acc"
| "digits_val acc (c # cs) = digits_val (10 * acc + int (digit_val c)) cs"

definition parse_nat :: "string \<Rightarrow> int option" where
  "parse_nat s = (if s \<noteq> [] \<and> list_all is_digit s then Some (digits_val 0 s) else None)"

definition int64_min :: int where "int64_min = - (2 ^ 63)"
definition int64_max :: int where "int64_max = 2 ^ 63 - 1"

definition in_int64 :: "int \<Rightarrow> bool" where
  "in_int64 i = (int64_min \<le> i \<and> i \<le> int64_max)"

definition parse_signed :: "string \<Rightarrow> int option" where
  "parse_signed s = (case s of
      [] \<Rightarrow> None
    | c # cs \<Rightarrow>
        (if c = CHR ''-'' then map_option uminus (parse_nat cs)
         else if c = CHR ''+'' then parse_nat cs
         else parse_nat s))"

definition ParseInt :: "string \<Rightarrow> int option" where
  "ParseInt s = (case parse_signed s of
      None \<Rightarrow> None
    | Some i \<Rightarrow> if in_int64 i then Some i else None)"

lemma of_digit_char: "d < 10 \<Longrightarrow> (of_char (digit_char d) :: nat) = 48 + d"
  by (simp add: digit_char_def)

lemma is_digit_char [simp]: "d < 10 \<Longrightarrow> is_digit (digit_char d)"
  by (simp add: is_digit_def of_digit_char)

lemma digit_val_char [simp]: "d < 10 \<Longrightarrow> digit_val (digit_char d) = d"
  by (simp add: digit_val_def of_digit_char)

lemma digits_val_append: "digits_val acc (xs @ ys) = digits_val (digits_val acc xs) ys"
  by (induction xs arbitrary: acc) auto

lemma show_nat_digits: "list_all is_digit (show_nat n)"
proof (induction n rule: show_nat.induct)
  case (1 n)
  then show ?case
    by (cases "n < 10") (auto simp: show_nat.simps [of n])
qed

lemma digits_val_show_nat: "digits_val 0 (show_nat n) = int n"
proof (induction n rule: show_nat.induct)
  case (1 n)
  have "10 * int (n div 10) + int (n mod 10) = int n"
    by presburger
  with 1 show ?case
    by (cases "n < 10") (auto simp: show_nat.simps [of n] digits_val_append)
qed

lemma parse_nat_show_nat [simp]: "parse_nat (show_nat n) = Some (int n)"
  by (simp add: parse_nat_def show_nat_digits digits_val_show_nat)

lemma show_nat_head: "\<exists>c cs. show_nat n = c # cs \<and> is_digit c"
  using show_nat_digits [of n] by (cases "show_nat n") auto

lemma not_digit_sign [simp]: "\<not> is_digit (CHR ''-'')" "\<not> is_digit (CHR ''+'')"
  by (simp_all add: is_digit_def)

lemma parse_signed_show_int [simp]: "parse_signed (show_int i) = Some i"
proof (cases "i < 0")
  case True
  then show ?thesis by (simp add: parse_signed_def show_int_def)
next
  case False
  obtain c cs where c: "show_nat (nat i) = c # cs" "is_digit c"
    using show_nat_head by blast
  have "parse_nat (c # cs) = Some (int (nat i))"
    using parse_nat_show_nat [of "nat i"] by (simp add: c)
  moreover have "c \<noteq> CHR ''-''" "c \<noteq> CHR ''+''"
    using c(2) not_digit_sign by auto
  ultimately show ?thesis
    using False by (simp add: parse_signed_def show_int_def c)
qed

lemma ParseInt_show_int: "in_int64 i \<Longrightarrow> ParseInt (show_int i) = Some i"
  by (simp add: ParseInt_def)

lemma ParseInt_in_range: "ParseInt s = Some i \<Longrightarrow> in_int64 i"
  by (auto simp: ParseInt_def split: option.splits if_splits)

section \<open>Binary64 values\<close>

text \<open>
  A \<open>float64\<close> is NaN, an infinity (\<open>FInf True\<close> is the negative one) or a finite value,
  given by the rational number it stands for. The two zeros compare equal in Go and
  the code never prints one, so both are \<open>FFin 0\<close>.
\<close>

datatype f64 = FNaN | FInf bool | FFin rat

fun f64_lt :: "f64 \<Rightarrow> f64 \<Rightarrow> bool" where
  "f64_lt FNaN _ = False"
| "f64_lt _ FNaN = False"
| "f64_lt (FInf n) (FInf m) = (n \<and> \<not> m)"
| "f64_lt (FInf n) (FFin _) = n"
| "f64_lt (FFin _) (FInf m) = (\<not> m)"
| "f64_lt (FFin a) (FFin b) = (a < b)"

fun f64_eq :: "f64 \<Rightarrow> f64 \<Rightarrow> bool" where
  "f64_eq FNaN _ = False"
| "f64_eq _ FNaN = False"
| "f64_eq (FInf n) (FInf m) = (n = m)"
| "f64_eq (FFin a) (FFin b) = (a = b)"
| "f64_eq _ _ = False"

definition f64_le :: "f64 \<Rightarrow> f64 \<Rightarrow> bool" where
  "f64_le a b = (f64_lt a b \<or> f64_eq a b)"

lemma f64_le_Fin [simp]: "f64_le (FFin a) (FFin b) \<longleftrightarrow> a \<le> b"
  by (auto simp: f64_le_def)

lemma f64_eq_iff: "f64_eq a b \<longleftrightarrow> a = b \<and> a \<noteq> FNaN"
  by (cases a; cases b) auto

lemma f64_total: "a \<noteq> FNaN \<Longrightarrow> b \<noteq> FNaN \<Longrightarrow> \<not> f64_lt a b \<longleftrightarrow> f64_le b a"
  by (cases a; cases b) (auto simp: f64_le_def)

text \<open>The operators \<open><\<close> and \<open><=\<close> of \<open>float64\<close>: no order, since NaN compares with nothing.\<close>

instantiation f64 :: ord
begin

definition less_f64 :: "f64 \<Rightarrow> f64 \<Rightarrow> bool" where
  "less_f64 = f64_lt"

definition less_eq_f64 :: "f64 \<Rightarrow> f64 \<Rightarrow> bool" where
  "less_eq_f64 = f64_le"

instance ..

end

lemma f64_less_Fin [simp]: "FFin a < FFin b \<longleftrightarrow> a < b" "FFin a \<le> FFin b \<longleftrightarrow> a \<le> b"
  by (simp_all add: less_f64_def less_eq_f64_def)

lemma f64_lt_NaN [simp]: "\<not> f64_lt a FNaN"
  by (cases a) auto

lemma f64_le_NaN [simp]: "\<not> f64_le a FNaN" "\<not> f64_le FNaN a"
  by (simp_all add: f64_le_def) (cases a; simp)+

section \<open>Rounding to the nearest binary64 value, ties to even\<close>

definition pow2 :: "int \<Rightarrow> rat" where
  "pow2 e = (if 0 \<le> e then 2 ^ nat e else 1 / 2 ^ nat (- e))"

definition round_half_even :: "rat \<Rightarrow> int" where
  "round_half_even x = (let n = \<lfloor>x\<rfloor>; r = x - of_int n in
     if r < 1 / 2 then n else if 1 / 2 < r then n + 1 else if even n then n else n + 1)"

text \<open>The number of bits of a positive integer, and the exponent of the leading bit of a
  positive rational.\<close>

function bit_len :: "int \<Rightarrow> int" where
  "bit_len n = (if n \<le> 0 then 0 else 1 + bit_len (n div 2))"
  by pat_completeness auto
termination
  by (relation "measure nat") auto

declare bit_len.simps [simp del]

definition ilog2 :: "rat \<Rightarrow> int" where
  "ilog2 q = (let (a, b) = quotient_of q;
                  e = bit_len a - bit_len b
              in if pow2 e \<le> q then e else e - 1)"

definition round_f64 :: "rat \<Rightarrow> f64" where
  "round_f64 q = (if q = 0 then FFin 0 else
     let k = max (ilog2 \<bar>q\<bar> - 52) (-1074);
         v = of_int (round_half_even (\<bar>q\<bar> / pow2 k)) * pow2 k
     in if pow2 1024 \<le> v then FInf (q < 0) else FFin (if q < 0 then - v else v))"

definition int_to_f64 :: "int \<Rightarrow> f64" where
  "int_to_f64 n = round_f64 (of_int n)"

lemma round_half_even_int [simp]: "round_half_even (of_int n) = n"
  by (simp add: round_half_even_def)

lemma pow2_pos [simp]: "0 < pow2 e"
  by (simp add: pow2_def)

lemma pow2_ne0 [simp]: "pow2 e \<noteq> 0"
  using pow2_pos [of e] by linarith

lemma bit_len_bound: "0 \<le> n \<Longrightarrow> n < 2 ^ k \<Longrightarrow> bit_len n \<le> int k"
proof (induction k arbitrary: n)
  case 0
  then show ?case by (simp add: bit_len.simps)
next
  case (Suc k)
  then have "bit_len (n div 2) \<le> int k"
    by (intro Suc.IH) (auto simp: div_le_dividend)
  then show ?case
    by (subst bit_len.simps) simp
qed

lemma ilog2_int_bound: "0 < n \<Longrightarrow> n < 2 ^ 53 \<Longrightarrow> ilog2 (of_int n) \<le> 52"
  using bit_len_bound [of n 53]
  by (simp add: ilog2_def Let_def bit_len.simps [of 1] bit_len.simps [of 0])

text \<open>An integer below \<open>2 ^ 53\<close> converts to a \<open>float64\<close> without loss.\<close>

lemma round_pos_int_exact:
  assumes "0 < n" "n < 2 ^ 53"
  shows "round_f64 (of_int n) = FFin (of_int n)"
proof -
  define k where "k = max (ilog2 (of_int n) - 52) (-1074)"
  have k: "k \<le> 0" using ilog2_int_bound [OF assms] by (simp add: k_def)
  then have p: "pow2 k = 1 / 2 ^ nat (- k)" by (cases "k = 0") (simp_all add: pow2_def)
  have "of_int n / pow2 k = (of_int (n * 2 ^ nat (- k)) :: rat)"
    by (simp add: p)
  then have v: "of_int (round_half_even (of_int n / pow2 k)) * pow2 k = (of_int n :: rat)"
    by (simp only: round_half_even_int) (simp add: p)
  have "(of_int n :: rat) < 2 ^ 53"
    using assms(2) by (metis of_int_less_iff of_int_numeral of_int_power)
  moreover have "(2 ^ 53 :: rat) \<le> pow2 1024"
    by (simp add: pow2_def)
  ultimately have "\<not> pow2 1024 \<le> (of_int n :: rat)" by linarith
  with v assms(1) show ?thesis
    by (simp add: round_f64_def k_def Let_def)
qed

lemma round_f64_uminus: "round_f64 (- q) = (case round_f64 q of
    FNaN \<Rightarrow> FNaN | FInf n \<Rightarrow> FInf (\<not> n) | FFin x \<Rightarrow> FFin (- x))"
  by (auto simp: round_f64_def Let_def)

lemma int_to_f64_exact: "\<bar>n\<bar> < 2 ^ 53 \<Longrightarrow> int_to_f64 n = FFin (of_int n)"
  using round_pos_int_exact [of n] round_pos_int_exact [of "- n"] round_f64_uminus [of "of_int (- n)"]
  by (cases "n = 0"; cases "0 < n") (auto simp: int_to_f64_def round_f64_def)

lemma round_f64_not_NaN [simp]: "round_f64 q \<noteq> FNaN"
  by (simp add: round_f64_def Let_def)

section \<open>ParseFloat\<close>

datatype num_err = ErrSyntax | ErrRange

definition lower :: "char \<Rightarrow> char" where
  "lower c = (let n = of_char c :: nat in if 65 \<le> n \<and> n \<le> 90 then char_of (n + 32) else c)"

definition hex_val :: "char \<Rightarrow> nat option" where
  "hex_val c = (if is_digit c then Some (digit_val c)
     else let n = of_char (lower c) :: nat in if 97 \<le> n \<and> n \<le> 102 then Some (n - 87) else None)"

definition base_val :: "nat \<Rightarrow> char \<Rightarrow> nat option" where
  "base_val base c =
     (if base = 16 then hex_val c else if is_digit c then Some (digit_val c) else None)"

text \<open>
  The mantissa: digits, at most one point, underscores skipped. The result is whether a
  digit was seen, the digits as one number, how many of them follow the point, and the rest.
\<close>

fun read_mant :: "nat \<Rightarrow> bool \<Rightarrow> bool \<Rightarrow> int \<Rightarrow> nat \<Rightarrow> string \<Rightarrow> bool \<times> int \<times> nat \<times> string" where
  "read_mant base dot saw m fr [] = (saw, m, fr, [])"
| "read_mant base dot saw m fr (c # cs) =
     (if c = CHR ''_'' then read_mant base dot saw m fr cs
      else if c = CHR ''.'' then
        (if dot then (saw, m, fr, c # cs) else read_mant base True saw m fr cs)
      else case base_val base c of
        Some d \<Rightarrow> read_mant base dot True (int base * m + int d) (if dot then fr + 1 else fr) cs
      | None \<Rightarrow> (saw, m, fr, c # cs))"

text \<open>Exponent digits; the accumulator stops growing at 10000, as in the library.\<close>

fun read_exp :: "int \<Rightarrow> string \<Rightarrow> int \<times> string" where
  "read_exp e [] = (e, [])"
| "read_exp e (c # cs) =
     (if c = CHR ''_'' then read_exp e cs
      else if is_digit c then read_exp (if e < 10000 then 10 * e + int (digit_val c) else e) cs
      else (e, c # cs))"

definition exp_part :: "char \<Rightarrow> string \<Rightarrow> (int \<times> string) option" where
  "exp_part ec s = (case s of
      c # cs \<Rightarrow>
        if lower c = ec then
          (let (sg, ds) = (case cs of
                 d # ds' \<Rightarrow> if d = CHR ''+'' then (1, ds')
                           else if d = CHR ''-'' then (- 1, ds') else (1, cs)
               | [] \<Rightarrow> (1, cs))
           in case ds of
                d # _ \<Rightarrow> if is_digit d then (let (e, r) = read_exp 0 ds in Some (sg * e, r)) else None
              | [] \<Rightarrow> None)
        else if ec = CHR ''p'' then None else Some (0, s)
    | [] \<Rightarrow> if ec = CHR ''p'' then None else Some (0, s))"

text \<open>Underscores only between digits, the base prefix counting as one (\<open>underscoreOK\<close>).\<close>

fun underscores_ok :: "bool \<Rightarrow> char \<Rightarrow> string \<Rightarrow> bool" where
  "underscores_ok hex saw [] = (saw \<noteq> CHR ''_'')"
| "underscores_ok hex saw (c # cs) =
     (if is_digit c \<or> hex \<and> hex_val c \<noteq> None then underscores_ok hex (CHR ''0'') cs
      else if c = CHR ''_'' then saw = CHR ''0'' \<and> underscores_ok hex (CHR ''_'') cs
      else saw \<noteq> CHR ''_'' \<and> underscores_ok hex (CHR ''!'') cs)"

definition read_float :: "string \<Rightarrow> rat option" where
  "read_float s =
     (let (neg, u) = (case s of
            c # cs \<Rightarrow> if c = CHR ''-'' then (True, cs) else if c = CHR ''+'' then (False, cs) else (False, s)
          | [] \<Rightarrow> (False, s));
          hex = (case u of a # b # _ # _ \<Rightarrow> a = CHR ''0'' \<and> lower b = CHR ''x'' | _ \<Rightarrow> False);
          body = (if hex then drop 2 u else u);
          base = (if hex then 16 else 10);
          (saw, m, fr, rest) = read_mant base False False 0 0 body
      in if \<not> saw then None else
         (case exp_part (if hex then CHR ''p'' else CHR ''e'') rest of
            None \<Rightarrow> None
          | Some (e, rest') \<Rightarrow>
              if rest' \<noteq> [] \<or> \<not> underscores_ok hex (if hex then CHR ''0'' else CHR ''^'') body then None
              else
                let q = of_int m / of_nat base ^ fr *
                        (if hex then pow2 e
                         else if 0 \<le> e then 10 ^ nat e else 1 / 10 ^ nat (- e))
                in Some (if neg then - q else q)))"

definition special_float :: "string \<Rightarrow> f64 option" where
  "special_float s =
     (let l = map lower s in
      if l = ''nan'' then Some FNaN
      else if l \<in> {''inf'', ''+inf'', ''infinity'', ''+infinity''} then Some (FInf False)
      else if l \<in> {''-inf'', ''-infinity''} then Some (FInf True)
      else None)"

definition ParseFloat :: "string \<Rightarrow> f64 \<times> num_err option" where
  "ParseFloat s = (case special_float s of
      Some f \<Rightarrow> (f, None)
    | None \<Rightarrow> (case read_float s of
        None \<Rightarrow> (FFin 0, Some ErrSyntax)
      | Some q \<Rightarrow> (case round_f64 q of
          FInf n \<Rightarrow> (FInf n, Some ErrRange)
        | f \<Rightarrow> (f, None))))"

end
