(* ===== verification/Go_Values.thy ===== *)
theory Go_Values
  imports Go_Numbers
begin

text \<open>
  The dynamic values an \<open>interface{}\<close> of the code holds, JSON documents, and the two
  directions of \<open>encoding/json\<close> between them: decoding with \<open>UseNumber\<close> and
  \<open>json.Marshal\<close>. A JSON document is a tree that keeps the order and the duplicates of
  its object members and the text of its numbers. The constructors of \<open>gval\<close> are the
  dynamic types the code produces or tests for; \<open>VStrs\<close> and \<open>VMaps\<close> are the slices
  \<open>[]string\<close> and \<open>[]map[string]interface{}\<close> that \<^verbatim>\<open>schema.go\<close> builds.
\<close>

datatype gval =
    VNil
  | VBool bool
  | VInt int
  | VInt64 int
  | VFloat f64
  | VNumber string
  | VString string
  | VList "gval list"
  | VMap "(string \<times> gval) list"
  | VAnyMap "(gval \<times> gval) list"
  | VStrs "string list"
  | VMaps "(string \<times> gval) list list"

datatype json =
    JNull
  | JBool bool
  | JNum string
  | JStr string
  | JArr "json list"
  | JObj "(string \<times> json) list"

section \<open>Decoding into an interface\<close>

text \<open>A later member of an object overwrites an earlier one with the same key.\<close>

fun to_value :: "json \<Rightarrow> gval"
and to_values :: "json list \<Rightarrow> gval list"
and to_fields :: "(string \<times> gval) list \<Rightarrow> (string \<times> json) list \<Rightarrow> (string \<times> gval) list" where
  "to_value JNull = VNil"
| "to_value (JBool b) = VBool b"
| "to_value (JNum n) = VNumber n"
| "to_value (JStr s) = VString s"
| "to_value (JArr js) = VList (to_values js)"
| "to_value (JObj kvs) = VMap (to_fields [] kvs)"
| "to_values [] = []"
| "to_values (j # js) = to_value j # to_values js"
| "to_fields acc [] = acc"
| "to_fields acc ((k, j) # kvs) = to_fields (map_put k (to_value j) acc) kvs"

section \<open>json.Marshal\<close>

datatype marshal_err = UnsupportedValue | UnsupportedType | InvalidNumber

text \<open>\<open>isValidNumber\<close> of \<open>encoding/json\<close>: the JSON number grammar.\<close>

definition skip_frac :: "string \<Rightarrow> string" where
  "skip_frac s = (case s of
      c # d # r \<Rightarrow> if c = CHR ''.'' \<and> is_digit d then dropWhile is_digit r else s
    | _ \<Rightarrow> s)"

definition skip_exp :: "string \<Rightarrow> string option" where
  "skip_exp s = (case s of
      c # d # r \<Rightarrow>
        if c = CHR ''e'' \<or> c = CHR ''E'' then
          (if d = CHR ''+'' \<or> d = CHR ''-'' then (if r = [] then None else Some (dropWhile is_digit r))
           else Some (dropWhile is_digit (d # r)))
        else Some s
    | _ \<Rightarrow> Some s)"

definition valid_number :: "string \<Rightarrow> bool" where
  "valid_number s =
     (let u = (case s of c # r \<Rightarrow> if c = CHR ''-'' then r else s | [] \<Rightarrow> [])
      in case u of
           [] \<Rightarrow> False
         | c # r \<Rightarrow>
             is_digit c \<and>
             skip_exp (skip_frac (if c = CHR ''0'' then r else dropWhile is_digit r)) = Some [])"

text \<open>
  \<open>ff\<close> is the number formatting of \<open>encoding/json\<close> for a finite \<open>float64\<close>; every
  theorem holds for all of them. Map keys are written in byte order, and the error of the
  first failing member in that order is returned.
\<close>

fun marshal :: "(rat \<Rightarrow> string) \<Rightarrow> gval \<Rightarrow> marshal_err + json"
and marshal_list :: "(rat \<Rightarrow> string) \<Rightarrow> gval list \<Rightarrow> (marshal_err + json) list"
and marshal_fields :: "(rat \<Rightarrow> string) \<Rightarrow> (string \<times> gval) list \<Rightarrow> (string \<times> (marshal_err + json)) list"
and marshal_maps :: "(rat \<Rightarrow> string) \<Rightarrow> (string \<times> gval) list list \<Rightarrow> (marshal_err + json) list" where
  "marshal ff VNil = Inr JNull"
| "marshal ff (VBool b) = Inr (JBool b)"
| "marshal ff (VInt i) = Inr (JNum (show_int i))"
| "marshal ff (VInt64 i) = Inr (JNum (show_int i))"
| "marshal ff (VFloat f) = (case f of FFin q \<Rightarrow> Inr (JNum (ff q)) | _ \<Rightarrow> Inl UnsupportedValue)"
| "marshal ff (VNumber n) =
     (if n = [] then Inr (JNum ''0'') else if valid_number n then Inr (JNum n) else Inl InvalidNumber)"
| "marshal ff (VString s) = Inr (JStr s)"
| "marshal ff (VList vs) = sbind (collect (marshal_list ff vs)) (\<lambda>js. Inr (JArr js))"
| "marshal ff (VMap m) =
     sbind (collect_fields (sort_key fst (marshal_fields ff m))) (\<lambda>kvs. Inr (JObj kvs))"
| "marshal ff (VAnyMap m) = Inl UnsupportedType"
| "marshal ff (VStrs ss) = Inr (JArr (map JStr ss))"
| "marshal ff (VMaps ms) = sbind (collect (marshal_maps ff ms)) (\<lambda>js. Inr (JArr js))"
| "marshal_list ff [] = []"
| "marshal_list ff (v # vs) = marshal ff v # marshal_list ff vs"
| "marshal_fields ff [] = []"
| "marshal_fields ff ((k, v) # m) = (k, marshal ff v) # marshal_fields ff m"
| "marshal_maps ff [] = []"
| "marshal_maps ff (m # ms) =
     sbind (collect_fields (sort_key fst (marshal_fields ff m))) (\<lambda>kvs. Inr (JObj kvs))
     # marshal_maps ff ms"

section \<open>Values that come off the wire\<close>

text \<open>
  The values decoding produces, with the entries of a map listed in key order: the
  representative of the map that \<open>json.Marshal\<close> writes.
\<close>

fun wire :: "gval \<Rightarrow> bool"
and wire_list :: "gval list \<Rightarrow> bool"
and wire_fields :: "(string \<times> gval) list \<Rightarrow> bool" where
  "wire VNil = True"
| "wire (VBool _) = True"
| "wire (VNumber n) = valid_number n"
| "wire (VString _) = True"
| "wire (VList vs) = wire_list vs"
| "wire (VMap m) = (sorted (map fst m) \<and> distinct (map fst m) \<and> wire_fields m)"
| "wire (VInt _) = False"
| "wire (VInt64 _) = False"
| "wire (VFloat _) = False"
| "wire (VAnyMap _) = False"
| "wire (VStrs _) = False"
| "wire (VMaps _) = False"
| "wire_list [] = True"
| "wire_list (v # vs) = (wire v \<and> wire_list vs)"
| "wire_fields [] = True"
| "wire_fields ((k, v) # m) = (wire v \<and> wire_fields m)"

text \<open>The JSON document of a wire value.\<close>

fun wire_json :: "gval \<Rightarrow> json"
and wire_jsons :: "gval list \<Rightarrow> json list"
and wire_members :: "(string \<times> gval) list \<Rightarrow> (string \<times> json) list" where
  "wire_json (VBool b) = JBool b"
| "wire_json (VNumber n) = JNum n"
| "wire_json (VString s) = JStr s"
| "wire_json (VList vs) = JArr (wire_jsons vs)"
| "wire_json (VMap m) = JObj (wire_members m)"
| "wire_json _ = JNull"
| "wire_jsons [] = []"
| "wire_jsons (v # vs) = wire_json v # wire_jsons vs"
| "wire_members [] = []"
| "wire_members ((k, v) # m) = (k, wire_json v) # wire_members m"

lemma valid_number_ne: "valid_number n \<Longrightarrow> n \<noteq> []"
  by (auto simp: valid_number_def)

lemma wire_members_keys [simp]: "map fst (wire_members m) = map fst m"
  by (induction m) auto

lemma marshal_fields_keys [simp]: "map fst (marshal_fields ff m) = map fst m"
  by (induction m) auto

lemma marshal_fields_sorted:
  "sorted (map fst m) \<Longrightarrow> sort_key fst (marshal_fields ff m) = marshal_fields ff m"
  by (simp add: sort_key_id_if_sorted)

lemma marshal_wire:
  "wire v \<Longrightarrow> marshal ff v = Inr (wire_json v)"
  "wire_list vs \<Longrightarrow> collect (marshal_list ff vs) = Inr (wire_jsons vs)"
  "wire_fields m \<Longrightarrow> collect_fields (marshal_fields ff m) = Inr (wire_members m)"
  by (induction v and vs and m rule: wire_wire_list_wire_fields.induct)
    (auto simp: marshal_fields_sorted valid_number_ne)

lemma to_fields_append:
  "distinct (map fst acc @ map fst m) \<Longrightarrow>
   (\<forall>(k, v) \<in> set m. to_value (wire_json v) = v) \<Longrightarrow>
   to_fields acc (wire_members m) = acc @ m"
  by (induction m arbitrary: acc) (auto simp: map_put_new image_iff)

lemma wire_roundtrip:
  "wire v \<Longrightarrow> to_value (wire_json v) = v"
  "wire_list vs \<Longrightarrow> to_values (wire_jsons vs) = vs"
  "wire_fields m \<Longrightarrow> \<forall>(k, v) \<in> set m. to_value (wire_json v) = v"
  by (induction v and vs and m rule: wire_wire_list_wire_fields.induct)
    (auto simp: to_fields_append)

lemmas wire_simps = marshal_wire wire_roundtrip

lemma wire_json_null [simp]: "wire v \<Longrightarrow> wire_json v = JNull \<longleftrightarrow> v = VNil"
  by (cases v) auto

lemma wire_list_iff: "wire_list vs \<longleftrightarrow> (\<forall>v \<in> set vs. wire v)"
  by (induction vs) auto

lemma go_map_to_fields: "go_map acc \<Longrightarrow> go_map (to_fields acc kvs)"
  by (induction kvs arbitrary: acc) auto

end
