(* ===== verification/Schema_Types.thy ===== *)
theory Schema_Types
  imports Go_Values "HOL-Library.Multiset"
begin

text \<open>
  The schema types of \<^verbatim>\<open>schema/types.go\<close> and their methods \<open>Type\<close>, \<open>Equal\<close>, \<open>Map\<close>,
  \<open>SetName\<close> and \<open>SetDescription\<close> of \<^verbatim>\<open>schema/schema.go\<close>. The Go interface \<open>Schema\<close> is the
  datatype \<open>schema\<close>, one constructor per struct, its fields in the order of the struct
  after the embedded mixin. A pointer field is an option. The slices and maps of a schema
  are the non-nil ones its constructor allocates, and the \<open>Child\<close> of a \<open>not\<close> schema and the
  \<open>Item\<close> of a list schema are present, as in every schema the builder returns.
\<close>

section \<open>The types\<close>

record SchemaMixin =
  mx_name :: string
  mx_description :: string

record 'n limits =
  Minimum :: "'n option"
  Maximum :: "'n option"
  ExclusiveMinimum :: "bool option"
  ExclusiveMaximum :: "bool option"

datatype schema =
    AnySchema SchemaMixin
  | NullSchema SchemaMixin
  | BoolSchema SchemaMixin
  | NumberSchema SchemaMixin "f64 limits"
  | IntegerSchema SchemaMixin "int limits"
  | StringSchema SchemaMixin "int option" "int option"
  | AnyOfSchema SchemaMixin "schema list"
  | AllOfSchema SchemaMixin "schema list"
  | NotSchema SchemaMixin schema
  | ListSchema SchemaMixin schema "int option" "int option"
  | TupleSchema SchemaMixin "schema list" "schema option"
  | ObjectSchema SchemaMixin "(string \<times> schema) list" "(string \<times> bool) list" "schema option"
  | MethodSchema SchemaMixin "schema list" "schema option" "schema option"

definition no_mixin :: SchemaMixin where
  "no_mixin = \<lparr>mx_name = [], mx_description = []\<rparr>"

definition no_limits :: "'n limits" where
  "no_limits = \<lparr>Minimum = None, Maximum = None, ExclusiveMinimum = None, ExclusiveMaximum = None\<rparr>"

text \<open>The constructors whose structs are complete; those of a \<open>not\<close> and of a list schema leave a nil child for the
  builder to fill.\<close>

definition NewNumberSchema :: schema where
  "NewNumberSchema = NumberSchema no_mixin no_limits"

definition NewIntegerSchema :: schema where
  "NewIntegerSchema = IntegerSchema no_mixin no_limits"

definition NewStringSchema :: schema where
  "NewStringSchema = StringSchema no_mixin None None"

definition NewAnyOfSchema :: schema where
  "NewAnyOfSchema = AnyOfSchema no_mixin []"

definition NewAllOfSchema :: schema where
  "NewAllOfSchema = AllOfSchema no_mixin []"

definition NewTupleSchema :: schema where
  "NewTupleSchema = TupleSchema no_mixin [] None"

definition NewMethodSchema :: schema where
  "NewMethodSchema = MethodSchema no_mixin [] None None"

definition NewObjectSchema :: schema where
  "NewObjectSchema = ObjectSchema no_mixin [] [] None"

fun mixin :: "schema \<Rightarrow> SchemaMixin" where
  "mixin (AnySchema m) = m"
| "mixin (NullSchema m) = m"
| "mixin (BoolSchema m) = m"
| "mixin (NumberSchema m _) = m"
| "mixin (IntegerSchema m _) = m"
| "mixin (StringSchema m _ _) = m"
| "mixin (AnyOfSchema m _) = m"
| "mixin (AllOfSchema m _) = m"
| "mixin (NotSchema m _) = m"
| "mixin (ListSchema m _ _ _) = m"
| "mixin (TupleSchema m _ _) = m"
| "mixin (ObjectSchema m _ _ _) = m"
| "mixin (MethodSchema m _ _ _) = m"

fun map_mixin :: "(SchemaMixin \<Rightarrow> SchemaMixin) \<Rightarrow> schema \<Rightarrow> schema" where
  "map_mixin f (AnySchema m) = AnySchema (f m)"
| "map_mixin f (NullSchema m) = NullSchema (f m)"
| "map_mixin f (BoolSchema m) = BoolSchema (f m)"
| "map_mixin f (NumberSchema m l) = NumberSchema (f m) l"
| "map_mixin f (IntegerSchema m l) = IntegerSchema (f m) l"
| "map_mixin f (StringSchema m a b) = StringSchema (f m) a b"
| "map_mixin f (AnyOfSchema m cs) = AnyOfSchema (f m) cs"
| "map_mixin f (AllOfSchema m cs) = AllOfSchema (f m) cs"
| "map_mixin f (NotSchema m c) = NotSchema (f m) c"
| "map_mixin f (ListSchema m c a b) = ListSchema (f m) c a b"
| "map_mixin f (TupleSchema m cs a) = TupleSchema (f m) cs a"
| "map_mixin f (ObjectSchema m ps rs a) = ObjectSchema (f m) ps rs a"
| "map_mixin f (MethodSchema m ps r a) = MethodSchema (f m) ps r a"

definition SetName :: "string \<Rightarrow> schema \<Rightarrow> schema" where
  "SetName name = map_mixin (\<lambda>m. m\<lparr>mx_name := name\<rparr>)"

definition SetDescription :: "string \<Rightarrow> schema \<Rightarrow> schema" where
  "SetDescription desc = map_mixin (\<lambda>m. m\<lparr>mx_description := desc\<rparr>)"

definition GetName :: "schema \<Rightarrow> string" where
  "GetName s = mx_name (mixin s)"

definition GetDescription :: "schema \<Rightarrow> string" where
  "GetDescription s = mx_description (mixin s)"

fun Type :: "schema \<Rightarrow> string" where
  "Type (AnySchema _) = ''any''"
| "Type (NullSchema _) = ''null''"
| "Type (BoolSchema _) = ''bool''"
| "Type (NumberSchema _ _) = ''number''"
| "Type (IntegerSchema _ _) = ''integer''"
| "Type (StringSchema _ _ _) = ''string''"
| "Type (AnyOfSchema _ _) = ''anyOf''"
| "Type (AllOfSchema _ _) = ''allOf''"
| "Type (NotSchema _ _) = ''not''"
| "Type (ListSchema _ _ _ _) = ''list''"
| "Type (TupleSchema _ _ _) = ''list''"
| "Type (ObjectSchema _ _ _ _) = ''object''"
| "Type (MethodSchema _ _ _ _) = ''method''"

lemma mixin_map [simp]: "mixin (map_mixin f s) = f (mixin s)"
  by (cases s) auto

section \<open>Map\<close>

definition rebuildType :: "SchemaMixin \<Rightarrow> string \<Rightarrow> (string \<times> gval) list" where
  "rebuildType m nType =
     (let tp = [(''type'', VString nType)];
          tp1 = (if mx_name m \<noteq> [] then map_put ''name'' (VString (mx_name m)) tp else tp)
      in if mx_description m \<noteq> [] then map_put ''description'' (VString (mx_description m)) tp1 else tp1)"

text \<open>The limits of a number schema; \<open>f\<close> wraps a limit as a value.\<close>

definition put_limits ::
  "('n \<Rightarrow> gval) \<Rightarrow> 'n limits \<Rightarrow> (string \<times> gval) list \<Rightarrow> (string \<times> gval) list" where
  "put_limits f l tp =
     (let tp1 = (case Maximum l of
            None \<Rightarrow> tp
          | Some mx \<Rightarrow>
              let t = map_put ''maximum'' (f mx) tp
              in case ExclusiveMaximum l of
                   None \<Rightarrow> t | Some b \<Rightarrow> map_put ''exclusiveMaximum'' (VBool b) t)
      in case Minimum l of
           None \<Rightarrow> tp1
         | Some mn \<Rightarrow>
             let t = map_put ''minimum'' (f mn) tp1
             in case ExclusiveMinimum l of
                  None \<Rightarrow> t | Some b \<Rightarrow> map_put ''exclusiveMinimum'' (VBool b) t)"

text \<open>The \<open>Map\<close> method of each struct; the maps of its children are arguments.\<close>

definition AnySchema_Map :: "SchemaMixin \<Rightarrow> (string \<times> gval) list" where
  [simp]: "AnySchema_Map m = rebuildType m ''any''"

definition NullSchema_Map :: "SchemaMixin \<Rightarrow> (string \<times> gval) list" where
  [simp]: "NullSchema_Map m = rebuildType m ''null''"

definition BoolSchema_Map :: "SchemaMixin \<Rightarrow> (string \<times> gval) list" where
  [simp]: "BoolSchema_Map m = rebuildType m ''bool''"

definition NumberSchema_Map :: "SchemaMixin \<Rightarrow> f64 limits \<Rightarrow> (string \<times> gval) list" where
  [simp]: "NumberSchema_Map m l = put_limits VFloat l (rebuildType m ''number'')"

definition IntegerSchema_Map :: "SchemaMixin \<Rightarrow> int limits \<Rightarrow> (string \<times> gval) list" where
  [simp]: "IntegerSchema_Map m l = put_limits VInt64 l (rebuildType m ''integer'')"

definition StringSchema_Map :: "SchemaMixin \<Rightarrow> (string \<times> gval) list" where
  [simp]: "StringSchema_Map m = rebuildType m ''string''"

definition AnyOfSchema_Map :: "SchemaMixin \<Rightarrow> (string \<times> gval) list list \<Rightarrow> (string \<times> gval) list" where
  [simp]: "AnyOfSchema_Map m arr = map_put ''anyOf'' (VMaps arr) (rebuildType m ''anyOf'')"

definition AllOfSchema_Map :: "SchemaMixin \<Rightarrow> (string \<times> gval) list list \<Rightarrow> (string \<times> gval) list" where
  [simp]: "AllOfSchema_Map m arr = map_put ''allOf'' (VMaps arr) (rebuildType m ''allOf'')"

definition NotSchema_Map :: "SchemaMixin \<Rightarrow> (string \<times> gval) list \<Rightarrow> (string \<times> gval) list" where
  [simp]: "NotSchema_Map m c = map_put ''not'' (VMap c) (rebuildType m ''not'')"

definition ListSchema_Map :: "SchemaMixin \<Rightarrow> (string \<times> gval) list \<Rightarrow> (string \<times> gval) list" where
  [simp]: "ListSchema_Map m c = map_put ''items'' (VMap c) (rebuildType m ''list'')"

definition TupleSchema_Map :: "SchemaMixin \<Rightarrow> (string \<times> gval) list list \<Rightarrow> (string \<times> gval) list" where
  [simp]: "TupleSchema_Map m arr = map_put ''items'' (VMaps arr) (rebuildType m ''list'')"

definition ObjectSchema_Map :: "SchemaMixin \<Rightarrow> (string \<times> gval) list \<Rightarrow> string list \<Rightarrow>
    (string \<times> gval) list option \<Rightarrow> (string \<times> gval) list" where
  [simp]: "ObjectSchema_Map m props arr a =
     (let tp = map_put ''properties'' (VMap props) (rebuildType m ''object'');
          tp1 = map_put ''requires'' (VStrs arr) tp
      in case a of None \<Rightarrow> tp1 | Some s \<Rightarrow> map_put ''additionalProperties'' (VMap s) tp1)"

definition MethodSchema_Map :: "SchemaMixin \<Rightarrow> (string \<times> gval) list list \<Rightarrow> (string \<times> gval) list option \<Rightarrow>
    (string \<times> gval) list option \<Rightarrow> (string \<times> gval) list" where
  [simp]: "MethodSchema_Map m arr r a =
     (let tp = map_put ''params'' (VMaps arr) (rebuildType m ''method'');
          tp1 = (case r of None \<Rightarrow> tp | Some s \<Rightarrow> map_put ''returns'' (VMap s) tp)
      in case a of None \<Rightarrow> tp1 | Some s \<Rightarrow> map_put ''additionalParams'' (VMap s) tp1)"

fun Map :: "schema \<Rightarrow> (string \<times> gval) list"
and Maps :: "schema list \<Rightarrow> (string \<times> gval) list list"
and MapProps :: "(string \<times> schema) list \<Rightarrow> (string \<times> gval) list" where
  "Map (AnySchema m) = AnySchema_Map m"
| "Map (NullSchema m) = NullSchema_Map m"
| "Map (BoolSchema m) = BoolSchema_Map m"
| "Map (NumberSchema m l) = NumberSchema_Map m l"
| "Map (IntegerSchema m l) = IntegerSchema_Map m l"
| "Map (StringSchema m _ _) = StringSchema_Map m"
| "Map (AnyOfSchema m cs) = AnyOfSchema_Map m (Maps cs)"
| "Map (AllOfSchema m cs) = AllOfSchema_Map m (Maps cs)"
| "Map (NotSchema m c) = NotSchema_Map m (Map c)"
| "Map (ListSchema m c _ _) = ListSchema_Map m (Map c)"
| "Map (TupleSchema m cs _) = TupleSchema_Map m (Maps cs)"
| "Map (ObjectSchema m ps rs a) = ObjectSchema_Map m (MapProps ps) (map fst rs) (map_option Map a)"
| "Map (MethodSchema m ps r a) = MethodSchema_Map m (Maps ps) (map_option Map r) (map_option Map a)"
| "Maps [] = []"
| "Maps (s # ss) = Map s # Maps ss"
| "MapProps [] = []"
| "MapProps ((k, s) # ps) = (k, VMap (Map s)) # MapProps ps"

text \<open>\<open>SchemaToString\<close>, up to the JSON tree it writes; a marshalling error makes it panic.\<close>

definition SchemaToString :: "(rat \<Rightarrow> string) \<Rightarrow> schema \<Rightarrow> (marshal_err, json) outcome" where
  "SchemaToString ff s = (case marshal ff (VMap (Map s)) of Inl e \<Rightarrow> Panics e | Inr j \<Rightarrow> Returns j)"

section \<open>Equal\<close>

definition PointerEqual :: "('a \<Rightarrow> 'a \<Rightarrow> bool) \<Rightarrow> 'a option \<Rightarrow> 'a option \<Rightarrow> bool" where
  "PointerEqual eq p1 p2 = (case (p1, p2) of
      (Some a, Some b) \<Rightarrow> eq a b | (None, None) \<Rightarrow> True | _ \<Rightarrow> False)"

definition mixin_eq :: "SchemaMixin \<Rightarrow> SchemaMixin \<Rightarrow> bool" where
  "mixin_eq a b = (mx_name a = mx_name b \<and> mx_description a = mx_description b)"

definition limits_eq :: "('n \<Rightarrow> 'n \<Rightarrow> bool) \<Rightarrow> 'n limits \<Rightarrow> 'n limits \<Rightarrow> bool" where
  "limits_eq eq a b = (PointerEqual eq (Maximum a) (Maximum b) \<and>
     PointerEqual eq (Minimum a) (Minimum b) \<and>
     PointerEqual (=) (ExclusiveMaximum a) (ExclusiveMaximum b) \<and>
     PointerEqual (=) (ExclusiveMinimum a) (ExclusiveMinimum b))"

definition SchemaMapValueEqual :: "(string \<times> 'v) list \<Rightarrow> (string \<times> 'v) list \<Rightarrow> bool" where
  "SchemaMapValueEqual m1 m2 = (length m1 = length m2 \<and>
     list_all (\<lambda>(k, e1). case map_of m2 k of None \<Rightarrow> False | Some e2 \<Rightarrow> e1 = e2) m1)"

definition SubSchemaEqual :: "('s \<Rightarrow> 's \<Rightarrow> bool) \<Rightarrow> 's option \<Rightarrow> 's option \<Rightarrow> bool" where
  [simp]: "SubSchemaEqual eq s1 s2 =
     (case s1 of None \<Rightarrow> s2 = None | Some s \<Rightarrow> (case s2 of None \<Rightarrow> False | Some s' \<Rightarrow> eq s s'))"

lemma SubSchemaEqual_cong [fundef_cong]:
  "a = b \<Longrightarrow> (\<And>s s'. b = Some s \<Longrightarrow> f s s' = g s s') \<Longrightarrow> SubSchemaEqual f a = SubSchemaEqual g b"
  by (auto simp: fun_eq_iff split: option.split)

text \<open>The two loops of the code run only on lists and maps of the same length.\<close>

definition SchemaListEqual :: "('s list \<Rightarrow> bool) \<Rightarrow> 's list \<Rightarrow> 's list \<Rightarrow> bool" where
  [simp]: "SchemaListEqual loop l1 l2 = (if length l1 \<noteq> length l2 then False else loop l2)"

definition SchemaMapEqual :: "((string \<times> 's) list \<Rightarrow> bool) \<Rightarrow> (string \<times> 's) list \<Rightarrow> (string \<times> 's) list \<Rightarrow> bool" where
  [simp]: "SchemaMapEqual loop m1 m2 = (if length m1 \<noteq> length m2 then False else loop m2)"

text \<open>The \<open>Equal\<close> method of each struct; how its children compare with other schemas is an argument.\<close>

definition AnySchema_Equal :: "SchemaMixin \<Rightarrow> schema \<Rightarrow> bool" where
  [simp]: "AnySchema_Equal m t = (case t of AnySchema m' \<Rightarrow> mixin_eq m m' | _ \<Rightarrow> False)"

definition NullSchema_Equal :: "SchemaMixin \<Rightarrow> schema \<Rightarrow> bool" where
  [simp]: "NullSchema_Equal m t = (case t of NullSchema m' \<Rightarrow> mixin_eq m m' | _ \<Rightarrow> False)"

definition BoolSchema_Equal :: "SchemaMixin \<Rightarrow> schema \<Rightarrow> bool" where
  [simp]: "BoolSchema_Equal m t = (case t of BoolSchema m' \<Rightarrow> mixin_eq m m' | _ \<Rightarrow> False)"

definition NumberSchema_Equal :: "SchemaMixin \<Rightarrow> f64 limits \<Rightarrow> schema \<Rightarrow> bool" where
  [simp]: "NumberSchema_Equal m l t =
     (case t of NumberSchema m' l' \<Rightarrow> mixin_eq m m' \<and> limits_eq f64_eq l l' | _ \<Rightarrow> False)"

definition IntegerSchema_Equal :: "SchemaMixin \<Rightarrow> int limits \<Rightarrow> schema \<Rightarrow> bool" where
  [simp]: "IntegerSchema_Equal m l t =
     (case t of IntegerSchema m' l' \<Rightarrow> mixin_eq m m' \<and> limits_eq (=) l l' | _ \<Rightarrow> False)"

definition StringSchema_Equal :: "SchemaMixin \<Rightarrow> int option \<Rightarrow> int option \<Rightarrow> schema \<Rightarrow> bool" where
  [simp]: "StringSchema_Equal m a b t = (case t of
     StringSchema m' a' b' \<Rightarrow> mixin_eq m m' \<and> PointerEqual (=) a a' \<and> PointerEqual (=) b b' | _ \<Rightarrow> False)"

definition AnyOfSchema_Equal :: "SchemaMixin \<Rightarrow> (schema list \<Rightarrow> bool) \<Rightarrow> schema \<Rightarrow> bool" where
  [simp]: "AnyOfSchema_Equal m choices t = (case t of AnyOfSchema m' cs' \<Rightarrow> mixin_eq m m' \<and> choices cs' | _ \<Rightarrow> False)"

definition AllOfSchema_Equal :: "SchemaMixin \<Rightarrow> (schema list \<Rightarrow> bool) \<Rightarrow> schema \<Rightarrow> bool" where
  [simp]: "AllOfSchema_Equal m choices t = (case t of AllOfSchema m' cs' \<Rightarrow> mixin_eq m m' \<and> choices cs' | _ \<Rightarrow> False)"

definition NotSchema_Equal :: "SchemaMixin \<Rightarrow> (schema \<Rightarrow> bool) \<Rightarrow> schema \<Rightarrow> bool" where
  [simp]: "NotSchema_Equal m child t = (case t of NotSchema m' c' \<Rightarrow> mixin_eq m m' \<and> child c' | _ \<Rightarrow> False)"

definition ListSchema_Equal :: "SchemaMixin \<Rightarrow> (schema \<Rightarrow> bool) \<Rightarrow> int option \<Rightarrow> int option \<Rightarrow> schema \<Rightarrow> bool" where
  [simp]: "ListSchema_Equal m item mn mx t = (case t of
     ListSchema m' c' mn' mx' \<Rightarrow>
       mixin_eq m m' \<and> PointerEqual (=) mx mx' \<and> PointerEqual (=) mn mn' \<and> item c'
   | _ \<Rightarrow> False)"

definition TupleSchema_Equal ::
  "SchemaMixin \<Rightarrow> (schema option \<Rightarrow> bool) \<Rightarrow> (schema list \<Rightarrow> bool) \<Rightarrow> schema \<Rightarrow> bool" where
  [simp]: "TupleSchema_Equal m additional items t = (case t of
     TupleSchema m' cs' a' \<Rightarrow> mixin_eq m m' \<and> additional a' \<and> items cs' | _ \<Rightarrow> False)"

definition ObjectSchema_Equal :: "SchemaMixin \<Rightarrow> ((string \<times> schema) list \<Rightarrow> bool) \<Rightarrow> (string \<times> bool) list \<Rightarrow>
    (schema option \<Rightarrow> bool) \<Rightarrow> schema \<Rightarrow> bool" where
  [simp]: "ObjectSchema_Equal m props rs additional t = (case t of
     ObjectSchema m' ps' rs' a' \<Rightarrow>
       mixin_eq m m' \<and> props ps' \<and> SchemaMapValueEqual rs rs' \<and> additional a'
   | _ \<Rightarrow> False)"

definition MethodSchema_Equal :: "SchemaMixin \<Rightarrow> (schema option \<Rightarrow> bool) \<Rightarrow> (schema list \<Rightarrow> bool) \<Rightarrow>
    (schema option \<Rightarrow> bool) \<Rightarrow> schema \<Rightarrow> bool" where
  [simp]: "MethodSchema_Equal m additional params returns t = (case t of
     MethodSchema m' ps' r' a' \<Rightarrow> mixin_eq m m' \<and> additional a' \<and> params ps' \<and> returns r' | _ \<Rightarrow> False)"

fun Equal :: "schema \<Rightarrow> schema \<Rightarrow> bool"
and SchemaListEqual_loop :: "schema list \<Rightarrow> schema list \<Rightarrow> bool"
and SchemaMapEqual_loop :: "(string \<times> schema) list \<Rightarrow> (string \<times> schema) list \<Rightarrow> bool" where
  "Equal (AnySchema m) t = AnySchema_Equal m t"
| "Equal (NullSchema m) t = NullSchema_Equal m t"
| "Equal (BoolSchema m) t = BoolSchema_Equal m t"
| "Equal (NumberSchema m l) t = NumberSchema_Equal m l t"
| "Equal (IntegerSchema m l) t = IntegerSchema_Equal m l t"
| "Equal (StringSchema m a b) t = StringSchema_Equal m a b t"
| "Equal (AnyOfSchema m cs) t =
     AnyOfSchema_Equal m (SchemaListEqual (\<lambda>l2. SchemaListEqual_loop cs l2) cs) t"
| "Equal (AllOfSchema m cs) t =
     AllOfSchema_Equal m (SchemaListEqual (\<lambda>l2. SchemaListEqual_loop cs l2) cs) t"
| "Equal (NotSchema m c) t = NotSchema_Equal m (\<lambda>c'. Equal c c') t"
| "Equal (ListSchema m c mn mx) t = ListSchema_Equal m (\<lambda>c'. Equal c c') mn mx t"
| "Equal (TupleSchema m cs a) t =
     TupleSchema_Equal m (\<lambda>a'. SubSchemaEqual (\<lambda>s s'. Equal s s') a a')
       (SchemaListEqual (\<lambda>l2. SchemaListEqual_loop cs l2) cs) t"
| "Equal (ObjectSchema m ps rs a) t =
     ObjectSchema_Equal m (SchemaMapEqual (\<lambda>m2. SchemaMapEqual_loop ps m2) ps) rs
       (\<lambda>a'. SubSchemaEqual (\<lambda>s s'. Equal s s') a a') t"
| "Equal (MethodSchema m ps r a) t =
     MethodSchema_Equal m (\<lambda>a'. SubSchemaEqual (\<lambda>s s'. Equal s s') a a')
       (SchemaListEqual (\<lambda>l2. SchemaListEqual_loop ps l2) ps)
       (\<lambda>r'. SubSchemaEqual (\<lambda>s s'. Equal s s') r r') t"
| "SchemaListEqual_loop [] _ = True"
| "SchemaListEqual_loop (e # l1) l2 = (case l2 of
     [] \<Rightarrow> False | e' # l2' \<Rightarrow> if Equal e e' then SchemaListEqual_loop l1 l2' else False)"
| "SchemaMapEqual_loop [] _ = True"
| "SchemaMapEqual_loop ((k, e1) # m1) m2 = (case map_of m2 k of
     None \<Rightarrow> False | Some e2 \<Rightarrow> if Equal e1 e2 then SchemaMapEqual_loop m1 m2 else False)"

end
