(* ===== verification/Schema_Convert.thy ===== *)
theory Schema_Convert
  imports Go_Values
begin

text \<open>
  \<^verbatim>\<open>schema/convert.go\<close>: reading the attributes of a schema node. The Go functions return
  a value and a flag; here the result is an option. \<open>convertTypeMap\<close> also stores the
  guessed type in the map it is given; the model returns the extended map.
\<close>

section \<open>Type nodes\<close>

definition stringInList :: "string \<Rightarrow> string list \<Rightarrow> bool" where
  "stringInList a candidates = (a \<in> set candidates)"

definition simple_types :: "string list" where
  "simple_types = [''string'', ''number'', ''integer'', ''bool'', ''null'']"

definition guess_type :: "(string \<times> gval) list \<Rightarrow> (string \<times> gval) list" where
  "guess_type m =
     (if map_has m ''type'' then m
      else if map_has m ''params'' then map_put ''type'' (VString ''method'') m
      else if map_has m ''properties'' then map_put ''type'' (VString ''object'') m
      else if map_has m ''anyOf'' then map_put ''type'' (VString ''anyOf'') m
      else if map_has m ''allOf'' then map_put ''type'' (VString ''allOf'') m
      else if map_has m ''not'' then map_put ''type'' (VString ''not'') m
      else m)"

definition convertTypeMap :: "gval \<Rightarrow> (string \<times> gval) list option" where
  "convertTypeMap maybeType = (case maybeType of
      VString s \<Rightarrow> if stringInList s simple_types then Some [(''type'', VString s)] else None
    | VMap m \<Rightarrow> Some (guess_type m)
    | _ \<Rightarrow> None)"

section \<open>Attributes\<close>

definition convertAttrMap :: "(string \<times> gval) list \<Rightarrow> string \<Rightarrow> bool \<Rightarrow> (string \<times> gval) list option" where
  "convertAttrMap node attrName optional = (case map_of node attrName of
      Some v \<Rightarrow> convertTypeMap v
    | None \<Rightarrow> if optional then Some [] else None)"

definition convertAttrList :: "(string \<times> gval) list \<Rightarrow> string \<Rightarrow> bool \<Rightarrow> gval list option" where
  "convertAttrList node attrName optional = (case map_of node attrName of
      Some v \<Rightarrow> (case v of VList l \<Rightarrow> Some l | _ \<Rightarrow> None)
    | None \<Rightarrow> if optional then Some [] else None)"

definition convertAttrBool :: "(string \<times> gval) list \<Rightarrow> string \<Rightarrow> bool \<Rightarrow> bool option" where
  "convertAttrBool node attrName optional = (case map_of node attrName of
      Some v \<Rightarrow> (case v of VBool b \<Rightarrow> Some b | _ \<Rightarrow> None)
    | None \<Rightarrow> if optional then Some False else None)"

definition convertAttrInt :: "(string \<times> gval) list \<Rightarrow> string \<Rightarrow> bool \<Rightarrow> int option" where
  "convertAttrInt node attrName optional = (case map_of node attrName of
      Some v \<Rightarrow> (case v of VInt i \<Rightarrow> Some i | VNumber n \<Rightarrow> ParseInt n | _ \<Rightarrow> None)
    | None \<Rightarrow> if optional then Some 0 else None)"

definition convertAttrFloat :: "(string \<times> gval) list \<Rightarrow> string \<Rightarrow> bool \<Rightarrow> f64 option" where
  "convertAttrFloat node attrName optional = (case map_of node attrName of
      Some v \<Rightarrow> (case v of
          VInt n \<Rightarrow> Some (int_to_f64 n)
        | VFloat f \<Rightarrow> Some f
        | VNumber n \<Rightarrow> (case ParseFloat n of (f, None) \<Rightarrow> Some f | (_, Some _) \<Rightarrow> None)
        | _ \<Rightarrow> None)
    | None \<Rightarrow> if optional then Some (FFin 0) else None)"

text \<open>Loops that give up at the first element that does not convert.\<close>

fun all_some :: "('a \<Rightarrow> 'b option) \<Rightarrow> 'a list \<Rightarrow> 'b list option" where
  "all_some f [] = Some []"
| "all_some f (x # xs) = (case f x of
      None \<Rightarrow> None
    | Some y \<Rightarrow> (case all_some f xs of None \<Rightarrow> None | Some ys \<Rightarrow> Some (y # ys)))"

definition convertAttrMapOfMap ::
  "(string \<times> gval) list \<Rightarrow> string \<Rightarrow> bool \<Rightarrow> (string \<times> (string \<times> gval) list) list option" where
  "convertAttrMapOfMap node attrName optional = (case convertAttrMap node attrName False of
      Some mm \<Rightarrow> all_some (\<lambda>(name, v). map_option (Pair name) (convertTypeMap v)) mm
    | None \<Rightarrow> if optional then Some [] else None)"

definition convertAttrListOfMap ::
  "(string \<times> gval) list \<Rightarrow> string \<Rightarrow> bool \<Rightarrow> (string \<times> gval) list list option" where
  "convertAttrListOfMap node attrName optional = (case map_of node attrName of
      Some v \<Rightarrow> (case v of VList l \<Rightarrow> all_some convertTypeMap l | _ \<Rightarrow> None)
    | None \<Rightarrow> if optional then Some [] else None)"

definition convertAttrListOfString :: "(string \<times> gval) list \<Rightarrow> string \<Rightarrow> bool \<Rightarrow> string list option" where
  "convertAttrListOfString node attrName optional = (case map_of node attrName of
      Some v \<Rightarrow> (case v of
          VList l \<Rightarrow> all_some (\<lambda>x. case x of VString s \<Rightarrow> Some s | _ \<Rightarrow> None) l
        | _ \<Rightarrow> None)
    | None \<Rightarrow> if optional then Some [] else None)"

section \<open>A weight that the recursion over a schema node decreases\<close>

text \<open>
  An entry \<open>"type": "..."\<close> counts nothing, so that neither guessing the type of a node nor
  expanding the short form \<open>"string"\<close> to \<open>{"type": "string"}\<close> makes a node heavier.
\<close>

definition plain_type :: "string \<Rightarrow> gval \<Rightarrow> bool" where
  "plain_type k v = (k = ''type'' \<and> (case v of VString _ \<Rightarrow> True | _ \<Rightarrow> False))"

fun weight :: "gval \<Rightarrow> nat"
and list_weight :: "gval list \<Rightarrow> nat"
and map_weight :: "(string \<times> gval) list \<Rightarrow> nat" where
  "weight (VList vs) = 1 + list_weight vs"
| "weight (VMap m) = 1 + map_weight m"
| "weight _ = 0"
| "list_weight [] = 0"
| "list_weight (v # vs) = 1 + weight v + list_weight vs"
| "map_weight [] = 0"
| "map_weight ((k, v) # m) = (if plain_type k v then 0 else 1 + weight v) + map_weight m"

lemma map_weight_append: "map_weight (xs @ ys) = map_weight xs + map_weight ys"
  by (induction xs) auto

lemma map_weight_put_type:
  "\<not> map_has m ''type'' \<Longrightarrow> map_weight (map_put ''type'' (VString s) m) = map_weight m"
  by (simp add: map_has_iff map_put_new map_weight_append plain_type_def)

lemma map_weight_guess [simp]: "map_weight (guess_type m) = map_weight m"
  by (simp add: guess_type_def map_weight_put_type)

lemma convertTypeMap_weight: "convertTypeMap v = Some m \<Longrightarrow> map_weight m \<le> weight v"
  by (auto simp: convertTypeMap_def plain_type_def split: gval.splits if_splits)

lemma list_weight_mem: "v \<in> set vs \<Longrightarrow> weight v < list_weight vs"
  by (induction vs) auto

lemma map_weight_mem: "(k, v) \<in> set m \<Longrightarrow> \<not> plain_type k v \<Longrightarrow> weight v < map_weight m"
  by (induction m) auto

lemma map_weight_mem': "(k, v) \<in> set m \<Longrightarrow> weight v \<le> map_weight m"
  by (cases "plain_type k v")
    (auto simp: plain_type_def less_imp_le_nat map_weight_mem split: gval.splits)

lemma map_of_weight: "map_of node k = Some v \<Longrightarrow> k \<noteq> ''type'' \<Longrightarrow> weight v < map_weight node"
  using map_weight_mem [of k v node] by (auto simp: plain_type_def dest: map_of_SomeD)

lemma all_some_mem: "all_some f xs = Some ys \<Longrightarrow> y \<in> set ys \<Longrightarrow> \<exists>x \<in> set xs. f x = Some y"
  by (induction xs arbitrary: ys) (auto split: option.splits)

lemma all_some_map: "(\<And>x. x \<in> set xs \<Longrightarrow> f x = Some (g x)) \<Longrightarrow> all_some f xs = Some (map g xs)"
  by (induction xs) auto

lemma convertAttrMap_weight:
  "convertAttrMap node k False = Some m \<Longrightarrow> k \<noteq> ''type'' \<Longrightarrow> map_weight m < map_weight node"
  by (auto simp: convertAttrMap_def split: option.splits
      dest!: convertTypeMap_weight map_of_weight)

lemma convertAttrListOfMap_weight:
  "convertAttrListOfMap node k opt = Some ms \<Longrightarrow> m \<in> set ms \<Longrightarrow> k \<noteq> ''type'' \<Longrightarrow>
   map_weight m < map_weight node"
  by (fastforce simp: convertAttrListOfMap_def split: option.splits gval.splits if_splits
      dest!: all_some_mem map_of_weight list_weight_mem convertTypeMap_weight)

lemma convertAttrMapOfMap_weight:
  "convertAttrMapOfMap node k opt = Some ms \<Longrightarrow> (p, m) \<in> set ms \<Longrightarrow> k \<noteq> ''type'' \<Longrightarrow>
   map_weight m < map_weight node"
  by (fastforce simp: convertAttrMapOfMap_def split: option.splits if_splits
      dest!: all_some_mem convertAttrMap_weight map_weight_mem' convertTypeMap_weight)

end
