(* ===== verification/Schema_Validate.thy ===== *)
theory Schema_Validate
  imports Schema_Types Schema_Convert "HOL-Library.Sublist"
begin

text \<open>
  Validation: \<^verbatim>\<open>schema/validator.go\<close> and the \<open>Scan\<close> methods of \<^verbatim>\<open>schema/schema.go\<close>. The
  validator's path stack is threaded through explicitly, and every place where the code
  would panic (a pop that does not match the top of the stack, an index out of range) is
  a \<open>Panics\<close> branch. \<open>conforms\<close> states what validity means without the stack, the order of
  map iteration or the error reports; the lemmas show that \<open>Scan\<close> decides it, never
  panics and leaves the stack as it found it.
\<close>

section \<open>The validator\<close>

record SchemaValidator =
  paths :: "string list"
  hint :: string
  errorPath :: string

record ErrorPos =
  ep_paths :: "string list"
  ep_hint :: string

datatype scan_panic = PopMismatch string | IndexOutOfRange

type_synonym 'a scan = "SchemaValidator \<Rightarrow> (scan_panic, 'a \<times> SchemaValidator) outcome"

definition NewSchemaValidator :: SchemaValidator where
  "NewSchemaValidator = \<lparr>paths = [], hint = [], errorPath = []\<rparr>"

definition Path :: "ErrorPos \<Rightarrow> string" where
  "Path e = concat (ep_paths e)"

definition NewErrorPos :: "SchemaValidator \<Rightarrow> string \<Rightarrow> ErrorPos" where
  "NewErrorPos v h = \<lparr>ep_paths = paths v, ep_hint = h\<rparr>"

definition pushPath :: "string \<Rightarrow> SchemaValidator \<Rightarrow> SchemaValidator" where
  "pushPath path v = (if path \<noteq> [] then v\<lparr>paths := paths v @ [path]\<rparr> else v)"

definition popPath :: "string \<Rightarrow> SchemaValidator \<Rightarrow> (scan_panic, SchemaValidator) outcome" where
  "popPath path v =
     (if path \<noteq> [] then
        (if paths v = [] then Panics IndexOutOfRange
         else if last (paths v) \<noteq> path then Panics (PopMismatch path)
         else Returns (v\<lparr>paths := butlast (paths v)\<rparr>))
      else Returns v)"

text \<open>A scan between a push and the matching pop: the body of \<open>SchemaValidator.Scan\<close>.\<close>

definition at_path :: "string \<Rightarrow> 'a scan \<Rightarrow> 'a scan" where
  "at_path path k v =
     obind (k (pushPath path v)) (\<lambda>(e, v').
       obind (popPath path v') (\<lambda>v''. Returns (e, v'')))"

definition fail_with :: "string \<Rightarrow> ErrorPos option scan" where
  "fail_with h v = Returns (Some (NewErrorPos v h), v)"

definition accept :: "ErrorPos option scan" where
  "accept v = Returns (None, v)"

text \<open>Sequencing that stops at the first error position.\<close>

definition and_scan :: "ErrorPos option scan \<Rightarrow> ErrorPos option scan \<Rightarrow> ErrorPos option scan" where
  "and_scan a b v = obind (a v) (\<lambda>(e, v'). case e of None \<Rightarrow> b v' | Some _ \<Rightarrow> Returns (e, v'))"

section \<open>Leaves\<close>

text \<open>
  The range checks of the two numeric schemas are the same code over \<open>float64\<close> and \<open>int64\<close>;
  the comparisons are those of the type.
\<close>

definition NumberSchema_checkRange :: "f64 limits \<Rightarrow> f64 \<Rightarrow> ErrorPos option scan" where
  "NumberSchema_checkRange l x =
     and_scan
       (case Maximum l of None \<Rightarrow> accept | Some mx \<Rightarrow>
          let exmax = (case ExclusiveMaximum l of None \<Rightarrow> False | Some b \<Rightarrow> b)
          in if exmax \<and> mx \<le> x then fail_with ''value >= maximum''
             else if \<not> exmax \<and> mx < x then fail_with ''value > maximum''
             else accept)
       (case Minimum l of None \<Rightarrow> accept | Some mn \<Rightarrow>
          let exmin = (case ExclusiveMinimum l of None \<Rightarrow> False | Some b \<Rightarrow> b)
          in if \<not> exmin \<and> mn > x then fail_with ''value < minimum''
             else if exmin \<and> mn \<ge> x then fail_with ''value <= minimum''
             else accept)"

definition IntegerSchema_checkRange :: "int limits \<Rightarrow> int \<Rightarrow> ErrorPos option scan" where
  "IntegerSchema_checkRange l x =
     and_scan
       (case Maximum l of None \<Rightarrow> accept | Some mx \<Rightarrow>
          let exmax = (case ExclusiveMaximum l of None \<Rightarrow> False | Some b \<Rightarrow> b)
          in if exmax \<and> mx \<le> x then fail_with ''value >= maximum''
             else if \<not> exmax \<and> mx < x then fail_with ''value > maximum''
             else accept)
       (case Minimum l of None \<Rightarrow> accept | Some mn \<Rightarrow>
          let exmin = (case ExclusiveMinimum l of None \<Rightarrow> False | Some b \<Rightarrow> b)
          in if \<not> exmin \<and> mn > x then fail_with ''value < minimum''
             else if exmin \<and> mn \<ge> x then fail_with ''value <= minimum''
             else accept)"

text \<open>The number a value stands for in a number schema; the error of \<open>Float64\<close> is ignored.\<close>

definition number_of :: "gval \<Rightarrow> f64 option" where
  "number_of d = (case d of
      VNumber n \<Rightarrow> Some (fst (ParseFloat n))
    | VInt n \<Rightarrow> Some (int_to_f64 n)
    | VFloat f \<Rightarrow> Some f
    | _ \<Rightarrow> None)"

definition integer_of :: "gval \<Rightarrow> int option" where
  "integer_of d = (case d of VNumber n \<Rightarrow> ParseInt n | VInt n \<Rightarrow> Some n | _ \<Rightarrow> None)"

definition scan_string :: "int option \<Rightarrow> int option \<Rightarrow> string \<Rightarrow> ErrorPos option scan" where
  "scan_string mx mn s =
     (if (case mx of None \<Rightarrow> False | Some n \<Rightarrow> n < int (length s)) then fail_with ''len(str) > maxLength''
      else if (case mn of None \<Rightarrow> False | Some n \<Rightarrow> int (length s) < n) then fail_with ''len(str) < minLength''
      else accept)"

section \<open>Scan\<close>

text \<open>The loops over the elements of a list, from index \<open>i\<close>, and over the entries of an object
  that are not among the declared properties.\<close>

fun scan_items :: "(gval \<Rightarrow> ErrorPos option scan) \<Rightarrow> nat \<Rightarrow> gval list \<Rightarrow> ErrorPos option scan" where
  "scan_items f i [] = accept"
| "scan_items f i (x # xs) = and_scan (at_path (index_path i) (f x)) (scan_items f (Suc i) xs)"

fun scan_entries ::
  "(gval \<Rightarrow> ErrorPos option scan) \<Rightarrow> string list \<Rightarrow> (string \<times> gval) list \<Rightarrow> ErrorPos option scan" where
  "scan_entries f checked [] = accept"
| "scan_entries f checked ((prop, x) # obj) =
     (if prop \<in> set checked then scan_entries f checked obj
      else and_scan (at_path (''.'' @ prop) (f x)) (scan_entries f checked obj))"

text \<open>
  The \<open>Scan\<close> method of each struct; the scans of its children are arguments, a loop over
  children as the scan of the whole list.
\<close>

definition AnySchema_Scan :: "gval \<Rightarrow> ErrorPos option scan" where
  [simp]: "AnySchema_Scan d = accept"

definition NullSchema_Scan :: "gval \<Rightarrow> ErrorPos option scan" where
  [simp]: "NullSchema_Scan d = (if d \<noteq> VNil then fail_with ''data is not null'' else accept)"

definition BoolSchema_Scan :: "gval \<Rightarrow> ErrorPos option scan" where
  [simp]: "BoolSchema_Scan d = (case d of VBool _ \<Rightarrow> accept | _ \<Rightarrow> fail_with ''data is not bool'')"

definition NumberSchema_Scan :: "f64 limits \<Rightarrow> gval \<Rightarrow> ErrorPos option scan" where
  [simp]: "NumberSchema_Scan l d = (case number_of d of
     Some f \<Rightarrow> NumberSchema_checkRange l f
   | None \<Rightarrow> fail_with ''data is not number'')"

definition IntegerSchema_Scan :: "int limits \<Rightarrow> gval \<Rightarrow> ErrorPos option scan" where
  [simp]: "IntegerSchema_Scan l d = (case integer_of d of
     Some n \<Rightarrow> IntegerSchema_checkRange l n
   | None \<Rightarrow> fail_with ''data is not integer'')"

definition StringSchema_Scan :: "int option \<Rightarrow> int option \<Rightarrow> gval \<Rightarrow> ErrorPos option scan" where
  [simp]: "StringSchema_Scan mx mn d = (case d of
     VString s \<Rightarrow> scan_string mx mn s
   | _ \<Rightarrow> fail_with ''data is not string'')"

definition NotSchema_Scan :: "(gval \<Rightarrow> ErrorPos option scan) \<Rightarrow> gval \<Rightarrow> ErrorPos option scan" where
  [simp]: "NotSchema_Scan child d = (\<lambda>v. obind (child d v) (\<lambda>(e, v').
     if e = None then fail_with ''not validator failed'' v' else accept v'))"

definition ListSchema_Scan ::
  "(gval \<Rightarrow> ErrorPos option scan) \<Rightarrow> int option \<Rightarrow> int option \<Rightarrow> gval \<Rightarrow> ErrorPos option scan" where
  [simp]: "ListSchema_Scan item mn mx d = (case d of
     VList items \<Rightarrow>
       if (case mx of None \<Rightarrow> False | Some n \<Rightarrow> n < int (length items)) then
         fail_with ''len(items) > maxItems''
       else if (case mn of None \<Rightarrow> False | Some n \<Rightarrow> int (length items) < n) then
         fail_with ''len(items) < minItems''
       else scan_items item 0 items
   | _ \<Rightarrow> fail_with ''data is not a list'')"

definition TupleSchema_Scan :: "(gval list \<Rightarrow> ErrorPos option scan) \<Rightarrow> nat \<Rightarrow>
    (gval \<Rightarrow> ErrorPos option scan) option \<Rightarrow> gval \<Rightarrow> ErrorPos option scan" where
  [simp]: "TupleSchema_Scan scan_children n add d = (case d of
     VList items \<Rightarrow>
       (case add of
          None \<Rightarrow>
            if length items \<noteq> n then fail_with ''tuple items length mismatch''
            else scan_children items
        | Some scan_add \<Rightarrow>
            if length items < n then fail_with ''data items length smaller than expected''
            else and_scan (scan_children items) (scan_items scan_add n (drop n items)))
   | _ \<Rightarrow> fail_with ''data is not a list'')"

definition ObjectSchema_Scan :: "((string \<times> gval) list \<Rightarrow> ErrorPos option scan) \<Rightarrow> string list \<Rightarrow>
    (gval \<Rightarrow> ErrorPos option scan) option \<Rightarrow> gval \<Rightarrow> ErrorPos option scan" where
  [simp]: "ObjectSchema_Scan scan_declared checked add d = (case d of
     VMap obj \<Rightarrow>
       and_scan (scan_declared obj)
         (case add of
            None \<Rightarrow> accept
          | Some scan_add \<Rightarrow> scan_entries scan_add checked obj)
   | _ \<Rightarrow> fail_with ''data is not an object'')"

definition ScanParams :: "(gval list \<Rightarrow> ErrorPos option scan) \<Rightarrow> nat \<Rightarrow>
    (gval \<Rightarrow> ErrorPos option scan) option \<Rightarrow> gval list \<Rightarrow> ErrorPos option scan" where
  [simp]: "ScanParams scan_declared n add params =
     at_path ''.params''
       (if length params < n then fail_with ''length of params mismatch''
        else and_scan (scan_declared params)
          (if length params > n then
             (case add of
                None \<Rightarrow> fail_with ''length of params mismatch''
              | Some scan_add \<Rightarrow> scan_items scan_add n (drop n params))
           else accept))"

definition ScanResult :: "(gval \<Rightarrow> ErrorPos option scan) option \<Rightarrow> gval \<Rightarrow> ErrorPos option scan" where
  [simp]: "ScanResult ret r = (case ret of Some scan_ret \<Rightarrow> at_path ''.result'' (scan_ret r) | None \<Rightarrow> accept)"

definition MethodSchema_Scan ::
  "(gval list \<Rightarrow> ErrorPos option scan) \<Rightarrow> (gval \<Rightarrow> ErrorPos option scan) \<Rightarrow> gval \<Rightarrow> ErrorPos option scan" where
  [simp]: "MethodSchema_Scan scan_params scan_result d = (case d of
     VMap dataMap \<Rightarrow>
       (case convertAttrList dataMap ''params'' False of
          Some params \<Rightarrow> scan_params params
        | None \<Rightarrow>
            (case map_of dataMap ''result'' of
               Some r \<Rightarrow> scan_result r
             | None \<Rightarrow> fail_with ''data is not a JSONRPC message''))
   | _ \<Rightarrow> fail_with ''data is not object'')"

fun Scan :: "schema \<Rightarrow> gval \<Rightarrow> ErrorPos option scan"
and scan_any :: "schema list \<Rightarrow> gval \<Rightarrow> ErrorPos option scan"
and scan_all :: "schema list \<Rightarrow> gval \<Rightarrow> ErrorPos option scan"
and scan_seq :: "schema list \<Rightarrow> nat \<Rightarrow> gval list \<Rightarrow> ErrorPos option scan"
and scan_props :: "(string \<times> schema) list \<Rightarrow> (string \<times> bool) list \<Rightarrow> (string \<times> gval) list \<Rightarrow>
    ErrorPos option scan" where
  "Scan (AnySchema _) d = AnySchema_Scan d"
| "Scan (NullSchema _) d = NullSchema_Scan d"
| "Scan (BoolSchema _) d = BoolSchema_Scan d"
| "Scan (NumberSchema _ l) d = NumberSchema_Scan l d"
| "Scan (IntegerSchema _ l) d = IntegerSchema_Scan l d"
| "Scan (StringSchema _ mx mn) d = StringSchema_Scan mx mn d"
| "Scan (AnyOfSchema _ cs) d = scan_any cs d"
| "Scan (AllOfSchema _ cs) d = scan_all cs d"
| "Scan (NotSchema _ c) d = NotSchema_Scan (\<lambda>x. Scan c x) d"
| "Scan (ListSchema _ it mn mx) d = ListSchema_Scan (\<lambda>x. Scan it x) mn mx d"
| "Scan (TupleSchema _ cs add) d =
     TupleSchema_Scan (\<lambda>xs. scan_seq cs 0 xs) (length cs) (map_option (\<lambda>a x. Scan a x) add) d"
| "Scan (ObjectSchema _ ps rs add) d =
     ObjectSchema_Scan (\<lambda>obj. scan_props ps rs obj) (map fst ps) (map_option (\<lambda>a x. Scan a x) add) d"
| "Scan (MethodSchema _ ps ret add) d =
     MethodSchema_Scan
       (\<lambda>params. ScanParams (\<lambda>xs. scan_seq ps 0 xs) (length ps) (map_option (\<lambda>a x. Scan a x) add) params)
       (\<lambda>r. ScanResult (map_option (\<lambda>s x. Scan s x) ret) r) d"
| "scan_any [] d = fail_with ''data is not any of the types''"
| "scan_any (c # cs) d = (\<lambda>v. obind (at_path [] (Scan c d) v) (\<lambda>(e, v').
     if e = None then accept v' else scan_any cs d v'))"
| "scan_all [] d = accept"
| "scan_all (c # cs) d = and_scan (at_path [] (Scan c d)) (scan_all cs d)"
| "scan_seq [] i xs = accept"
| "scan_seq (s # ss) i xs = (case xs of
     [] \<Rightarrow> (\<lambda>v. Panics IndexOutOfRange)
   | x # xs' \<Rightarrow> and_scan (at_path (index_path i) (Scan s x)) (scan_seq ss (Suc i) xs'))"
| "scan_props [] rs obj = accept"
| "scan_props ((prop, s) # ps) rs obj = (case map_of obj prop of
     Some x \<Rightarrow> and_scan (at_path (''.'' @ prop) (Scan s x)) (scan_props ps rs obj)
   | None \<Rightarrow>
       if map_has rs prop then at_path (''.'' @ prop) (fail_with ''required prop is not present'')
       else scan_props ps rs obj)"

definition ValidatorScan :: "schema \<Rightarrow> string \<Rightarrow> gval \<Rightarrow> ErrorPos option scan" where
  "ValidatorScan s path d = at_path path (Scan s d)"

definition Validate :: "schema \<Rightarrow> gval \<Rightarrow> ErrorPos option scan" where
  "Validate s d = ValidatorScan s [] d"

section \<open>What validity means\<close>

definition in_limits :: "('n::ord) limits \<Rightarrow> 'n \<Rightarrow> bool" where
  "in_limits l x =
     ((case Maximum l of None \<Rightarrow> True | Some mx \<Rightarrow>
         if ExclusiveMaximum l = Some True then \<not> mx \<le> x else \<not> mx < x) \<and>
      (case Minimum l of None \<Rightarrow> True | Some mn \<Rightarrow>
         if ExclusiveMinimum l = Some True then \<not> x \<le> mn else \<not> x < mn))"

definition len_within :: "int option \<Rightarrow> int option \<Rightarrow> nat \<Rightarrow> bool" where
  "len_within mn mx n = ((case mx of None \<Rightarrow> True | Some b \<Rightarrow> int n \<le> b) \<and>
     (case mn of None \<Rightarrow> True | Some b \<Rightarrow> b \<le> int n))"

lemma size_zip_left [termination_simp]:
  assumes "(s, x) \<in> set (zip cs xs)"
  shows "size s < Suc (size_list size cs + n)" and "size s < Suc (size_list size cs + n + k)"
proof -
  from assms have "s \<in> set cs" by (rule set_zip_leftD)
  then have "size s \<le> size_list size cs" by (simp add: size_list_estimation')
  then show "size s < Suc (size_list size cs + n)" "size s < Suc (size_list size cs + n + k)"
    by simp_all
qed

lemma size_prop [termination_simp]:
  "(p, s) \<in> set ps \<Longrightarrow> size s < Suc (size_list (size_prod (\<lambda>x. 0) size) ps + n)"
  by (induction ps) auto

fun conforms :: "schema \<Rightarrow> gval \<Rightarrow> bool" where
  "conforms (AnySchema _) d = True"
| "conforms (NullSchema _) d = (d = VNil)"
| "conforms (BoolSchema _) d = (case d of VBool _ \<Rightarrow> True | _ \<Rightarrow> False)"
| "conforms (NumberSchema _ l) d =
     (case number_of d of Some f \<Rightarrow> in_limits l f | None \<Rightarrow> False)"
| "conforms (IntegerSchema _ l) d =
     (case integer_of d of Some n \<Rightarrow> in_limits l n | None \<Rightarrow> False)"
| "conforms (StringSchema _ mx mn) d =
     (case d of VString s \<Rightarrow> len_within mn mx (length s) | _ \<Rightarrow> False)"
| "conforms (AnyOfSchema _ cs) d = (\<exists>c \<in> set cs. conforms c d)"
| "conforms (AllOfSchema _ cs) d = (\<forall>c \<in> set cs. conforms c d)"
| "conforms (NotSchema _ c) d = (\<not> conforms c d)"
| "conforms (ListSchema _ it mn mx) d = (case d of
     VList items \<Rightarrow> len_within mn mx (length items) \<and> (\<forall>x \<in> set items. conforms it x) | _ \<Rightarrow> False)"
| "conforms (TupleSchema _ cs add) d = (case d of
     VList items \<Rightarrow>
       length cs \<le> length items \<and> (\<forall>(s, x) \<in> set (zip cs items). conforms s x) \<and>
       (case add of None \<Rightarrow> length items = length cs
        | Some a \<Rightarrow> \<forall>x \<in> set (drop (length cs) items). conforms a x)
   | _ \<Rightarrow> False)"
| "conforms (ObjectSchema _ ps rs add) d = (case d of
     VMap obj \<Rightarrow>
       (\<forall>(p, s) \<in> set ps. case map_of obj p of Some x \<Rightarrow> conforms s x | None \<Rightarrow> \<not> map_has rs p) \<and>
       (case add of None \<Rightarrow> True
        | Some a \<Rightarrow> \<forall>(p, x) \<in> set obj. p \<notin> fst ` set ps \<longrightarrow> conforms a x)
   | _ \<Rightarrow> False)"
| "conforms (MethodSchema _ ps ret add) d = (case d of
     VMap m \<Rightarrow>
       (case convertAttrList m ''params'' False of
          Some params \<Rightarrow>
            length ps \<le> length params \<and> (\<forall>(s, x) \<in> set (zip ps params). conforms s x) \<and>
            (case add of None \<Rightarrow> length params = length ps
             | Some a \<Rightarrow> \<forall>x \<in> set (drop (length ps) params). conforms a x)
        | None \<Rightarrow>
            (case map_of m ''result'' of
               Some r \<Rightarrow> (case ret of Some s \<Rightarrow> conforms s r | None \<Rightarrow> True)
             | None \<Rightarrow> False))
   | _ \<Rightarrow> False)"

section \<open>Scan decides conformance\<close>

text \<open>
  \<open>decides k P\<close>: from every validator, \<open>k\<close> returns without a panic, with the validator
  unchanged, and without an error exactly if \<open>P\<close>; a reported position lies at or below
  the validator's.
\<close>

definition decides :: "ErrorPos option scan \<Rightarrow> bool \<Rightarrow> bool" where
  "decides k P \<longleftrightarrow> (\<forall>v. \<exists>e. k v = Returns (e, v) \<and> (e = None \<longleftrightarrow> P) \<and>
     (\<forall>p. e = Some p \<longrightarrow> prefix (paths v) (ep_paths p)))"

named_theorems deciding \<open>rules for decides\<close>

lemma decides_accept [deciding]: "P \<Longrightarrow> decides accept P"
  by (simp add: decides_def accept_def)

lemma decides_fail [deciding]: "\<not> P \<Longrightarrow> decides (fail_with h) P"
  by (simp add: decides_def fail_with_def NewErrorPos_def)

lemma decides_and:
  assumes a: "decides a P" and b: "P \<Longrightarrow> decides b Q"
  shows "decides (and_scan a b) (P \<and> Q)"
  unfolding decides_def
proof
  fix v
  obtain e where e: "a v = Returns (e, v)" "e = None \<longleftrightarrow> P"
    "\<forall>p. e = Some p \<longrightarrow> prefix (paths v) (ep_paths p)"
    using a unfolding decides_def by blast
  show "\<exists>e. and_scan a b v = Returns (e, v) \<and> (e = None \<longleftrightarrow> P \<and> Q) \<and>
      (\<forall>p. e = Some p \<longrightarrow> prefix (paths v) (ep_paths p))"
  proof (cases e)
    case None
    then have "P" using e by simp
    then have "decides b Q" by (rule b)
    then show ?thesis using e None by (auto simp: and_scan_def decides_def)
  next
    case (Some p)
    then show ?thesis using e by (auto simp: and_scan_def)
  qed
qed

lemma pop_push [simp]: "popPath p (pushPath p v) = Returns v"
  by (simp add: popPath_def pushPath_def)

lemma push_prefix: "prefix (paths (pushPath p v)) xs \<Longrightarrow> prefix (paths v) xs"
  by (auto simp: pushPath_def dest: append_prefixD split: if_splits)

lemma decides_at_path:
  assumes "decides k P"
  shows "decides (at_path p k) P"
  unfolding decides_def
proof
  fix v
  obtain e where "k (pushPath p v) = Returns (e, pushPath p v)" "e = None \<longleftrightarrow> P"
    "\<forall>q. e = Some q \<longrightarrow> prefix (paths (pushPath p v)) (ep_paths q)"
    using assms unfolding decides_def by blast
  then show "\<exists>e. at_path p k v = Returns (e, v) \<and> (e = None \<longleftrightarrow> P) \<and>
      (\<forall>q. e = Some q \<longrightarrow> prefix (paths v) (ep_paths q))"
    by (auto simp: at_path_def push_prefix)
qed

lemma decides_not:
  assumes "decides k P"
  shows "decides (\<lambda>v. obind (k v) (\<lambda>(e, v'). if e = None then fail_with h v' else accept v')) (\<not> P)"
  unfolding decides_def
proof
  fix v
  obtain e where "k v = Returns (e, v)" "e = None \<longleftrightarrow> P"
    using assms unfolding decides_def by blast
  then show "\<exists>e. obind (k v) (\<lambda>(e, v'). if e = None then fail_with h v' else accept v') = Returns (e, v) \<and>
      (e = None \<longleftrightarrow> \<not> P) \<and> (\<forall>p. e = Some p \<longrightarrow> prefix (paths v) (ep_paths p))"
    by (auto simp: fail_with_def accept_def NewErrorPos_def)
qed

lemma decides_or:
  assumes a: "decides a P" and b: "\<not> P \<Longrightarrow> decides b Q"
  shows "decides (\<lambda>v. obind (a v) (\<lambda>(e, v'). if e = None then accept v' else b v')) (P \<or> Q)"
  unfolding decides_def
proof
  fix v
  obtain e where e: "a v = Returns (e, v)" "e = None \<longleftrightarrow> P"
    using a unfolding decides_def by blast
  show "\<exists>e. obind (a v) (\<lambda>(e, v'). if e = None then accept v' else b v') = Returns (e, v) \<and>
      (e = None \<longleftrightarrow> P \<or> Q) \<and> (\<forall>p. e = Some p \<longrightarrow> prefix (paths v) (ep_paths p))"
  proof (cases "e = None")
    case True
    then show ?thesis using e by (simp add: accept_def)
  next
    case False
    then have "decides b Q" using b e by blast
    then show ?thesis using e False by (auto simp: decides_def)
  qed
qed

lemma decides_cong: "decides k P \<Longrightarrow> P = Q \<Longrightarrow> decides k Q"
  by simp

lemma decides_checkRange:
  "decides (NumberSchema_checkRange l x) (in_limits l x)"
  "decides (IntegerSchema_checkRange k n) (in_limits k n)"
  unfolding NumberSchema_checkRange_def IntegerSchema_checkRange_def in_limits_def
  by (rule decides_and; auto simp: Let_def split: option.splits intro!: decides_accept decides_fail)+

lemma decides_scan_string: "decides (scan_string mx mn s) (len_within mn mx (length s))"
  by (auto simp: scan_string_def len_within_def split: option.splits intro!: decides_accept decides_fail)

lemma decides_items:
  assumes "\<And>x. decides (f x) (Q x)"
  shows "decides (scan_items f i xs) (\<forall>x \<in> set xs. Q x)"
proof (induction xs arbitrary: i)
  case (Cons x xs)
  have "decides (scan_items f i (x # xs)) (Q x \<and> (\<forall>x \<in> set xs. Q x))"
    by (simp del: list.set, intro decides_and decides_at_path assms Cons)
  then show ?case by simp
qed (simp add: decides_accept)

lemma decides_entries:
  assumes "\<And>x. decides (f x) (Q x)"
  shows "decides (scan_entries f ks obj) (\<forall>(p, x) \<in> set obj. p \<notin> set ks \<longrightarrow> Q x)"
proof (induction obj)
  case (Cons e obj)
  obtain p x where e: "e = (p, x)" by (cases e)
  show ?case
  proof (cases "p \<in> set ks")
    case True
    with Cons e show ?thesis by simp
  next
    case False
    have "decides (scan_entries f ks (e # obj)) (Q x \<and> (\<forall>(p, x) \<in> set obj. p \<notin> set ks \<longrightarrow> Q x))"
      using False by (simp add: e del: list.set, intro decides_and decides_at_path assms Cons)
    with False e show ?thesis by simp
  qed
qed (simp add: decides_accept)

lemma decides_any:
  assumes "\<And>c d. c \<in> set cs \<Longrightarrow> decides (Scan c d) (conforms c d)"
  shows "decides (scan_any cs d) (\<exists>c \<in> set cs. conforms c d)"
  using assms
proof (induction cs)
  case (Cons c cs)
  have "decides (scan_any (c # cs) d) (conforms c d \<or> (\<exists>c \<in> set cs. conforms c d))"
    unfolding scan_any.simps
    by (intro decides_or decides_at_path) (use Cons in auto)
  then show ?case by simp
qed (simp add: decides_fail)

lemma decides_all:
  assumes "\<And>c d. c \<in> set cs \<Longrightarrow> decides (Scan c d) (conforms c d)"
  shows "decides (scan_all cs d) (\<forall>c \<in> set cs. conforms c d)"
  using assms
proof (induction cs)
  case (Cons c cs)
  have "decides (scan_all (c # cs) d) (conforms c d \<and> (\<forall>c \<in> set cs. conforms c d))"
    unfolding scan_all.simps
    by (intro decides_and decides_at_path) (use Cons in auto)
  then show ?case by simp
qed (simp add: decides_accept)

lemma decides_seq:
  assumes "\<And>c d. c \<in> set cs \<Longrightarrow> decides (Scan c d) (conforms c d)" "length cs \<le> length xs"
  shows "decides (scan_seq cs i xs) (\<forall>(s, x) \<in> set (zip cs xs). conforms s x)"
  using assms
proof (induction cs arbitrary: i xs)
  case (Cons c cs)
  then obtain x xs' where xs: "xs = x # xs'" by (cases xs) auto
  have "decides (scan_seq (c # cs) i xs) (conforms c x \<and> (\<forall>(s, x) \<in> set (zip cs xs'). conforms s x))"
    unfolding xs scan_seq.simps list.case
    by (intro decides_and decides_at_path) (use Cons xs in auto)
  then show ?case by (simp add: xs)
qed (simp add: decides_accept)

text \<open>What the property loop of an object schema decides.\<close>

definition prop_ok :: "(string \<times> bool) list \<Rightarrow> (string \<times> gval) list \<Rightarrow> string \<times> schema \<Rightarrow> bool" where
  "prop_ok rs obj = (\<lambda>(p, s). case map_of obj p of Some x \<Rightarrow> conforms s x | None \<Rightarrow> \<not> map_has rs p)"

lemma decides_props:
  assumes "\<And>p c d. (p, c) \<in> set ps \<Longrightarrow> decides (Scan c d) (conforms c d)"
  shows "decides (scan_props ps rs obj) (\<forall>pc \<in> set ps. prop_ok rs obj pc)"
  using assms
proof (induction ps)
  case (Cons e ps)
  obtain p c where e: "e = (p, c)" by (cases e)
  have IH: "decides (scan_props ps rs obj) (\<forall>pc \<in> set ps. prop_ok rs obj pc)"
    using Cons by auto
  show ?case
  proof (cases "map_of obj p")
    case None
    then show ?thesis
      using IH by (auto simp: e prop_ok_def intro!: decides_at_path decides_fail)
  next
    case (Some x)
    have "decides (scan_props (e # ps) rs obj) (conforms c x \<and> (\<forall>pc \<in> set ps. prop_ok rs obj pc))"
      unfolding e scan_props.simps Some option.case
      by (intro decides_and decides_at_path IH) (use Cons.prems e in auto)
    then show ?thesis by (simp add: e prop_ok_def Some)
  qed
qed (simp add: decides_accept)

text \<open>The positional part shared by tuple and method schemas.\<close>

lemma decides_positional:
  assumes "\<And>c d. c \<in> set cs \<Longrightarrow> decides (Scan c d) (conforms c d)" "length cs \<le> length xs"
    and "decides rest Q"
  shows "decides (and_scan (scan_seq cs i xs) rest) ((\<forall>(s, x) \<in> set (zip cs xs). conforms s x) \<and> Q)"
  using assms by (intro decides_and decides_seq)

lemma conforms_props:
  "(\<forall>(p, s) \<in> set ps. case map_of obj p of Some x \<Rightarrow> conforms s x | None \<Rightarrow> \<not> map_has rs p) \<longleftrightarrow>
   (\<forall>pc \<in> set ps. prop_ok rs obj pc)"
  by (simp add: prop_ok_def)

lemma decides_tuple:
  assumes cs: "\<And>c d. c \<in> set cs \<Longrightarrow> decides (Scan c d) (conforms c d)"
    and add: "\<And>a d. add = Some a \<Longrightarrow> decides (Scan a d) (conforms a d)"
  shows "decides (Scan (TupleSchema m cs add) d) (conforms (TupleSchema m cs add) d)"
proof (cases d)
  case (VList xs)
  show ?thesis
  proof (cases add)
    case None
    show ?thesis
      by (cases "length xs = length cs")
        (auto simp: VList None intro!: decides_fail decides_cong [OF decides_seq [OF cs]])
  next
    case (Some a)
    have "decides (scan_items (Scan a) n (drop n xs)) (\<forall>x \<in> set (drop n xs). conforms a x)" for n
      by (intro decides_items add) (simp add: Some)
    then show ?thesis
      by (cases "length cs \<le> length xs")
        (auto simp: VList Some intro!: decides_fail decides_cong [OF decides_positional [OF cs]])
  qed
qed (auto intro!: decides_fail)

lemma decides_method_params:
  assumes cs: "\<And>c d. c \<in> set cs \<Longrightarrow> decides (Scan c d) (conforms c d)"
    and add: "\<And>a d. add = Some a \<Longrightarrow> decides (Scan a d) (conforms a d)"
  shows "decides
     (if length xs < length cs then fail_with h
      else and_scan (scan_seq cs 0 xs)
        (if length xs > length cs then
           (case map_option (\<lambda>a x. Scan a x) add of
              None \<Rightarrow> fail_with h
            | Some f \<Rightarrow> scan_items f (length cs) (drop (length cs) xs))
         else accept))
     (length cs \<le> length xs \<and> (\<forall>(s, x) \<in> set (zip cs xs). conforms s x) \<and>
      (case add of None \<Rightarrow> length xs = length cs
       | Some a \<Rightarrow> \<forall>x \<in> set (drop (length cs) xs). conforms a x))"
proof (cases "length cs \<le> length xs")
  case True
  have items: "decides (scan_items (Scan a) n (drop n xs)) (\<forall>x \<in> set (drop n xs). conforms a x)"
    if "add = Some a" for a n
    by (intro decides_items add) (simp add: that)
  have rest: "decides (if length xs > length cs then
           (case map_option (\<lambda>a x. Scan a x) add of
              None \<Rightarrow> fail_with h
            | Some f \<Rightarrow> scan_items f (length cs) (drop (length cs) xs))
         else accept)
      (case add of None \<Rightarrow> length xs = length cs
       | Some a \<Rightarrow> \<forall>x \<in> set (drop (length cs) xs). conforms a x)"
    using True by (auto split: option.split intro!: decides_fail decides_accept items)
  from True have "\<not> length xs < length cs" by simp
  then show ?thesis
    using True decides_positional [OF cs True rest, of 0] by simp
qed (auto intro!: decides_fail)

lemma decides_method:
  assumes cs: "\<And>c d. c \<in> set cs \<Longrightarrow> decides (Scan c d) (conforms c d)"
    and ret: "\<And>a d. ret = Some a \<Longrightarrow> decides (Scan a d) (conforms a d)"
    and add: "\<And>a d. add = Some a \<Longrightarrow> decides (Scan a d) (conforms a d)"
  shows "decides (Scan (MethodSchema m cs ret add) d) (conforms (MethodSchema m cs ret add) d)"
proof (cases d)
  case (VMap dm)
  show ?thesis
  proof (cases "convertAttrList dm ''params'' False")
    case None
    then show ?thesis
      by (auto simp: VMap split: option.split intro!: decides_fail decides_accept decides_at_path ret)
  next
    case (Some xs)
    show ?thesis
      unfolding VMap Scan.simps MethodSchema_Scan_def ScanParams_def conforms.simps gval.case Some option.case
      by (intro decides_at_path decides_method_params cs add)
  qed
qed (auto intro!: decides_fail)

lemma Scan_decides: "decides (Scan s d) (conforms s d)"
proof (induction s arbitrary: d)
  case (AnyOfSchema m cs)
  then show ?case by (simp add: decides_any)
next
  case (AllOfSchema m cs)
  then show ?case by (simp add: decides_all)
next
  case (NotSchema m c)
  then show ?case by (simp add: decides_not)
next
  case (ListSchema m it mn mx)
  then show ?case
    by (cases d) (auto simp: len_within_def split: option.splits
      intro!: decides_fail decides_cong [OF decides_items])
next
  case (TupleSchema m cs add)
  then show ?case by (intro decides_tuple) auto
next
  case (ObjectSchema m ps rs add)
  then have ps: "\<And>p c d. (p, c) \<in> set ps \<Longrightarrow> decides (Scan c d) (conforms c d)"
    and add: "\<And>a d. add = Some a \<Longrightarrow> decides (Scan a d) (conforms a d)"
    by (force simp: snds.simps)+
  show ?case
  proof (cases d)
    case (VMap obj)
    have "decides (case map_option (\<lambda>a x. Scan a x) add of None \<Rightarrow> accept | Some f \<Rightarrow> scan_entries f (map fst ps) obj)
        (case add of None \<Rightarrow> True
         | Some a \<Rightarrow> \<forall>(p, x) \<in> set obj. p \<notin> fst ` set ps \<longrightarrow> conforms a x)"
      using decides_entries [where ks = "map fst ps"] add by (auto split: option.split intro: decides_accept)
    then show ?thesis
      unfolding VMap Scan.simps ObjectSchema_Scan_def conforms.simps gval.case conforms_props
      by (intro decides_and decides_props ps)
  qed (auto intro!: decides_fail)
next
  case (MethodSchema m ps ret add)
  then show ?case by (intro decides_method) auto
qed (auto split: gval.split option.split
      intro!: decides_fail decides_accept decides_checkRange decides_scan_string)

lemma Validate_decides: "decides (Validate s d) (conforms s d)"
  unfolding Validate_def ValidatorScan_def by (intro decides_at_path Scan_decides)

section \<open>The contract of a validator\<close>

text \<open>What the callers of \<open>Validate\<close> rely on: it returns, gives the validator back as it was, and
  reports no error exactly for valid data.\<close>

locale checker =
  fixes check :: "'s \<Rightarrow> 'd \<Rightarrow> 'v \<Rightarrow> ('p, 'e option \<times> 'v) outcome"
    and valid :: "'s \<Rightarrow> 'd \<Rightarrow> bool"
  assumes check_total: "\<exists>e. check s d v = Returns (e, v) \<and> (e = None \<longleftrightarrow> valid s d)"
begin

lemma check_valid: "valid s d \<Longrightarrow> check s d v = Returns (None, v)"
  using check_total [of s d v] by auto

lemma check_invalid: "\<not> valid s d \<Longrightarrow> \<exists>e. check s d v = Returns (Some e, v)"
  using check_total [of s d v] by auto

lemma check_valid_iff: "check s d v = Returns (None, v) \<longleftrightarrow> valid s d"
  using check_total [of s d v] by auto

lemma check_iff: "(\<exists>v'. check s d v = Returns (None, v')) \<longleftrightarrow> valid s d"
  using check_total [of s d v] by auto

end

interpretation schema_check: checker Validate conforms
proof
  show "\<exists>e. Validate s d v = Returns (e, v) \<and> (e = None \<longleftrightarrow> conforms s d)" for s d v
    using Validate_decides unfolding decides_def by blast
qed

section \<open>Properties\<close>

text \<open>C3: validation of any data against any schema, from any state of the validator,
  never panics: it returns with the path stack as it found it, reports no error exactly when
  the data conforms to the schema, and otherwise reports a position at or below the one it
  started from.\<close>

theorem validate_correct:
  "\<exists>e. Validate s d v = Returns (e, v) \<and>
     (case e of None \<Rightarrow> conforms s d | Some p \<Rightarrow> \<not> conforms s d \<and> prefix (paths v) (ep_paths p))"
proof -
  obtain e where "Validate s d v = Returns (e, v)" "e = None \<longleftrightarrow> conforms s d"
    "\<forall>p. e = Some p \<longrightarrow> prefix (paths v) (ep_paths p)"
    using Validate_decides unfolding decides_def by blast
  then show ?thesis by (cases e) auto
qed

text \<open>What the constructors' schemas accept before the builder fills them: a \<open>NewAnyOfSchema\<close> refuses everything, a
  \<open>NewAllOfSchema\<close> nothing, a \<open>NewTupleSchema\<close> all but the empty list, the others every value of their type.\<close>

lemma new_schemas:
  "Validate NewNumberSchema d v = Returns (None, v) \<longleftrightarrow> number_of d \<noteq> None"
  "Validate NewIntegerSchema d v = Returns (None, v) \<longleftrightarrow> integer_of d \<noteq> None"
  "Validate NewStringSchema d v = Returns (None, v) \<longleftrightarrow> (\<exists>s. d = VString s)"
  "Validate NewAnyOfSchema d v \<noteq> Returns (None, v)"
  "Validate NewAllOfSchema d v = Returns (None, v)"
  "Validate NewTupleSchema d v = Returns (None, v) \<longleftrightarrow> d = VList []"
  "Validate NewObjectSchema d v = Returns (None, v) \<longleftrightarrow> (\<exists>m. d = VMap m)"
  unfolding schema_check.check_valid_iff
  by (auto simp: NewNumberSchema_def NewIntegerSchema_def NewStringSchema_def NewAnyOfSchema_def NewAllOfSchema_def
      NewTupleSchema_def NewObjectSchema_def no_limits_def in_limits_def len_within_def split: option.splits gval.splits)



end
