(* ===== verification/Schema_Equal.thy ===== *)
theory Schema_Equal
  imports Schema_Validate
begin

text \<open>
  Equality of schemas, \<open>Equal\<close> of \<^verbatim>\<open>schema/schema.go\<close>. The reference is the canonical form
  of a schema, which lists the entries of its maps in key order: \<open>Equal\<close> decides that two
  schemas have the same canonical form. Since validation does not depend on the order of
  map entries either, equal schemas accept the same data.
\<close>

section \<open>Well-formed schemas and values\<close>

definition limits_ok :: "f64 limits \<Rightarrow> bool" where
  "limits_ok l = (Minimum l \<noteq> Some FNaN \<and> Maximum l \<noteq> Some FNaN)"

fun schema_ok :: "schema \<Rightarrow> bool" where
  "schema_ok (NumberSchema _ l) = limits_ok l"
| "schema_ok (AnyOfSchema _ cs) = (\<forall>c \<in> set cs. schema_ok c)"
| "schema_ok (AllOfSchema _ cs) = (\<forall>c \<in> set cs. schema_ok c)"
| "schema_ok (NotSchema _ c) = schema_ok c"
| "schema_ok (ListSchema _ c _ _) = schema_ok c"
| "schema_ok (TupleSchema _ cs a) =
     ((\<forall>c \<in> set cs. schema_ok c) \<and> (\<forall>s \<in> set_option a. schema_ok s))"
| "schema_ok (ObjectSchema _ ps rs a) =
     (go_map ps \<and> go_map rs \<and> (\<forall>(p, s) \<in> set ps. schema_ok s) \<and>
      (\<forall>s \<in> set_option a. schema_ok s))"
| "schema_ok (MethodSchema _ ps r a) =
     ((\<forall>c \<in> set ps. schema_ok c) \<and> (\<forall>s \<in> set_option r. schema_ok s) \<and>
      (\<forall>s \<in> set_option a. schema_ok s))"
| "schema_ok _ = True"

section \<open>Canonical form\<close>

fun canon :: "schema \<Rightarrow> schema" where
  "canon (AnyOfSchema m cs) = AnyOfSchema m (map canon cs)"
| "canon (AllOfSchema m cs) = AllOfSchema m (map canon cs)"
| "canon (NotSchema m c) = NotSchema m (canon c)"
| "canon (ListSchema m c a b) = ListSchema m (canon c) a b"
| "canon (TupleSchema m cs a) = TupleSchema m (map canon cs) (map_option canon a)"
| "canon (ObjectSchema m ps rs a) =
     ObjectSchema m (sort_key fst (map (\<lambda>(p, s). (p, canon s)) ps)) (sort_key fst rs) (map_option canon a)"
| "canon (MethodSchema m ps r a) = MethodSchema m (map canon ps) (map_option canon r) (map_option canon a)"
| "canon s = s"

named_theorems equal_simps \<open>the comparisons of the code as equations\<close>

lemma mixin_eq_iff [equal_simps]: "mixin_eq a b \<longleftrightarrow> a = b"
  by (cases a; cases b) (simp add: mixin_eq_def)

lemma PointerEqual_iff [equal_simps]: "PointerEqual (=) a b \<longleftrightarrow> a = b"
  by (auto simp: PointerEqual_def split: option.splits)

lemma PointerEqual_f64 [equal_simps]: "a \<noteq> Some FNaN \<Longrightarrow> PointerEqual f64_eq a b \<longleftrightarrow> a = b"
  by (auto simp: PointerEqual_def f64_eq_iff split: option.splits)

lemma limits_eq_int [equal_simps]: "limits_eq (=) a b \<longleftrightarrow> a = b"
  by (cases a; cases b) (auto simp: limits_eq_def PointerEqual_iff)

lemma limits_eq_f64 [equal_simps]: "limits_ok a \<Longrightarrow> limits_eq f64_eq a b \<longleftrightarrow> a = b"
  by (cases a; cases b) (auto simp: limits_eq_def limits_ok_def PointerEqual_iff PointerEqual_f64)

lemma list_loop_map:
  "length cs = length ds \<Longrightarrow>
   (\<And>c d. c \<in> set cs \<Longrightarrow> d \<in> set ds \<Longrightarrow> Equal c d \<longleftrightarrow> canon c = canon d) \<Longrightarrow>
   SchemaListEqual_loop cs ds \<longleftrightarrow> map canon cs = map canon ds"
  by (induction cs ds rule: list_induct2) auto

lemma list_loop_iff:
  assumes "\<And>c d. c \<in> set cs \<Longrightarrow> d \<in> set ds \<Longrightarrow> Equal c d \<longleftrightarrow> canon c = canon d"
  shows "(if length cs \<noteq> length ds then False else SchemaListEqual_loop cs ds) \<longleftrightarrow> map canon cs = map canon ds"
  using list_loop_map [of cs ds] assms by (auto dest: map_eq_imp_length_eq)

lemma props_loop:
  "SchemaMapEqual_loop ps qs \<longleftrightarrow> (\<forall>(k, e) \<in> set ps. \<exists>e'. map_of qs k = Some e' \<and> Equal e e')"
proof (induction ps)
  case (Cons p ps)
  then show ?case by (cases p) (auto split: option.splits if_splits)
qed simp

lemma map_loop_canon:
  assumes "go_map ps" "go_map qs"
    and eq: "\<And>k c d. (k, c) \<in> set ps \<Longrightarrow> (k, d) \<in> set qs \<Longrightarrow> Equal c d \<longleftrightarrow> canon c = canon d"
  shows "(if length ps \<noteq> length qs then False else SchemaMapEqual_loop ps qs) \<longleftrightarrow>
    sort_key fst (map (\<lambda>(p, s). (p, canon s)) ps) = sort_key fst (map (\<lambda>(p, s). (p, canon s)) qs)"
proof -
  have "SchemaMapEqual_loop ps qs \<longleftrightarrow>
      (\<forall>(k, e) \<in> set ps. \<exists>e'. map_of qs k = Some e' \<and> canon e = canon e')"
    unfolding props_loop using eq by (fastforce dest: map_of_SomeD)
  then show ?thesis
    using map_loop_iff [OF assms(1,2), of canon canon] assms(1,2)
    by (cases "length ps = length qs") (simp_all add: sort_map_iff)
qed

lemma SchemaMapValueEqual_iff:
  "go_map rs \<Longrightarrow> go_map rs' \<Longrightarrow> SchemaMapValueEqual rs rs' \<longleftrightarrow> sort_key fst rs = sort_key fst rs'"
  using map_loop_iff [of rs rs' "\<lambda>x. x" "\<lambda>x. x"]
  by (auto simp: SchemaMapValueEqual_def list_all_iff sort_map_iff split: option.splits)

lemma option_canon:
  "(\<And>s t. a = Some s \<Longrightarrow> b = Some t \<Longrightarrow> Equal s t \<longleftrightarrow> canon s = canon t) \<Longrightarrow>
   (case a of None \<Rightarrow> b = None | Some s \<Rightarrow> (case b of None \<Rightarrow> False | Some t \<Rightarrow> Equal s t)) \<longleftrightarrow>
   map_option canon a = map_option canon b"
  by (cases a; cases b) auto

lemma Equal_canon_iff: "schema_ok s \<Longrightarrow> schema_ok t \<Longrightarrow> Equal s t \<longleftrightarrow> canon s = canon t"
proof (induction s arbitrary: t)
  case (AnyOfSchema m cs)
  then show ?case
    by (cases t) (auto simp: equal_simps list_loop_iff)
next
  case (AllOfSchema m cs)
  then show ?case
    by (cases t) (auto simp: equal_simps list_loop_iff)
next
  case (NotSchema m c)
  then show ?case by (cases t) (auto simp: equal_simps)
next
  case (ListSchema m c a b)
  then show ?case by (cases t) (auto simp: equal_simps)
next
  case (TupleSchema m cs a)
  show ?case
  proof (cases t)
    case T: (TupleSchema m' ds b)
    note list = list_loop_iff [of cs ds] and opt = option_canon [of a b]
    show ?thesis
      using TupleSchema by (simp add: T equal_simps list opt conj_commute)
  qed auto
next
  case (ObjectSchema m ps rs a)
  show ?case
  proof (cases t)
    case T: (ObjectSchema m' qs rs' b)
    have "(if length ps \<noteq> length qs then False else SchemaMapEqual_loop ps qs) \<longleftrightarrow>
      sort_key fst (map (\<lambda>(p, s). (p, canon s)) ps) = sort_key fst (map (\<lambda>(p, s). (p, canon s)) qs)"
      using ObjectSchema.prems ObjectSchema.IH(1) by (intro map_loop_canon) (force simp: T snds.simps)+
    moreover note opt = option_canon [of a b]
    ultimately show ?thesis
      using ObjectSchema.prems ObjectSchema.IH(2) by (simp add: T equal_simps SchemaMapValueEqual_iff opt)
  qed auto
next
  case (MethodSchema m ps r a)
  show ?case
  proof (cases t)
    case T: (MethodSchema m' qs r' b)
    note list = list_loop_iff [of ps qs] and opt = option_canon [of a b] option_canon [of r r']
    show ?thesis
      using MethodSchema by (auto simp: T equal_simps list opt)
  qed auto
qed (auto simp: equal_simps split: schema.splits)

section \<open>Equal schemas accept the same data\<close>

lemma zip_canon:
  "(\<And>c d. c \<in> set cs \<Longrightarrow> conforms (canon c) d = conforms c d) \<Longrightarrow>
   (\<forall>(s, x) \<in> set (zip (map canon cs) xs). conforms s x) \<longleftrightarrow> (\<forall>(s, x) \<in> set (zip cs xs). conforms s x)"
proof (induction cs arbitrary: xs)
  case (Cons c cs)
  then show ?case by (cases xs) auto
qed simp

lemma conforms_canon: "schema_ok s \<Longrightarrow> conforms (canon s) d = conforms s d"
proof (induction s arbitrary: d)
  case (TupleSchema m cs a)
  then show ?case by (cases a; cases d) (simp_all add: zip_canon)
next
  case (ObjectSchema m ps rs a)
  have ps: "conforms (canon c) x = conforms c x" if "(p, c) \<in> set ps" for p c x
    using ObjectSchema.IH(1) [of "(p, c)" c] ObjectSchema.prems that by (force simp: snds.simps)
  have rs: "map_has (sort_key fst rs) p = map_has rs p" for p
    using ObjectSchema.prems by (simp add: map_has_def)
  have names: "fst ` (\<lambda>(p, s). (p, canon s)) ` set ps = fst ` set ps"
    by force
  show ?case
  proof (cases d)
    case (VMap obj)
    have "(\<forall>(p, s) \<in> (\<lambda>(p, s). (p, canon s)) ` set ps.
          case map_of obj p of Some x \<Rightarrow> conforms s x | None \<Rightarrow> \<not> map_has (sort_key fst rs) p) \<longleftrightarrow>
        (\<forall>(p, s) \<in> set ps. case map_of obj p of Some x \<Rightarrow> conforms s x | None \<Rightarrow> \<not> map_has rs p)"
      using ps rs by (auto split: option.splits)
    then show ?thesis
      using ObjectSchema.IH(2) ObjectSchema.prems by (cases a) (simp_all add: VMap names)
  qed auto
next
  case (MethodSchema m ps r a)
  then show ?case by (cases d; cases a; cases r) (simp_all add: zip_canon split: option.split)
qed (auto split: gval.split)

text \<open>C14: on schemas as the builder makes them (distinct map keys, no NaN limits), the
  comparison of schemas is decided exactly by the canonical form, which keeps every field and
  lists map entries in key order. So it is reflexive, symmetric and transitive, although the
  code loops over only one of the two maps.\<close>

theorem equal_canonical:
  "schema_ok s \<Longrightarrow> schema_ok t \<Longrightarrow> Equal s t \<longleftrightarrow> canon s = canon t"
  by (rule Equal_canon_iff)

theorem equal_canonical_witness:
  "Equal (ObjectSchema no_mixin [(''b'', NullSchema no_mixin), (''a'', AnySchema no_mixin)] [] None)
     (ObjectSchema no_mixin [(''a'', AnySchema no_mixin), (''b'', NullSchema no_mixin)] [] None) \<longleftrightarrow>
   canon (ObjectSchema no_mixin [(''b'', NullSchema no_mixin), (''a'', AnySchema no_mixin)] [] None) =
   canon (ObjectSchema no_mixin [(''a'', AnySchema no_mixin), (''b'', NullSchema no_mixin)] [] None)"
  by (rule equal_canonical) simp_all

text \<open>C16: two schemas the code considers equal accept exactly the same data.\<close>

theorem equal_same_data:
  assumes "schema_ok s" "schema_ok t" "Equal s t"
  shows "(\<exists>v'. Validate s d v = Returns (None, v')) \<longleftrightarrow> (\<exists>v'. Validate t d v = Returns (None, v'))"
proof -
  have "canon s = canon t"
    using Equal_canon_iff assms by simp
  then show ?thesis
    using conforms_canon [OF assms(1)] conforms_canon [OF assms(2)] unfolding schema_check.check_iff by metis
qed

theorem equal_same_data_witness:
  "(\<exists>v'. Validate (ObjectSchema no_mixin [(''b'', NullSchema no_mixin), (''a'', AnySchema no_mixin)] [] None)
      (VMap [(''b'', VNil)]) NewSchemaValidator = Returns (None, v')) \<longleftrightarrow>
   (\<exists>v'. Validate (ObjectSchema no_mixin [(''a'', AnySchema no_mixin), (''b'', NullSchema no_mixin)] [] None)
      (VMap [(''b'', VNil)]) NewSchemaValidator = Returns (None, v'))"
  by (rule equal_same_data) (simp_all add: mixin_eq_def SchemaMapValueEqual_def)

end
