(* ===== verification/Schema_Build.thy ===== *)
theory Schema_Build
  imports Schema_Types Schema_Convert
begin

text \<open>
  The schema builder of \<^verbatim>\<open>schema/builder.go\<close>. Each \<open>build*Schema\<close> method is a definition
  that takes the recursive call \<open>rec\<close> (the method \<open>buildNodeMap\<close>) as its first argument;
  \<open>buildNodeMap\<close> ties the knot, and terminates because every node handed to \<open>rec\<close> weighs
  less than the node it was found in. The order in which the code ranges over the
  properties of an object is the order of the association list.
\<close>

datatype build_err =
    SchemaBuildError string "string list"
  | NonStringMap "string list"

type_synonym node = "(string \<times> gval) list"
type_synonym builder = "node \<Rightarrow> string list \<Rightarrow> build_err + schema"

section \<open>Loops\<close>

fun build_each :: "(nat \<Rightarrow> 'a \<Rightarrow> 'e + 'b) \<Rightarrow> nat \<Rightarrow> 'a list \<Rightarrow> 'e + 'b list" where
  "build_each f i [] = Inr []"
| "build_each f i (x # xs) = sbind (f i x) (\<lambda>y. sbind (build_each f (Suc i) xs) (\<lambda>ys. Inr (y # ys)))"

fun build_props :: "(string \<Rightarrow> 'a \<Rightarrow> 'e + 'b) \<Rightarrow> (string \<times> 'a) list \<Rightarrow> 'e + (string \<times> 'b) list" where
  "build_props f [] = Inr []"
| "build_props f ((k, x) # xs) =
     sbind (f k x) (\<lambda>y. sbind (build_props f xs) (\<lambda>ys. Inr ((k, y) # ys)))"

lemma build_each_cong:
  "(\<And>i x. x \<in> set xs \<Longrightarrow> f i x = g i x) \<Longrightarrow> build_each f n xs = build_each g n xs"
  by (induction xs arbitrary: n) (auto intro!: sbind_cong)

lemma build_props_cong:
  "(\<And>k x. (k, x) \<in> set xs \<Longrightarrow> f k x = g k x) \<Longrightarrow> build_props f xs = build_props g xs"
  by (induction xs) (auto intro!: sbind_cong)

section \<open>The node types\<close>

definition buildNode :: "builder \<Rightarrow> gval \<Rightarrow> string list \<Rightarrow> build_err + schema" where
  "buildNode rec data paths = (case convertTypeMap data of
      Some typeMap \<Rightarrow> rec typeMap paths
    | None \<Rightarrow> Inl (SchemaBuildError ''data is not an object'' paths))"

text \<open>An optional attribute that holds a schema.\<close>

definition build_additional ::
  "builder \<Rightarrow> node \<Rightarrow> string \<Rightarrow> string list \<Rightarrow> build_err + schema option" where
  "build_additional rec node attr paths = (case map_of node attr of
      None \<Rightarrow> Inr None
    | Some v \<Rightarrow> sbind (buildNode rec v (paths @ [''.'' @ attr])) (\<lambda>s. Inr (Some s)))"

text \<open>An integer attribute that is kept when it is not negative.\<close>

definition bound_attr :: "node \<Rightarrow> string \<Rightarrow> int option" where
  "bound_attr node attr = (case convertAttrInt node attr False of
      Some n \<Rightarrow> if 0 \<le> n then Some n else None
    | None \<Rightarrow> None)"

definition buildListSchema :: "builder \<Rightarrow> node \<Rightarrow> string list \<Rightarrow> build_err + schema" where
  "buildListSchema rec node paths = (case map_of node ''items'' of
      None \<Rightarrow> Inl (SchemaBuildError ''no items'' paths)
    | Some (VList itemsTuple) \<Rightarrow>
        sbind (build_each (\<lambda>i item. buildNode rec item (paths @ [index_path i])) 0 itemsTuple) (\<lambda>cs.
        sbind (build_additional rec node ''additionalItems'' paths) (\<lambda>add.
          Inr (TupleSchema no_mixin cs add)))
    | Some items \<Rightarrow>
        sbind (buildNode rec items paths) (\<lambda>item.
          Inr (ListSchema no_mixin item (bound_attr node ''minItems'') (bound_attr node ''maxItems''))))"

definition buildAnyOfSchema :: "builder \<Rightarrow> node \<Rightarrow> string list \<Rightarrow> build_err + schema" where
  "buildAnyOfSchema rec node paths = (case convertAttrListOfMap node ''anyOf'' False of
      Some choices \<Rightarrow>
        sbind (build_each (\<lambda>i c. rec c (paths @ [''.anyOf'', index_path i])) 0 choices) (\<lambda>cs.
          Inr (AnyOfSchema no_mixin cs))
    | None \<Rightarrow> Inl (SchemaBuildError ''no valid anyOf attribute'' paths))"

definition buildAllOfSchema :: "builder \<Rightarrow> node \<Rightarrow> string list \<Rightarrow> build_err + schema" where
  "buildAllOfSchema rec node paths = (case convertAttrListOfMap node ''allOf'' False of
      Some choices \<Rightarrow>
        sbind (build_each (\<lambda>i c. rec c (paths @ [''.allOf'', index_path i])) 0 choices) (\<lambda>cs.
          Inr (AllOfSchema no_mixin cs))
    | None \<Rightarrow> Inl (SchemaBuildError ''no valid allOf attribute'' paths))"

definition buildNotSchema :: "builder \<Rightarrow> node \<Rightarrow> string list \<Rightarrow> build_err + schema" where
  "buildNotSchema rec node paths = (case convertAttrMap node ''not'' False of
      Some childMap \<Rightarrow>
        sbind (rec childMap (paths @ [''.not''])) (\<lambda>c. Inr (NotSchema no_mixin c))
    | None \<Rightarrow> Inl (SchemaBuildError ''no valid not attribute'' paths))"

definition or_any :: "node \<Rightarrow> node" where
  "or_any m = (if map_has m ''type'' then m else map_put ''type'' (VString ''any'') m)"

definition buildMethodSchema :: "builder \<Rightarrow> node \<Rightarrow> string list \<Rightarrow> build_err + schema" where
  "buildMethodSchema rec node paths = (case convertAttrListOfMap node ''params'' False of
      None \<Rightarrow> Inl (SchemaBuildError ''params is not a list of objects'' paths)
    | Some paramsNodes \<Rightarrow>
        sbind (build_each (\<lambda>i c. rec c (paths @ [''.params'', index_path i])) 0 paramsNodes) (\<lambda>ps.
        sbind (build_additional rec node ''additionalParams'' paths) (\<lambda>add.
        case convertAttrMap node ''returns'' True of
          Some resultNode \<Rightarrow>
            sbind (rec (or_any resultNode) (paths @ [''.returns''])) (\<lambda>r.
              Inr (MethodSchema no_mixin ps (Some r) add))
        | None \<Rightarrow> Inr (MethodSchema no_mixin ps None add))))"

definition buildNumberSchema :: "node \<Rightarrow> schema" where
  "buildNumberSchema node = NumberSchema no_mixin
     \<lparr>Minimum = convertAttrFloat node ''minimum'' False,
      Maximum = convertAttrFloat node ''maximum'' False,
      ExclusiveMinimum = convertAttrBool node ''exclusiveMinimum'' False,
      ExclusiveMaximum = convertAttrBool node ''exclusiveMaximum'' False\<rparr>"

definition buildIntegerSchema :: "node \<Rightarrow> schema" where
  "buildIntegerSchema node = IntegerSchema no_mixin
     \<lparr>Minimum = convertAttrInt node ''minimum'' False,
      Maximum = convertAttrInt node ''maximum'' False,
      ExclusiveMinimum = convertAttrBool node ''exclusiveMinimum'' False,
      ExclusiveMaximum = convertAttrBool node ''exclusiveMaximum'' False\<rparr>"

definition buildStringSchema :: "node \<Rightarrow> schema" where
  "buildStringSchema node =
     StringSchema no_mixin (bound_attr node ''maxLength'') (bound_attr node ''minLength'')"

text \<open>The loop over \<open>requires\<close>: every name must be a declared property.\<close>

fun build_requires ::
  "string list \<Rightarrow> string list \<Rightarrow> string list \<Rightarrow> (string \<times> bool) list \<Rightarrow> build_err + (string \<times> bool) list" where
  "build_requires props paths [] acc = Inr acc"
| "build_requires props paths (r # rs) acc =
     (if r \<in> set props then build_requires props paths rs (map_put r True acc)
      else Inl (SchemaBuildError ''cannot find required prop'' (paths @ [''.requires'', ''.'' @ r])))"

definition buildObjectSchema :: "builder \<Rightarrow> node \<Rightarrow> string list \<Rightarrow> build_err + schema" where
  "buildObjectSchema rec node paths = (case convertAttrMapOfMap node ''properties'' True of
      None \<Rightarrow> Inl (SchemaBuildError ''properties is not a map of objects'' paths)
    | Some propNodes \<Rightarrow>
        sbind (build_props (\<lambda>p c. rec c (paths @ [''.properties'', ''.'' @ p])) propNodes) (\<lambda>ps.
        case convertAttrListOfString node ''requires'' True of
          None \<Rightarrow> Inl (SchemaBuildError ''requires is not a list of strings'' (paths @ [''.requires'']))
        | Some requireList \<Rightarrow>
            sbind (build_requires (map fst ps) paths requireList []) (\<lambda>rs.
            sbind (build_additional rec node ''additionalProperties'' paths) (\<lambda>add.
              Inr (ObjectSchema no_mixin ps rs add)))))"

definition buildMixin :: "node \<Rightarrow> string list \<Rightarrow> schema \<Rightarrow> build_err + schema" where
  "buildMixin node paths schema =
     sbind (case map_of node ''name'' of
              None \<Rightarrow> Inr schema
            | Some v \<Rightarrow> (case v of VString s \<Rightarrow> Inr (SetName s schema)
                        | _ \<Rightarrow> Inl (SchemaBuildError ''name must be string'' (paths @ [''.name'']))))
       (\<lambda>s1. case map_of node ''description'' of
              None \<Rightarrow> Inr s1
            | Some v \<Rightarrow> (case v of VString s \<Rightarrow> Inr (SetDescription s s1)
                        | _ \<Rightarrow> Inl (SchemaBuildError ''decsription must be string'' (paths @ [''.description'']))))"

section \<open>Recursive calls are on lighter nodes\<close>

lemma buildNode_cong:
  "convertTypeMap v \<noteq> None \<longrightarrow> weight v < n \<Longrightarrow> (\<And>m p. map_weight m < n \<Longrightarrow> rec m p = rec' m p) \<Longrightarrow>
   buildNode rec v p = buildNode rec' v p"
  by (auto simp: buildNode_def split: option.split dest: convertTypeMap_weight)

lemma build_additional_cong:
  "k \<noteq> ''type'' \<Longrightarrow> (\<And>m p. map_weight m < map_weight node \<Longrightarrow> rec m p = rec' m p) \<Longrightarrow>
   build_additional rec node k p = build_additional rec' node k p"
  by (auto simp: build_additional_def split: option.split
      intro!: sbind_cong buildNode_cong dest: map_of_weight)

lemma items_weight: "map_of node k = Some (VList vs) \<Longrightarrow> k \<noteq> ''type'' \<Longrightarrow> v \<in> set vs \<Longrightarrow>
    weight v < map_weight node"
  using map_of_weight [of node k "VList vs"] list_weight_mem [of v vs] by simp

lemma buildListSchema_cong [fundef_cong]:
  assumes "node = node'" "paths = paths'"
    and rec: "\<And>m p. map_weight m < map_weight node' \<Longrightarrow> rec m p = rec' m p"
  shows "buildListSchema rec node paths = buildListSchema rec' node' paths'"
proof -
  have 1: "buildNode rec v p = buildNode rec' v p" if "weight v < map_weight node'" for v p
    using that rec by (auto intro: buildNode_cong)
  have 2: "build_additional rec node' ''additionalItems'' p = build_additional rec' node' ''additionalItems'' p" for p
    by (rule build_additional_cong) (simp_all add: rec)
  show ?thesis
    unfolding buildListSchema_def assms(1,2) 2
    by (auto split: option.split gval.split intro!: sbind_cong build_each_cong 1
        dest: items_weight map_of_weight)
qed

lemma buildAnyOfSchema_cong [fundef_cong]:
  "node = node' \<Longrightarrow> paths = paths' \<Longrightarrow>
   (\<And>m p. map_weight m < map_weight node' \<Longrightarrow> rec m p = rec' m p) \<Longrightarrow>
   buildAnyOfSchema rec node paths = buildAnyOfSchema rec' node' paths'"
  by (auto simp: buildAnyOfSchema_def split: option.split
      intro!: sbind_cong build_each_cong convertAttrListOfMap_weight)

lemma buildAllOfSchema_cong [fundef_cong]:
  "node = node' \<Longrightarrow> paths = paths' \<Longrightarrow>
   (\<And>m p. map_weight m < map_weight node' \<Longrightarrow> rec m p = rec' m p) \<Longrightarrow>
   buildAllOfSchema rec node paths = buildAllOfSchema rec' node' paths'"
  by (auto simp: buildAllOfSchema_def split: option.split
      intro!: sbind_cong build_each_cong convertAttrListOfMap_weight)

lemma buildNotSchema_cong [fundef_cong]:
  "node = node' \<Longrightarrow> paths = paths' \<Longrightarrow>
   (\<And>m p. map_weight m < map_weight node' \<Longrightarrow> rec m p = rec' m p) \<Longrightarrow>
   buildNotSchema rec node paths = buildNotSchema rec' node' paths'"
  by (auto simp: buildNotSchema_def split: option.split
      intro!: sbind_cong dest: convertAttrMap_weight)

lemma map_weight_or_any [simp]: "map_weight (or_any m) = map_weight m"
  by (simp add: or_any_def map_weight_put_type)

lemma returns_weight:
  assumes "convertAttrMap node ''returns'' True = Some m" "convertAttrListOfMap node ''params'' False = Some ps"
  shows "map_weight m < map_weight node"
proof (cases "map_of node ''returns''")
  case None
  from assms(2) obtain v where "map_of node ''params'' = Some v"
    by (auto simp: convertAttrListOfMap_def split: option.splits)
  then have "0 < map_weight node"
    using map_of_weight [of node "''params''" v] by simp
  with None assms(1) show ?thesis by (simp add: convertAttrMap_def)
next
  case (Some v)
  with assms(1) have "convertAttrMap node ''returns'' False = Some m"
    by (simp add: convertAttrMap_def)
  then show ?thesis by (rule convertAttrMap_weight) simp
qed

lemma buildMethodSchema_cong [fundef_cong]:
  assumes "node = node'" "paths = paths'"
    and rec: "\<And>m p. map_weight m < map_weight node' \<Longrightarrow> rec m p = rec' m p"
  shows "buildMethodSchema rec node paths = buildMethodSchema rec' node' paths'"
proof -
  have 2: "build_additional rec node' ''additionalParams'' p = build_additional rec' node' ''additionalParams'' p" for p
    by (rule build_additional_cong) (simp_all add: rec)
  show ?thesis
    unfolding buildMethodSchema_def assms(1,2) 2
    by (auto split: option.split intro!: sbind_cong build_each_cong rec
        intro: convertAttrListOfMap_weight) (erule (1) returns_weight)
qed

lemma buildObjectSchema_cong [fundef_cong]:
  assumes "node = node'" "paths = paths'"
    and rec: "\<And>m p. map_weight m < map_weight node' \<Longrightarrow> rec m p = rec' m p"
  shows "buildObjectSchema rec node paths = buildObjectSchema rec' node' paths'"
proof -
  have 2: "build_additional rec node' ''additionalProperties'' p = build_additional rec' node' ''additionalProperties'' p" for p
    by (rule build_additional_cong) (simp_all add: rec)
  show ?thesis
    unfolding buildObjectSchema_def assms(1,2) 2
    by (auto split: option.split intro!: sbind_cong build_props_cong rec
        intro: convertAttrMapOfMap_weight)
qed

section \<open>buildNodeMap\<close>

function buildNodeMap :: "node \<Rightarrow> string list \<Rightarrow> build_err + schema" where
  "buildNodeMap node paths = (case map_of node ''type'' of
      None \<Rightarrow> Inl (SchemaBuildError ''no type presented'' paths)
    | Some nodeType \<Rightarrow>
        sbind
          (if nodeType = VString ''number'' then Inr (buildNumberSchema node)
           else if nodeType = VString ''integer'' then Inr (buildIntegerSchema node)
           else if nodeType = VString ''bool'' then Inr (BoolSchema no_mixin)
           else if nodeType = VString ''any'' then Inr (AnySchema no_mixin)
           else if nodeType = VString ''null'' then Inr (NullSchema no_mixin)
           else if nodeType = VString ''string'' then Inr (buildStringSchema node)
           else if nodeType = VString ''anyOf'' then buildAnyOfSchema (\<lambda>m p. buildNodeMap m p) node paths
           else if nodeType = VString ''allOf'' then buildAllOfSchema (\<lambda>m p. buildNodeMap m p) node paths
           else if nodeType = VString ''not'' then buildNotSchema (\<lambda>m p. buildNodeMap m p) node paths
           else if nodeType = VString ''list'' then buildListSchema (\<lambda>m p. buildNodeMap m p) node paths
           else if nodeType = VString ''object'' then buildObjectSchema (\<lambda>m p. buildNodeMap m p) node paths
           else if nodeType = VString ''method'' then buildMethodSchema (\<lambda>m p. buildNodeMap m p) node paths
           else Inl (SchemaBuildError ''unknown type'' paths))
          (\<lambda>schema. buildMixin node paths schema))"
  by pat_completeness auto
termination
  by (relation "measure (\<lambda>(node, paths). map_weight node)") auto

declare buildNodeMap.simps [simp del]

definition Build :: "gval \<Rightarrow> build_err + schema" where
  "Build data = buildNode buildNodeMap data []"

text \<open>\<open>BuildBytes\<close>, from the document on: the JSON is decoded with \<open>UseNumber\<close>.\<close>

definition BuildBytes :: "json \<Rightarrow> build_err + schema" where
  "BuildBytes j = Build (to_value j)"

section \<open>YAML\<close>

text \<open>
  \<open>FixYamlMaps\<close> turns the maps of a YAML document into maps with string keys. It descends
  into lists and \<open>map[interface{}]interface{}\<close>, and keeps every other value as it is. \<open>fv\<close>
  is the text \<open>%v\<close> prints for a key that is not a string, for the error report only.
\<close>

fun FixYamlMaps :: "(gval \<Rightarrow> string) \<Rightarrow> gval \<Rightarrow> string list \<Rightarrow> build_err + gval"
and fix_entries :: "(gval \<Rightarrow> string) \<Rightarrow> (gval \<times> gval) list \<Rightarrow> string list \<Rightarrow> (string \<times> gval) list \<Rightarrow>
    build_err + (string \<times> gval) list"
and fix_elems :: "(gval \<Rightarrow> string) \<Rightarrow> nat \<Rightarrow> gval list \<Rightarrow> string list \<Rightarrow> build_err + gval list" where
  "FixYamlMaps fv (VAnyMap m) p = sbind (fix_entries fv m p []) (\<lambda>m'. Inr (VMap m'))"
| "FixYamlMaps fv (VList l) p = sbind (fix_elems fv 0 l p) (\<lambda>l'. Inr (VList l'))"
| "FixYamlMaps fv src p = Inr src"
| "fix_entries fv [] p acc = Inr acc"
| "fix_entries fv ((k, v) # m) p acc = (case k of
     VString sk \<Rightarrow> sbind (FixYamlMaps fv v (p @ [''.'' @ sk])) (\<lambda>v'. fix_entries fv m p (map_put sk v' acc))
   | _ \<Rightarrow> Inl (NonStringMap (p @ [''.'' @ fv k])))"
| "fix_elems fv i [] p = Inr []"
| "fix_elems fv i (v # l) p =
     sbind (FixYamlMaps fv v (p @ [index_path i])) (\<lambda>v'.
       sbind (fix_elems fv (Suc i) l p) (\<lambda>l'. Inr (v' # l')))"

definition BuildYamlInterface :: "(gval \<Rightarrow> string) \<Rightarrow> gval \<Rightarrow> build_err + schema" where
  "BuildYamlInterface fv data = sbind (FixYamlMaps fv data []) Build"

text \<open>The YAML tree of a JSON value, as the YAML decoder delivers it: every map has dynamic keys.\<close>

fun yaml_of :: "gval \<Rightarrow> gval"
and yaml_list :: "gval list \<Rightarrow> gval list"
and yaml_entries :: "(string \<times> gval) list \<Rightarrow> (gval \<times> gval) list" where
  "yaml_of (VMap m) = VAnyMap (yaml_entries m)"
| "yaml_of (VList l) = VList (yaml_list l)"
| "yaml_of v = v"
| "yaml_list [] = []"
| "yaml_list (v # l) = yaml_of v # yaml_list l"
| "yaml_entries [] = []"
| "yaml_entries ((k, v) # m) = (VString k, yaml_of v) # yaml_entries m"

fun maps_ok :: "gval \<Rightarrow> bool"
and maps_ok_list :: "gval list \<Rightarrow> bool"
and maps_ok_entries :: "(string \<times> gval) list \<Rightarrow> bool" where
  "maps_ok (VMap m) = (go_map m \<and> maps_ok_entries m)"
| "maps_ok (VList l) = maps_ok_list l"
| "maps_ok (VAnyMap _) = False"
| "maps_ok _ = True"
| "maps_ok_list [] = True"
| "maps_ok_list (v # l) = (maps_ok v \<and> maps_ok_list l)"
| "maps_ok_entries [] = True"
| "maps_ok_entries ((k, v) # m) = (maps_ok v \<and> maps_ok_entries m)"

lemma fix_yaml_of:
  "maps_ok v \<Longrightarrow> FixYamlMaps fv (yaml_of v) p = Inr v"
  "maps_ok_list l \<Longrightarrow> fix_elems fv i (yaml_list l) p = Inr l"
  "maps_ok_entries m \<Longrightarrow> distinct (map fst acc @ map fst m) \<Longrightarrow>
     fix_entries fv (yaml_entries m) p acc = Inr (acc @ m)"
proof (induction v and l and m arbitrary: p and i p and p acc rule: maps_ok_maps_ok_list_maps_ok_entries.induct)
  case (1 m)
  then show ?case by (simp add: go_map_def)
qed (auto simp: map_put_new image_iff)



end
