(* ===== verification/Schema_Built.thy ===== *)
theory Schema_Built
  imports Schema_Equal Schema_Build
begin

text \<open>
  What a schema that \<open>Build\<close> returns satisfies, and which documents it refuses.
\<close>

section \<open>Documents\<close>

text \<open>Values as a JSON or YAML document gives them: maps have distinct keys, the text of a
  number follows the JSON grammar, and no number is a NaN.\<close>

fun clean :: "gval \<Rightarrow> bool"
and clean_list :: "gval list \<Rightarrow> bool"
and clean_fields :: "(string \<times> gval) list \<Rightarrow> bool" where
  "clean (VNumber n) = valid_number n"
| "clean (VFloat f) = (f \<noteq> FNaN)"
| "clean (VList vs) = clean_list vs"
| "clean (VMap m) = (go_map m \<and> clean_fields m)"
| "clean v = True"
| "clean_list [] = True"
| "clean_list (v # vs) = (clean v \<and> clean_list vs)"
| "clean_fields [] = True"
| "clean_fields ((k, v) # m) = (clean v \<and> clean_fields m)"

fun json_ok :: "json \<Rightarrow> bool"
and jsons_ok :: "json list \<Rightarrow> bool"
and members_ok :: "(string \<times> json) list \<Rightarrow> bool" where
  "json_ok (JNum n) = valid_number n"
| "json_ok (JArr js) = jsons_ok js"
| "json_ok (JObj kvs) = members_ok kvs"
| "json_ok _ = True"
| "jsons_ok [] = True"
| "jsons_ok (j # js) = (json_ok j \<and> jsons_ok js)"
| "members_ok [] = True"
| "members_ok ((k, j) # kvs) = (json_ok j \<and> members_ok kvs)"

lemma clean_list_iff: "clean_list vs \<longleftrightarrow> (\<forall>v \<in> set vs. clean v)"
  by (induction vs) auto

lemma clean_fields_iff: "clean_fields m \<longleftrightarrow> (\<forall>(k, v) \<in> set m. clean v)"
  by (induction m) auto

lemma clean_put [simp]: "clean_fields m \<Longrightarrow> clean v \<Longrightarrow> clean_fields (map_put k v m)"
  by (induction m) (auto simp: map_put_def)

lemma clean_to_value:
  "json_ok j \<Longrightarrow> clean (to_value j)"
  "jsons_ok js \<Longrightarrow> clean_list (to_values js)"
  "members_ok kvs \<Longrightarrow> clean_fields acc \<Longrightarrow> clean_fields (to_fields acc kvs)"
  by (induction j and js and acc kvs rule: to_value_to_values_to_fields.induct)
    (auto simp: go_map_to_fields)

definition node_ok :: "node \<Rightarrow> bool" where
  "node_ok m = (go_map m \<and> clean_fields m)"

lemma node_ok_put: "node_ok m \<Longrightarrow> node_ok (map_put k (VString s) m)"
  by (simp add: node_ok_def)

lemma node_ok_guess: "node_ok m \<Longrightarrow> node_ok (guess_type m)"
  by (simp add: guess_type_def node_ok_put)

lemma node_ok_Nil [simp]: "node_ok []"
  by (simp add: node_ok_def)

lemma node_ok_lookup: "node_ok m \<Longrightarrow> map_of m k = Some v \<Longrightarrow> clean v"
  by (auto simp: node_ok_def clean_fields_iff dest: map_of_SomeD)

lemma node_ok_convert: "clean v \<Longrightarrow> convertTypeMap v = Some m \<Longrightarrow> node_ok m"
  by (auto simp: convertTypeMap_def node_ok_guess node_ok_def split: gval.splits if_splits)
    (simp_all add: node_ok_guess [unfolded node_ok_def])

lemma node_ok_attr: "node_ok node \<Longrightarrow> convertAttrMap node k opt = Some m \<Longrightarrow> node_ok m"
  by (auto simp: convertAttrMap_def split: option.splits if_splits
      dest: node_ok_lookup node_ok_convert)

lemma node_ok_list:
  "node_ok node \<Longrightarrow> convertAttrListOfMap node k opt = Some ms \<Longrightarrow> m \<in> set ms \<Longrightarrow> node_ok m"
  by (fastforce simp: convertAttrListOfMap_def clean_list_iff split: option.splits gval.splits if_splits
      dest: node_ok_lookup node_ok_convert all_some_mem)

lemma all_some_keys:
  "all_some (\<lambda>(name, v). map_option (Pair name) (f v)) m = Some ms \<Longrightarrow> map fst ms = map fst m"
  by (induction m arbitrary: ms) (auto split: option.splits)

lemma node_ok_map:
  assumes "node_ok node" "convertAttrMapOfMap node k opt = Some ms"
  shows "go_map ms" "(p, m) \<in> set ms \<Longrightarrow> node_ok m"
proof -
  have "go_map ms \<and> (\<forall>(p, m) \<in> set ms. node_ok m)"
  proof (cases "convertAttrMap node k False")
    case None
    then show ?thesis using assms(2) by (simp add: convertAttrMapOfMap_def split: if_splits)
  next
    case (Some mm)
    then have mm: "node_ok mm" using assms(1) node_ok_attr by blast
    have "all_some (\<lambda>(name, v). map_option (Pair name) (convertTypeMap v)) mm = Some ms"
      using assms(2) Some by (simp add: convertAttrMapOfMap_def)
    moreover from all_some_keys [OF this] have "go_map ms"
      using mm by (simp add: go_map_def node_ok_def)
    ultimately show ?thesis
      using mm by (fastforce simp: node_ok_def [of mm] clean_fields_iff dest: all_some_mem node_ok_convert)
  qed
  then show "go_map ms" "(p, m) \<in> set ms \<Longrightarrow> node_ok m" by auto
qed

lemma ParseFloat_not_NaN:
  assumes "valid_number n"
  shows "fst (ParseFloat n) \<noteq> FNaN"
proof -
  obtain c r where n: "n = c # r" "c = CHR ''-'' \<or> is_digit c"
    using assms by (auto simp: valid_number_def Let_def split: list.splits if_splits)
  have "lower c \<noteq> CHR ''n''"
    using n(2) by (auto simp: lower_def Let_def is_digit_def)
  then have "special_float n \<noteq> Some FNaN"
    by (simp add: n special_float_def Let_def)
  then show ?thesis by (auto simp: ParseFloat_def split: option.split f64.split)
qed

lemma float_not_NaN: "node_ok node \<Longrightarrow> convertAttrFloat node k False \<noteq> Some FNaN"
  using ParseFloat_not_NaN
  by (auto simp: convertAttrFloat_def int_to_f64_def split: option.splits gval.splits prod.splits
      dest!: node_ok_lookup) (metis fst_conv)

section \<open>What is built\<close>

definition nonneg :: "int option \<Rightarrow> bool" where
  "nonneg b = (case b of None \<Rightarrow> True | Some n \<Rightarrow> 0 \<le> n)"

text \<open>Required names are declared properties, and the length limits are not negative, at every
  depth.\<close>

fun declared :: "schema \<Rightarrow> bool" where
  "declared (StringSchema _ mx mn) = (nonneg mx \<and> nonneg mn)"
| "declared (AnyOfSchema _ cs) = (\<forall>c \<in> set cs. declared c)"
| "declared (AllOfSchema _ cs) = (\<forall>c \<in> set cs. declared c)"
| "declared (NotSchema _ c) = declared c"
| "declared (ListSchema _ c mn mx) = (declared c \<and> nonneg mn \<and> nonneg mx)"
| "declared (TupleSchema _ cs a) = ((\<forall>c \<in> set cs. declared c) \<and> (\<forall>s \<in> set_option a. declared s))"
| "declared (ObjectSchema _ ps rs a) =
     (fst ` set rs \<subseteq> fst ` set ps \<and> (\<forall>(p, s) \<in> set ps. declared s) \<and> (\<forall>s \<in> set_option a. declared s))"
| "declared (MethodSchema _ ps r a) =
     ((\<forall>c \<in> set ps. declared c) \<and> (\<forall>s \<in> set_option r. declared s) \<and> (\<forall>s \<in> set_option a. declared s))"
| "declared _ = True"

definition built_ok :: "schema \<Rightarrow> bool" where
  "built_ok s = (schema_ok s \<and> declared s)"

text \<open>The recursive calls, on nodes of a document, give well-formed schemas.\<close>

definition rec_ok :: "nat \<Rightarrow> builder \<Rightarrow> bool" where
  "rec_ok n rec = (\<forall>m p t. map_weight m < n \<longrightarrow> node_ok m \<longrightarrow> rec m p = Inr t \<longrightarrow> built_ok t)"

lemma rec_okD: "rec_ok n rec \<Longrightarrow> rec m p = Inr t \<Longrightarrow> map_weight m < n \<Longrightarrow> node_ok m \<Longrightarrow> built_ok t"
  by (auto simp: rec_ok_def)

lemma build_each_mem:
  "build_each f i xs = Inr ys \<Longrightarrow> y \<in> set ys \<Longrightarrow> \<exists>j x. x \<in> set xs \<and> f j x = Inr y"
  by (induction xs arbitrary: i ys) (fastforce simp: sbind_Inr_iff)+

lemma build_props_mem:
  "build_props f xs = Inr ys \<Longrightarrow> (k, y) \<in> set ys \<Longrightarrow> \<exists>x. (k, x) \<in> set xs \<and> f k x = Inr y"
  by (induction xs arbitrary: ys) (fastforce simp: sbind_Inr_iff)+

lemma build_props_keys: "build_props f xs = Inr ys \<Longrightarrow> map fst ys = map fst xs"
  by (induction xs arbitrary: ys) (fastforce simp: sbind_Inr_iff)+

lemma keys_put: "fst ` set (map_put k v m) = insert k (fst ` set m)"
  using map_has_put [of k v m] unfolding map_has_iff by blast

lemma build_requires_ok:
  "build_requires props p rs acc = Inr out \<Longrightarrow> go_map acc \<Longrightarrow> fst ` set acc \<subseteq> set props \<Longrightarrow>
   go_map out \<and> fst ` set out \<subseteq> set props"
  by (induction rs arbitrary: acc) (auto simp: keys_put split: if_splits)

lemma build_node_ok:
  assumes "rec_ok n rec" "clean v" "buildNode rec v p = Inr s" "weight v < n"
  shows "built_ok s"
  using assms convertTypeMap_weight [of v] node_ok_convert [of v]
  by (fastforce simp: buildNode_def split: option.splits dest: rec_okD)

lemma build_additional_ok:
  assumes "rec_ok (map_weight node) rec" "node_ok node" "k \<noteq> ''type''"
    and "build_additional rec node k p = Inr a" "s \<in> set_option a"
  shows "built_ok s"
  using assms by (auto simp: build_additional_def sbind_Inr_iff split: option.splits
      dest: node_ok_lookup map_of_weight intro: build_node_ok)

lemma build_children_ok:
  assumes "rec_ok (map_weight node) rec" "node_ok node" "k \<noteq> ''type''"
    and "convertAttrListOfMap node k opt = Some ms"
    and "build_each (\<lambda>i c. rec c (g i)) 0 ms = Inr cs" "c \<in> set cs"
  shows "built_ok c"
  using build_each_mem [OF assms(5,6)] assms(1-4)
  by (blast intro: rec_okD convertAttrListOfMap_weight node_ok_list)

lemma nonneg_bound [simp]: "nonneg (bound_attr node k)"
  by (auto simp: nonneg_def bound_attr_def split: option.splits)

lemma list_built:
  assumes R: "rec_ok (map_weight node) rec" "node_ok node" and B: "buildListSchema rec node p = Inr s"
  shows "built_ok s \<and> Type s = ''list''"
proof -
  obtain v where v: "map_of node ''items'' = Some v"
    using B by (auto simp: buildListSchema_def split: option.splits)
  have one: "built_ok c" if "buildNode rec v q = Inr c" for c q
    using R v that by (auto intro: build_node_ok dest: node_ok_lookup map_of_weight)
  show ?thesis
  proof (cases "\<exists>vs. v = VList vs")
    case True
    then obtain vs where vs: "v = VList vs" by blast
    obtain cs a where s: "s = TupleSchema no_mixin cs a"
      and cs: "build_each (\<lambda>i item. buildNode rec item (p @ [index_path i])) 0 vs = Inr cs"
      and a: "build_additional rec node ''additionalItems'' p = Inr a"
      using B v vs by (auto simp: buildListSchema_def sbind_Inr_iff)
    have "built_ok c" if c: "c \<in> set cs" for c
    proof -
      obtain j x where x: "x \<in> set vs" "buildNode rec x (p @ [index_path j]) = Inr c"
        using build_each_mem [OF cs c] by blast
      have "clean x" using node_ok_lookup [OF R(2) v] x(1) by (simp add: vs clean_list_iff)
      moreover have "weight x < map_weight node" using items_weight v vs x(1) by blast
      ultimately show ?thesis using R(1) x(2) by (blast intro: build_node_ok)
    qed
    then show ?thesis
      using build_additional_ok [OF R _ a] by (auto simp: s built_ok_def)
  next
    case False
    then obtain c where "s = ListSchema no_mixin c (bound_attr node ''minItems'') (bound_attr node ''maxItems'')"
      "buildNode rec v p = Inr c"
      using B v by (cases v) (auto simp: buildListSchema_def sbind_Inr_iff)
    then show ?thesis using one by (auto simp: built_ok_def)
  qed
qed

lemma any_built:
  assumes R: "rec_ok (map_weight node) rec" "node_ok node" and B: "buildAnyOfSchema rec node p = Inr s"
  shows "built_ok s \<and> Type s = ''anyOf''"
proof -
  obtain ms cs where ms: "convertAttrListOfMap node ''anyOf'' False = Some ms"
    and cs: "build_each (\<lambda>i c. rec c (p @ [''.anyOf'', index_path i])) 0 ms = Inr cs"
    and s: "s = AnyOfSchema no_mixin cs"
    using B by (auto simp: buildAnyOfSchema_def sbind_Inr_iff split: option.splits)
  have "built_ok c" if "c \<in> set cs" for c
    using build_children_ok [OF R _ ms cs that] by simp
  then show ?thesis by (simp add: s built_ok_def)
qed

lemma all_built:
  assumes R: "rec_ok (map_weight node) rec" "node_ok node" and B: "buildAllOfSchema rec node p = Inr s"
  shows "built_ok s \<and> Type s = ''allOf''"
proof -
  obtain ms cs where ms: "convertAttrListOfMap node ''allOf'' False = Some ms"
    and cs: "build_each (\<lambda>i c. rec c (p @ [''.allOf'', index_path i])) 0 ms = Inr cs"
    and s: "s = AllOfSchema no_mixin cs"
    using B by (auto simp: buildAllOfSchema_def sbind_Inr_iff split: option.splits)
  have "built_ok c" if "c \<in> set cs" for c
    using build_children_ok [OF R _ ms cs that] by simp
  then show ?thesis by (simp add: s built_ok_def)
qed

lemma not_built:
  "rec_ok (map_weight node) rec \<Longrightarrow> node_ok node \<Longrightarrow> buildNotSchema rec node p = Inr s \<Longrightarrow>
   built_ok s \<and> Type s = ''not''"
  by (auto simp: buildNotSchema_def sbind_Inr_iff built_ok_def split: option.splits
      dest: node_ok_attr convertAttrMap_weight rec_okD)

lemma method_built:
  assumes R: "rec_ok (map_weight node) rec" "node_ok node" and B: "buildMethodSchema rec node p = Inr s"
  shows "built_ok s \<and> Type s = ''method''"
proof -
  obtain ms ps a where ms: "convertAttrListOfMap node ''params'' False = Some ms"
    and ps: "build_each (\<lambda>i c. rec c (p @ [''.params'', index_path i])) 0 ms = Inr ps"
    and a: "build_additional rec node ''additionalParams'' p = Inr a"
    using B by (auto simp: buildMethodSchema_def sbind_Inr_iff split: option.splits)
  have "built_ok c" if "c \<in> set ps" for c
    using build_children_ok [OF R _ ms ps that] by simp
  moreover have "built_ok c" if "a = Some c" for c
    using build_additional_ok [OF R _ a] that by simp
  moreover have "built_ok r" if "rec (or_any m) q = Inr r" "convertAttrMap node ''returns'' True = Some m" for r m q
  proof -
    have "node_ok (or_any m)"
      using node_ok_attr [OF R(2) that(2)] by (simp add: or_any_def node_ok_put)
    moreover have "map_weight (or_any m) < map_weight node"
      using returns_weight [OF that(2) ms] by simp
    ultimately show ?thesis using R(1) that(1) by (blast intro: rec_okD)
  qed
  ultimately show ?thesis
    using B by (auto simp: buildMethodSchema_def ms ps a sbind_Inr_iff built_ok_def split: option.splits)
qed

lemma object_built:
  assumes R: "rec_ok (map_weight node) rec" "node_ok node" and B: "buildObjectSchema rec node p = Inr s"
  shows "built_ok s \<and> Type s = ''object''"
proof -
  obtain ms ps rl rs a where ms: "convertAttrMapOfMap node ''properties'' True = Some ms"
    and ps: "build_props (\<lambda>p' c. rec c (p @ [''.properties'', ''.'' @ p'])) ms = Inr ps"
    and rs: "build_requires (map fst ps) p rl [] = Inr rs"
    and a: "build_additional rec node ''additionalProperties'' p = Inr a"
    and s: "s = ObjectSchema no_mixin ps rs a"
    using B by (auto simp: buildObjectSchema_def sbind_Inr_iff split: option.splits)
  have "go_map ps"
    using node_ok_map(1) [OF R(2) ms] build_props_keys [OF ps] by (simp add: go_map_def)
  moreover have "go_map rs" "fst ` set rs \<subseteq> fst ` set ps"
    using build_requires_ok [OF rs] by auto
  moreover have "built_ok c" if "(k, c) \<in> set ps" for k c
    using build_props_mem [OF ps that] R(1) node_ok_map(2) [OF R(2) ms] convertAttrMapOfMap_weight [OF ms]
    by (fastforce dest: rec_okD)
  moreover have "built_ok c" if "a = Some c" for c
    using build_additional_ok [OF R _ a] that by simp
  ultimately show ?thesis by (auto simp: s built_ok_def)
qed

lemma map_mixin_comp [simp]: "map_mixin f (map_mixin g t) = map_mixin (\<lambda>m. f (g m)) t"
  by (cases t) auto

lemma map_mixin_ident: "map_mixin (\<lambda>m. m) t = t"
  by (cases t) auto

lemma buildMixin_map:
  assumes "buildMixin node p t = Inr s"
  shows "\<exists>f. s = map_mixin f t"
proof -
  obtain t1 where t1: "(case map_of node ''name'' of
              None \<Rightarrow> Inr t
            | Some v \<Rightarrow> (case v of VString s \<Rightarrow> Inr (SetName s t)
                        | _ \<Rightarrow> Inl (SchemaBuildError ''name must be string'' (p @ [''.name''])))) = Inr t1"
    and s: "(case map_of node ''description'' of
              None \<Rightarrow> Inr t1
            | Some v \<Rightarrow> (case v of VString s \<Rightarrow> Inr (SetDescription s t1)
                        | _ \<Rightarrow> Inl (SchemaBuildError ''decsription must be string'' (p @ [''.description''])))) = Inr s"
    using assms unfolding buildMixin_def sbind_Inr_iff by blast
  from t1 have "t1 = t \<or> (\<exists>n. t1 = SetName n t)"
    by (auto split: option.splits gval.splits)
  moreover from s have "s = t1 \<or> (\<exists>n. s = SetDescription n t1)"
    by (auto split: option.splits gval.splits)
  ultimately show ?thesis
    using map_mixin_ident [of t, symmetric] by (auto simp: SetName_def SetDescription_def)
qed

lemma mixin_built: "buildMixin node p t = Inr s \<Longrightarrow> built_ok t \<Longrightarrow> built_ok s \<and> Type s = Type t"
proof -
  have "built_ok (map_mixin f t) \<longleftrightarrow> built_ok t" "Type (map_mixin f t) = Type t" for f
    by (cases t; simp add: built_ok_def)+
  then show "buildMixin node p t = Inr s \<Longrightarrow> built_ok t \<Longrightarrow> built_ok s \<and> Type s = Type t"
    by (auto dest: buildMixin_map)
qed

lemma node_built:
  assumes "node_ok node" "buildNodeMap node p = Inr s"
  shows "built_ok s \<and> map_of node ''type'' = Some (VString (Type s))"
  using assms
proof (induction "map_weight node" arbitrary: node p s rule: less_induct)
  case less
  have R: "rec_ok (map_weight node) buildNodeMap"
    unfolding rec_ok_def using less.hyps by blast
  have leaf: "built_ok (buildNumberSchema node)" "built_ok (buildIntegerSchema node)" "built_ok (buildStringSchema node)"
    using float_not_NaN [OF less.prems(1)]
    by (auto simp: buildNumberSchema_def buildIntegerSchema_def buildStringSchema_def built_ok_def limits_ok_def)
  obtain v t where v: "map_of node ''type'' = Some v"
    and t: "(if v = VString ''number'' then Inr (buildNumberSchema node)
           else if v = VString ''integer'' then Inr (buildIntegerSchema node)
           else if v = VString ''bool'' then Inr (BoolSchema no_mixin)
           else if v = VString ''any'' then Inr (AnySchema no_mixin)
           else if v = VString ''null'' then Inr (NullSchema no_mixin)
           else if v = VString ''string'' then Inr (buildStringSchema node)
           else if v = VString ''anyOf'' then buildAnyOfSchema buildNodeMap node p
           else if v = VString ''allOf'' then buildAllOfSchema buildNodeMap node p
           else if v = VString ''not'' then buildNotSchema buildNodeMap node p
           else if v = VString ''list'' then buildListSchema buildNodeMap node p
           else if v = VString ''object'' then buildObjectSchema buildNodeMap node p
           else if v = VString ''method'' then buildMethodSchema buildNodeMap node p
           else Inl (SchemaBuildError ''unknown type'' p)) = Inr t"
    and m: "buildMixin node p t = Inr s"
    using less.prems(2) by (subst (asm) buildNodeMap.simps) (auto simp: sbind_Inr_iff split: option.splits)
  have "built_ok t \<and> v = VString (Type t)"
    using t leaf list_built [OF R less.prems(1)] any_built [OF R less.prems(1)] all_built [OF R less.prems(1)]
      not_built [OF R less.prems(1)] method_built [OF R less.prems(1)] object_built [OF R less.prems(1)]
    by (auto simp: built_ok_def split: if_splits) (simp_all add: buildNumberSchema_def buildIntegerSchema_def buildStringSchema_def)
  then show ?case using mixin_built [OF m] v by auto
qed

text \<open>C9: a schema built from a document is well formed at every depth: the names of an
  object's properties are distinct, every required name is a declared property, length
  limits are not negative and no number limit is a NaN; and its type is the one the
  document's node names or lets the builder guess.\<close>

theorem build_sound:
  assumes "json_ok j" "BuildBytes j = Inr s"
  shows "built_ok s \<and>
    (\<exists>m. convertTypeMap (to_value j) = Some m \<and> map_of m ''type'' = Some (VString (Type s)))"
proof -
  obtain m where m: "convertTypeMap (to_value j) = Some m" "buildNodeMap m [] = Inr s"
    using assms(2) by (auto simp: BuildBytes_def Build_def buildNode_def split: option.splits)
  moreover have "node_ok m"
    using node_ok_convert [OF clean_to_value(1) [OF assms(1)] m(1)] .
  ultimately show ?thesis using node_built by blast
qed

lemma parse_three: "ParseInt ''3'' = Some 3"
  by code_simp

theorem build_sound_witness:
  "built_ok (StringSchema no_mixin (Some 3) None) \<and>
   (\<exists>m. convertTypeMap (to_value (JObj [(''type'', JStr ''string''), (''maxLength'', JNum ''3'')])) = Some m \<and>
      map_of m ''type'' = Some (VString (Type (StringSchema no_mixin (Some 3) None))))"
proof (rule build_sound)
  show "json_ok (JObj [(''type'', JStr ''string''), (''maxLength'', JNum ''3'')])"
    by code_simp
  show "BuildBytes (JObj [(''type'', JStr ''string''), (''maxLength'', JNum ''3'')]) =
      Inr (StringSchema no_mixin (Some 3) None)"
    by (simp add: BuildBytes_def Build_def buildNode_def convertTypeMap_def guess_type_def map_has_def
        buildNodeMap.simps map_put_def buildMixin_def
        bound_attr_def convertAttrInt_def buildStringSchema_def parse_three)
qed

section \<open>Nodes that are refused or misread\<close>

lemma build_object_node:
  "map_of m ''type'' = Some (VString ''object'') \<Longrightarrow>
   Build (VMap m) = sbind (buildObjectSchema buildNodeMap m []) (buildMixin m [])"
  by (simp add: Build_def buildNode_def convertTypeMap_def guess_type_def map_has_def
      buildNodeMap.simps [of m])

lemma all_some_None: "x \<in> set xs \<Longrightarrow> f x = None \<Longrightarrow> all_some f xs = None"
  by (induction xs) (auto split: option.split)

lemma guess_type_adds:
  assumes "\<not> map_has ps ''type''"
    and "map_has ps ''params'' \<or> map_has ps ''properties'' \<or> map_has ps ''anyOf'' \<or> map_has ps ''allOf'' \<or> map_has ps ''not''"
  shows "\<exists>t \<in> {''method'', ''object'', ''anyOf'', ''allOf'', ''not''}. guess_type ps = map_put ''type'' (VString t) ps"
  using assms
  by (cases "map_has ps ''params''"; cases "map_has ps ''properties''"; cases "map_has ps ''anyOf''";
      cases "map_has ps ''allOf''"; simp add: guess_type_def)

text \<open>An object schema with a property called \<open>params\<close>, \<open>properties\<close>, \<open>anyOf\<close>,
  \<open>allOf\<close> or \<open>not\<close>, and none called \<open>type\<close>, cannot be built, however well formed the
  property's own schema is: the builder takes the table of properties for a schema whose
  type it has to guess, and adds a property \<open>type\<close> that is no schema.\<close>

lemma property_name_refused:
  assumes "map_of m ''type'' = Some (VString ''object'')" "map_of m ''properties'' = Some (VMap ps)"
    and "map_has ps name" "name \<in> {''params'', ''properties'', ''anyOf'', ''allOf'', ''not''}" "\<not> map_has ps ''type''"
  shows "Build (VMap m) = Inl (SchemaBuildError ''properties is not a map of objects'' [])"
proof -
  have "map_has ps ''params'' \<or> map_has ps ''properties'' \<or> map_has ps ''anyOf'' \<or> map_has ps ''allOf'' \<or> map_has ps ''not''"
    using assms(3,4) by blast
  then obtain t where t: "t \<in> {''method'', ''object'', ''anyOf'', ''allOf'', ''not''}"
    "guess_type ps = map_put ''type'' (VString t) ps"
    using guess_type_adds [OF assms(5)] by blast
  have "(''type'', VString t) \<in> set (guess_type ps)"
    using map_of_put [of "''type''" "VString t" ps] t(2) by (metis fun_upd_same map_of_SomeD)
  moreover have "convertTypeMap (VString t) = None"
    using t(1) by (auto simp: convertTypeMap_def stringInList_def simple_types_def)
  ultimately have "all_some (\<lambda>(name, v). map_option (Pair name) (convertTypeMap v)) (guess_type ps) = None"
    by (intro all_some_None) auto
  then show ?thesis
    by (simp add: build_object_node assms(1,2) buildObjectSchema_def convertAttrMapOfMap_def
        convertAttrMap_def convertTypeMap_def)
qed

text \<open>A \<open>properties\<close> attribute that is not a table of properties (a list, a
  number, an unknown type name) is not reported: the node builds exactly what it would build
  without the attribute.\<close>

lemma ill_typed_properties:
  assumes "map_of m ''type'' = Some (VString ''object'')" "map_of m ''properties'' = Some v"
    and "convertTypeMap v = None"
  shows "Build (VMap m) = Build (VMap (map_del ''properties'' m))"
proof -
  let ?m = "map_del ''properties'' m"
  have a: "build_additional buildNodeMap ?m ''additionalProperties'' [] = build_additional buildNodeMap m ''additionalProperties'' []"
    by (simp add: build_additional_def)
  have r: "convertAttrListOfString ?m ''requires'' True = convertAttrListOfString m ''requires'' True"
    by (simp add: convertAttrListOfString_def)
  have p: "convertAttrMapOfMap m ''properties'' True = Some []" "convertAttrMapOfMap ?m ''properties'' True = Some []"
    using assms by (simp_all add: convertAttrMapOfMap_def convertAttrMap_def)
  have "buildObjectSchema buildNodeMap ?m [] = buildObjectSchema buildNodeMap m []"
    unfolding buildObjectSchema_def a r p ..
  moreover have "buildMixin ?m [] = buildMixin m []"
    by (simp add: buildMixin_def fun_eq_iff)
  ultimately show ?thesis
    using assms(1) by (simp add: build_object_node)
qed

end
