(* ===== verification/Messages.thy ===== *)
theory Messages
  imports Go_Values
begin

text \<open>
  The message types of \<^verbatim>\<open>types.go\<close>, the predefined errors of \<^verbatim>\<open>errors.go\<close> and the
  operations of \<^verbatim>\<open>messageimpl.go\<close>. The Go interface \<open>Message\<close> is the datatype
  \<open>Message\<close> with one constructor per implementing struct; a method of the interface is a
  function that cases on the constructor. A method that panics returns an \<open>outcome\<close> whose
  panic value is the \<open>*RPCError\<close> the code panics with. \<open>MessageBytes\<close> is modelled up
  to the JSON tree it writes; \<open>EncodePretty\<close> is in the theory \<open>Cli\<close>, the fields of the loggers, \<open>MessageString\<close>
  and \<open>CacheKey\<close> are in \<open>Params\<close>. \<open>RPCError.Error\<close> is not modelled.
\<close>

named_theorems message_defs \<open>unfolding of the message operations\<close>

section \<open>RPC errors\<close>

record RPCError =
  Code :: int
  ErrText :: string
  Data :: gval

definition rpc_error :: "int \<Rightarrow> string \<Rightarrow> RPCError" where
  "rpc_error c m = \<lparr>Code = c, ErrText = m, Data = VNil\<rparr>"

definition ErrServerError :: RPCError where "ErrServerError = rpc_error 100 ''server error''"
definition ErrNilId :: RPCError where "ErrNilId = rpc_error 102 ''nil message id''"
definition ErrMethodNotFound :: RPCError where
  "ErrMethodNotFound = rpc_error (-32601) ''method not found''"
definition ErrEmptyMethod :: RPCError where "ErrEmptyMethod = rpc_error (-32601) ''empty method''"
definition ErrInternalError :: RPCError where
  "ErrInternalError = rpc_error (-32603) ''internal error''"
definition ErrMessageType :: RPCError where "ErrMessageType = rpc_error 105 ''wrong message type''"
definition ErrTimeout :: RPCError where "ErrTimeout = rpc_error 200 ''request timeout''"
definition ErrInvalidSchema :: RPCError where
  "ErrInvalidSchema = rpc_error (-32633) ''invalid schema''"

definition ParamsError :: "string \<Rightarrow> RPCError" where
  "ParamsError message = rpc_error (-32602) message"

definition WithData :: "RPCError \<Rightarrow> gval \<Rightarrow> RPCError" where
  "WithData e d = \<lparr>Code = Code e, ErrText = ErrText e, Data = d\<rparr>"

definition NewErrMsgType :: "string \<Rightarrow> RPCError" where
  "NewErrMsgType additional =
     \<lparr>Code = Code ErrMessageType, ErrText = ''wrong message type '' @ additional, Data = VBool False\<rparr>"

section \<open>Messages\<close>

definition MKRequest :: nat where "MKRequest = 0"
definition MKNotify :: nat where "MKNotify = 1"
definition MKResult :: nat where "MKResult = 2"
definition MKError :: nat where "MKError = 3"

lemmas kinds = MKRequest_def MKNotify_def MKResult_def MKError_def

record BaseMessage =
  kind :: nat
  traceId :: string

record RequestMessage = BaseMessage +
  req_Id :: gval
  req_Method :: string
  req_Params :: "gval list"
  req_paramsAreList :: bool

record NotifyMessage = BaseMessage +
  ntf_Method :: string
  ntf_Params :: "gval list"
  ntf_paramsAreList :: bool

record ResultMessage = BaseMessage +
  res_Id :: gval
  res_Result :: gval

record ErrorMessage = BaseMessage +
  err_Id :: gval
  err_Error :: "RPCError option"

datatype Message =
    MRequest RequestMessage
  | MNotify NotifyMessage
  | MResult ResultMessage
  | MError ErrorMessage

type_synonym 'a panicky = "(RPCError, 'a) outcome"

definition msg_kind :: "Message \<Rightarrow> nat" where
  "msg_kind m = (case m of
      MRequest r \<Rightarrow> kind r | MNotify n \<Rightarrow> kind n | MResult r \<Rightarrow> kind r | MError e \<Rightarrow> kind e)"

definition IsRequest :: "Message \<Rightarrow> bool" where "IsRequest m = (msg_kind m = MKRequest)"
definition IsNotify :: "Message \<Rightarrow> bool" where "IsNotify m = (msg_kind m = MKNotify)"
definition IsRequestOrNotify :: "Message \<Rightarrow> bool" where
  "IsRequestOrNotify m = (IsRequest m \<or> IsNotify m)"
definition IsResult :: "Message \<Rightarrow> bool" where "IsResult m = (msg_kind m = MKResult)"
definition IsError :: "Message \<Rightarrow> bool" where "IsError m = (msg_kind m = MKError)"
definition IsResultOrError :: "Message \<Rightarrow> bool" where
  "IsResultOrError m = (IsResult m \<or> IsError m)"

definition SetTraceId :: "string \<Rightarrow> Message \<Rightarrow> Message" where
  "SetTraceId t m = (case m of
      MRequest r \<Rightarrow> MRequest (r\<lparr>traceId := t\<rparr>)
    | MNotify n \<Rightarrow> MNotify (n\<lparr>traceId := t\<rparr>)
    | MResult r \<Rightarrow> MResult (r\<lparr>traceId := t\<rparr>)
    | MError e \<Rightarrow> MError (e\<lparr>traceId := t\<rparr>))"

definition TraceId :: "Message \<Rightarrow> string" where
  "TraceId m = (case m of
      MRequest r \<Rightarrow> traceId r | MNotify n \<Rightarrow> traceId n | MResult r \<Rightarrow> traceId r | MError e \<Rightarrow> traceId e)"

section \<open>Must methods\<close>

definition MustId :: "Message \<Rightarrow> gval panicky" where
  "MustId m = (case m of
      MRequest r \<Rightarrow> Returns (req_Id r)
    | MNotify _ \<Rightarrow> Panics (NewErrMsgType ''MustId'')
    | MResult r \<Rightarrow> Returns (res_Id r)
    | MError e \<Rightarrow> Returns (err_Id e))"

definition MustMethod :: "Message \<Rightarrow> string panicky" where
  "MustMethod m = (case m of
      MRequest r \<Rightarrow> Returns (req_Method r)
    | MNotify n \<Rightarrow> Returns (ntf_Method n)
    | _ \<Rightarrow> Panics (NewErrMsgType ''MustMethod''))"

definition MustParams :: "Message \<Rightarrow> gval list panicky" where
  "MustParams m = (case m of
      MRequest r \<Rightarrow> Returns (req_Params r)
    | MNotify n \<Rightarrow> Returns (ntf_Params n)
    | _ \<Rightarrow> Panics (NewErrMsgType ''MustParams''))"

definition MustResult :: "Message \<Rightarrow> gval panicky" where
  "MustResult m = (case m of
      MResult r \<Rightarrow> Returns (res_Result r)
    | _ \<Rightarrow> Panics (NewErrMsgType ''MustResult''))"

definition MustError :: "Message \<Rightarrow> RPCError option panicky" where
  "MustError m = (case m of
      MError e \<Rightarrow> Returns (err_Error e)
    | _ \<Rightarrow> Panics (NewErrMsgType ''MustError''))"

section \<open>Constructors\<close>

text \<open>How \<open>NewRequestMessage\<close> and \<open>NewNotifyMessage\<close> read their \<open>params\<close> argument.\<close>

definition params_of :: "gval \<Rightarrow> gval list \<times> bool" where
  "params_of params = (case params of
      VNil \<Rightarrow> ([], True)
    | VList arr \<Rightarrow> (arr, True)
    | _ \<Rightarrow> ([params], False))"

definition NewRequestMessage :: "gval \<Rightarrow> string \<Rightarrow> gval \<Rightarrow> RequestMessage panicky" where
  "NewRequestMessage mid method params =
     (if mid = VNil then Panics ErrNilId
      else if method = [] then Panics ErrEmptyMethod
      else let (arr, islist) = params_of params in
        Returns \<lparr>kind = MKRequest, traceId = [], req_Id = mid, req_Method = method,
          req_Params = arr, req_paramsAreList = islist\<rparr>)"

definition NewNotifyMessage :: "string \<Rightarrow> gval \<Rightarrow> NotifyMessage panicky" where
  "NewNotifyMessage method params =
     (if method = [] then Panics ErrEmptyMethod
      else let (arr, islist) = params_of params in
        Returns \<lparr>kind = MKNotify, traceId = [], ntf_Method = method,
          ntf_Params = arr, ntf_paramsAreList = islist\<rparr>)"

definition rawResultMessage :: "gval \<Rightarrow> gval \<Rightarrow> ResultMessage" where
  "rawResultMessage mid result =
     \<lparr>kind = MKResult, traceId = [], res_Id = mid, res_Result = result\<rparr>"

definition rawErrorMessage :: "gval \<Rightarrow> RPCError option \<Rightarrow> ErrorMessage" where
  "rawErrorMessage mid errbody =
     \<lparr>kind = MKError, traceId = [], err_Id = mid, err_Error = errbody\<rparr>"

definition NewResultMessage :: "Message \<Rightarrow> gval \<Rightarrow> ResultMessage panicky" where
  "NewResultMessage reqmsg result =
     obind (MustId reqmsg) (\<lambda>mid.
       Returns ((rawResultMessage mid result)\<lparr>traceId := TraceId reqmsg\<rparr>))"

definition NewErrorMessage :: "Message \<Rightarrow> RPCError option \<Rightarrow> ErrorMessage panicky" where
  "NewErrorMessage reqmsg errbody =
     obind (MustId reqmsg) (\<lambda>mid.
       Returns ((rawErrorMessage mid errbody)\<lparr>traceId := TraceId reqmsg\<rparr>))"

definition NewErrorMessageFromId :: "gval \<Rightarrow> string \<Rightarrow> RPCError option \<Rightarrow> ErrorMessage" where
  "NewErrorMessageFromId reqId tid errbody = (rawErrorMessage reqId errbody)\<lparr>traceId := tid\<rparr>"

definition RPCErrorMessage :: "Message \<Rightarrow> int \<Rightarrow> string \<Rightarrow> gval \<Rightarrow> ErrorMessage panicky" where
  "RPCErrorMessage reqmsg code message data =
     NewErrorMessage reqmsg (Some \<lparr>Code = code, ErrText = message, Data = data\<rparr>)"

definition RPCErrorMessageFromId :: "gval \<Rightarrow> string \<Rightarrow> int \<Rightarrow> string \<Rightarrow> gval \<Rightarrow> ErrorMessage" where
  "RPCErrorMessageFromId reqId tid code message data =
     NewErrorMessageFromId reqId tid (Some \<lparr>Code = code, ErrText = message, Data = data\<rparr>)"

text \<open>\<open>ToMessage\<close> takes a \<open>*RequestMessage\<close>, whose \<open>MustId\<close> does not panic.\<close>

definition ToMessage :: "RPCError \<Rightarrow> RequestMessage \<Rightarrow> ErrorMessage panicky" where
  "ToMessage e reqmsg = RPCErrorMessage (MRequest reqmsg) (Code e) (ErrText e) (Data e)"

definition ToMessageFromId :: "RPCError \<Rightarrow> gval \<Rightarrow> string \<Rightarrow> ErrorMessage" where
  "ToMessageFromId e reqId tid = RPCErrorMessageFromId reqId tid (Code e) (ErrText e) (Data e)"

definition Clone :: "RequestMessage \<Rightarrow> gval \<Rightarrow> RequestMessage panicky" where
  "Clone self newId =
     obind (NewRequestMessage newId (req_Method self) (VList (req_Params self)))
       (\<lambda>newReq. Returns (newReq\<lparr>traceId := traceId self\<rparr>))"

definition ReplaceId :: "Message \<Rightarrow> gval \<Rightarrow> Message panicky" where
  "ReplaceId self newId = (case self of
      MRequest r \<Rightarrow> obind (Clone r newId) (\<lambda>r'. Returns (MRequest r'))
    | MNotify _ \<Rightarrow> Panics (NewErrMsgType ''ReplaceId'')
    | MResult r \<Rightarrow>
        Returns (SetTraceId (TraceId self) (MResult (rawResultMessage newId (res_Result r))))
    | MError e \<Rightarrow>
        Returns (SetTraceId (TraceId self) (MError (rawErrorMessage newId (err_Error e)))))"

section \<open>Templates\<close>

text \<open>The structs \<open>Interface()\<close> returns. Their only \<open>omitempty\<close> field is \<open>traceid\<close>, which
  marshalling drops when it is empty.\<close>

datatype template =
    TemplateRequest string string gval gval string
  | TemplateNotify string string gval string
  | TemplateResult string gval gval string
  | TemplateError string gval "RPCError option" string

definition wire_params :: "gval list \<Rightarrow> bool \<Rightarrow> gval" where
  "wire_params ps islist = (if islist \<or> length ps = 0 then VList ps else ps ! 0)"

definition Interface :: "Message \<Rightarrow> template" where
  "Interface m = (case m of
      MRequest r \<Rightarrow> TemplateRequest ''2.0'' (req_Method r) (req_Id r)
                     (wire_params (req_Params r) (req_paramsAreList r)) (traceId r)
    | MNotify n \<Rightarrow> TemplateNotify ''2.0'' (ntf_Method n)
                     (wire_params (ntf_Params n) (ntf_paramsAreList n)) (traceId n)
    | MResult r \<Rightarrow> TemplateResult ''2.0'' (res_Id r) (res_Result r) (traceId r)
    | MError e \<Rightarrow> TemplateError ''2.0'' (err_Id e) (err_Error e) (traceId e))"

definition omit_empty :: "string \<Rightarrow> string \<Rightarrow> (string \<times> json) list" where
  "omit_empty key s = (if s = [] then [] else [(key, JStr s)])"

definition marshal_rpc_error :: "(rat \<Rightarrow> string) \<Rightarrow> RPCError option \<Rightarrow> marshal_err + json" where
  "marshal_rpc_error ff eo = (case eo of
      None \<Rightarrow> Inr JNull
    | Some e \<Rightarrow>
        let common = [(''code'', JNum (show_int (Code e))), (''message'', JStr (ErrText e))]
        in if Data e = VNil then Inr (JObj common)
           else sbind (marshal ff (Data e)) (\<lambda>d. Inr (JObj (common @ [(''data'', d)]))))"

definition marshal_template :: "(rat \<Rightarrow> string) \<Rightarrow> template \<Rightarrow> marshal_err + json" where
  "marshal_template ff t = (case t of
      TemplateRequest v method mid params tid \<Rightarrow>
        sbind (marshal ff mid) (\<lambda>i. sbind (marshal ff params) (\<lambda>p.
          Inr (JObj ([(''jsonrpc'', JStr v), (''method'', JStr method), (''id'', i), (''params'', p)]
                     @ omit_empty ''traceid'' tid))))
    | TemplateNotify v method params tid \<Rightarrow>
        sbind (marshal ff params) (\<lambda>p.
          Inr (JObj ([(''jsonrpc'', JStr v), (''method'', JStr method), (''params'', p)]
                     @ omit_empty ''traceid'' tid)))
    | TemplateResult v mid result tid \<Rightarrow>
        sbind (marshal ff mid) (\<lambda>i. sbind (marshal ff result) (\<lambda>r.
          Inr (JObj ([(''jsonrpc'', JStr v), (''id'', i), (''result'', r)]
                     @ omit_empty ''traceid'' tid))))
    | TemplateError v mid eo tid \<Rightarrow>
        sbind (marshal ff mid) (\<lambda>i. sbind (marshal_rpc_error ff eo) (\<lambda>e.
          Inr (JObj ([(''jsonrpc'', JStr v), (''id'', i), (''error'', e)]
                     @ omit_empty ''traceid'' tid)))))"

definition MessageBytes :: "(rat \<Rightarrow> string) \<Rightarrow> Message \<Rightarrow> marshal_err + json" where
  "MessageBytes ff msg = marshal_template ff (Interface msg)"

text \<open>
  \<open>MessageMap\<close> hands the template to \<open>mapstructure\<close>, a third-party package: \<open>decode\<close> is
  that package's decoding of a struct into a \<open>map[string]interface{}\<close>.
\<close>

definition MessageMap ::
  "(template \<Rightarrow> 'err + (string \<times> gval) list) \<Rightarrow> Message \<Rightarrow> 'err + (string \<times> gval) list" where
  "MessageMap decode msg = decode (Interface msg)"

lemmas is_defs = IsRequest_def IsNotify_def IsRequestOrNotify_def IsResult_def IsError_def
  IsResultOrError_def msg_kind_def kinds
lemmas must_defs = MustId_def MustMethod_def MustParams_def MustResult_def MustError_def
lemmas new_defs = NewRequestMessage_def NewNotifyMessage_def rawResultMessage_def
  rawErrorMessage_def NewResultMessage_def NewErrorMessage_def NewErrorMessageFromId_def
  RPCErrorMessage_def RPCErrorMessageFromId_def ToMessage_def ToMessageFromId_def Clone_def
  ReplaceId_def

declare is_defs [message_defs] must_defs [message_defs] new_defs [message_defs]
  SetTraceId_def [message_defs] TraceId_def [message_defs]

section \<open>The kind tag agrees with the struct\<close>

definition kind_ok :: "Message \<Rightarrow> bool" where
  "kind_ok m = (msg_kind m = (case m of
      MRequest _ \<Rightarrow> MKRequest | MNotify _ \<Rightarrow> MKNotify | MResult _ \<Rightarrow> MKResult | MError _ \<Rightarrow> MKError))"

text \<open>A message the constructors can produce: also a request has an id and a method.\<close>

definition message_ok :: "Message \<Rightarrow> bool" where
  "message_ok m = (kind_ok m \<and> (case m of
      MRequest r \<Rightarrow> req_Id r \<noteq> VNil \<and> req_Method r \<noteq> [] \<and>
        (req_paramsAreList r \<or> length (req_Params r) = 1)
    | MNotify n \<Rightarrow> ntf_Method n \<noteq> [] \<and> (ntf_paramsAreList n \<or> length (ntf_Params n) = 1)
    | _ \<Rightarrow> True))"

lemma params_of_shape: "params_of p = (arr, islist) \<Longrightarrow> islist \<or> length arr = 1"
  by (auto simp: params_of_def split: gval.splits)

lemma message_ok_new:
  "NewRequestMessage i m p = Returns r \<Longrightarrow> message_ok (MRequest r)"
  "NewNotifyMessage m p = Returns n \<Longrightarrow> message_ok (MNotify n)"
  "message_ok (MResult (rawResultMessage i v))"
  "message_ok (MError (rawErrorMessage i eo))"
  by (auto simp: message_ok_def kind_ok_def message_defs Let_def
      split: if_splits prod.splits dest: params_of_shape)

lemma message_ok_SetTraceId [simp]: "message_ok (SetTraceId t m) \<longleftrightarrow> message_ok m"
  by (cases m) (auto simp: message_ok_def kind_ok_def message_defs)

lemma TraceId_SetTraceId [simp]: "TraceId (SetTraceId t m) = t"
  by (cases m) (auto simp: message_defs)

lemma MustId_SetTraceId [simp]: "MustId (SetTraceId t m) = MustId m"
  by (cases m) (auto simp: message_defs)

lemma is_ctr [simp]:
  "kind_ok m \<Longrightarrow> IsRequest m \<longleftrightarrow> (\<exists>r. m = MRequest r)"
  "kind_ok m \<Longrightarrow> IsNotify m \<longleftrightarrow> (\<exists>n. m = MNotify n)"
  "kind_ok m \<Longrightarrow> IsResult m \<longleftrightarrow> (\<exists>r. m = MResult r)"
  "kind_ok m \<Longrightarrow> IsError m \<longleftrightarrow> (\<exists>e. m = MError e)"
  by (cases m; simp add: kind_ok_def message_defs)+

lemma message_ok_kind: "message_ok m \<Longrightarrow> kind_ok m"
  by (simp add: message_ok_def)

lemma ToMessage_eq [simp]:
  "ToMessage e r = Returns \<lparr>kind = MKError, traceId = traceId r, err_Id = req_Id r, err_Error = Some e\<rparr>"
  by (cases e) (simp add: message_defs)

lemma ToMessageFromId_eq [simp]:
  "ToMessageFromId e i t = \<lparr>kind = MKError, traceId = t, err_Id = i, err_Error = Some e\<rparr>"
  by (cases e) (simp add: message_defs)

lemma NewResultMessage_eq [simp]:
  "NewResultMessage (MRequest r) v =
     Returns \<lparr>kind = MKResult, traceId = traceId r, res_Id = req_Id r, res_Result = v\<rparr>"
  by (simp add: message_defs)

section \<open>Replacing the id\<close>

text \<open>What a message says apart from its id and its trace id.\<close>

datatype content =
    CCall bool string "gval list"
  | CResult gval
  | CError "RPCError option"

definition content :: "Message \<Rightarrow> content" where
  "content m = (case m of
      MRequest r \<Rightarrow> CCall True (req_Method r) (req_Params r)
    | MNotify n \<Rightarrow> CCall False (ntf_Method n) (ntf_Params n)
    | MResult r \<Rightarrow> CResult (res_Result r)
    | MError e \<Rightarrow> CError (err_Error e))"

text \<open>Giving a well-formed message another id panics exactly for a notify, which has no
  id, and for a request that would lose its id; otherwise the result is well formed, has the
  new id, and keeps the trace id, the kind and the content of the message.\<close>

lemma replace_id:
  assumes "message_ok m"
  shows "case ReplaceId m newId of
      Panics e \<Rightarrow> IsNotify m \<and> e = NewErrMsgType ''ReplaceId'' \<or> IsRequest m \<and> newId = VNil \<and> e = ErrNilId
    | Returns m' \<Rightarrow> \<not> IsNotify m \<and> \<not> (IsRequest m \<and> newId = VNil) \<and> message_ok m' \<and>
        MustId m' = Returns newId \<and> TraceId m' = TraceId m \<and> msg_kind m' = msg_kind m \<and>
        content m' = content m"
  using assms
  by (cases m) (auto simp: message_ok_def kind_ok_def message_defs params_of_def content_def)

text \<open>The clone of a request whose params are a single value, not a list, sends
  a different document: the value arrives wrapped in a list of one element.\<close>

lemma clone_wraps_params:
  assumes "NewRequestMessage i meth p = Returns r" "\<not> req_paramsAreList r" "newId \<noteq> VNil"
  shows "Interface (MRequest r) = TemplateRequest ''2.0'' meth i p [] \<and>
    (\<exists>r'. Clone r newId = Returns r' \<and>
      Interface (MRequest r') = TemplateRequest ''2.0'' meth newId (VList [p]) [])"
  using assms
  by (auto simp: message_defs Interface_def wire_params_def params_of_def split: if_splits gval.splits)

end
