(* ===== verification/Parse.thy ===== *)
theory Parse
  imports Messages
begin

text \<open>
  \<^verbatim>\<open>parse.go\<close>: decoding a JSONRPC message. A \<open>json.Decoder\<close> is the list of results its
  successive \<open>Decode\<close> calls find in the input: a document, or the syntax error at which
  it stays; the empty list is the end of the input. How a text
  is split into documents is the subject of \<open>Json_Text\<close>. What decoding a document into the struct \<open>msgUnion\<close> does is
  written out: object members are matched with the field names up to letter case, a
  \<open>null\<close> clears a \<open>*json.RawMessage\<close> field and leaves a string field, members are taken in
  order, and a member of the wrong type lets decoding go on but makes it fail at the end.
\<close>

datatype decode_err =
    ErrEOF
  | ErrJson string
  | ErrUnmarshalType
  | ErrDecode string

type_synonym decoder = "(string + json) list"

fun Decode :: "decoder \<Rightarrow> (decode_err + json) \<times> decoder" where
  "Decode [] = (Inl ErrEOF, [])"
| "Decode (Inl e # ds) = (Inl (ErrJson e), Inl e # ds)"
| "Decode (Inr j # ds) = (Inr j, ds)"

section \<open>Field names\<close>

text \<open>
  \<open>foldName\<close> of \<open>encoding/json\<close> on the UTF-8 bytes of a key, as far as it can produce an
  ASCII name: letters lose their case, U+017F (long s) folds to s and U+212A (Kelvin sign)
  to k.
\<close>

definition byte :: "nat \<Rightarrow> char" where
  "byte n = char_of n"

fun fold_key :: "string \<Rightarrow> string" where
  "fold_key (a # b # c # s) =
     (if a = byte 226 \<and> b = byte 132 \<and> c = byte 170 then CHR ''k'' # fold_key s
      else if a = byte 197 \<and> b = byte 191 then CHR ''s'' # fold_key (c # s)
      else lower a # fold_key (b # c # s))"
| "fold_key [a, b] = (if a = byte 197 \<and> b = byte 191 then ''s'' else [lower a, lower b])"
| "fold_key [a] = [lower a]"
| "fold_key [] = []"

declare fold_key.simps [simp del]

section \<open>msgUnion\<close>

record msgUnion =
  un_Id :: "json option"
  un_Result :: "json option"
  un_Error :: "json option"
  un_Params :: "json option"
  un_Method :: string
  un_TraceId :: string

definition empty_union :: msgUnion where
  "empty_union = \<lparr>un_Id = None, un_Result = None, un_Error = None, un_Params = None,
     un_Method = [], un_TraceId = []\<rparr>"

definition raw_field :: "json \<Rightarrow> json option" where
  "raw_field j = (if j = JNull then None else Some j)"

text \<open>A string field: the new value, and whether the member had the wrong type.\<close>

definition string_field :: "string \<Rightarrow> json \<Rightarrow> string \<times> bool" where
  "string_field old j = (case j of JStr s \<Rightarrow> (s, False) | JNull \<Rightarrow> (old, False) | _ \<Rightarrow> (old, True))"

definition union_member :: "string \<Rightarrow> json \<Rightarrow> msgUnion \<Rightarrow> msgUnion \<times> bool" where
  "union_member k j un =
     (let n = fold_key k in
      if n = ''id'' then (un\<lparr>un_Id := raw_field j\<rparr>, False)
      else if n = ''result'' then (un\<lparr>un_Result := raw_field j\<rparr>, False)
      else if n = ''error'' then (un\<lparr>un_Error := raw_field j\<rparr>, False)
      else if n = ''params'' then (un\<lparr>un_Params := raw_field j\<rparr>, False)
      else if n = ''method'' then
        (let (s, bad) = string_field (un_Method un) j in (un\<lparr>un_Method := s\<rparr>, bad))
      else if n = ''traceid'' then
        (let (s, bad) = string_field (un_TraceId un) j in (un\<lparr>un_TraceId := s\<rparr>, bad))
      else (un, False))"

fun union_members :: "(string \<times> json) list \<Rightarrow> msgUnion \<Rightarrow> bool \<Rightarrow> msgUnion \<times> bool" where
  "union_members [] un bad = (un, bad)"
| "union_members ((k, j) # kvs) un bad =
     (let (un', b) = union_member k j un in union_members kvs un' (bad \<or> b))"

definition decode_union :: "json \<Rightarrow> decode_err + msgUnion" where
  "decode_union j = (case j of
      JObj kvs \<Rightarrow> (let (un, bad) = union_members kvs empty_union False
                   in if bad then Inl ErrUnmarshalType else Inr un)
    | JNull \<Rightarrow> Inr empty_union
    | _ \<Rightarrow> Inl ErrUnmarshalType)"

section \<open>The error body\<close>

definition int_field :: "int \<Rightarrow> json \<Rightarrow> int \<times> bool" where
  "int_field old j = (case j of
      JNum n \<Rightarrow> (case ParseInt n of Some i \<Rightarrow> (i, False) | None \<Rightarrow> (old, True))
    | JNull \<Rightarrow> (old, False)
    | _ \<Rightarrow> (old, True))"

definition error_member :: "string \<Rightarrow> json \<Rightarrow> RPCError \<Rightarrow> RPCError \<times> bool" where
  "error_member k j e =
     (let n = fold_key k in
      if n = ''code'' then (let (i, bad) = int_field (Code e) j in (e\<lparr>Code := i\<rparr>, bad))
      else if n = ''message'' then
        (let (s, bad) = string_field (ErrText e) j in (e\<lparr>ErrText := s\<rparr>, bad))
      else if n = ''data'' then (e\<lparr>Data := to_value j\<rparr>, False)
      else (e, False))"

fun error_members :: "(string \<times> json) list \<Rightarrow> RPCError \<Rightarrow> bool \<Rightarrow> RPCError \<times> bool" where
  "error_members [] e bad = (e, bad)"
| "error_members ((k, j) # kvs) e bad =
     (let (e', b) = error_member k j e in error_members kvs e' (bad \<or> b))"

definition decode_error :: "json \<Rightarrow> decode_err + RPCError" where
  "decode_error j = (case j of
      JObj kvs \<Rightarrow> (let (e, bad) = error_members kvs (rpc_error 0 []) False
                   in if bad then Inl ErrUnmarshalType else Inr e)
    | JNull \<Rightarrow> Inr (rpc_error 0 [])
    | _ \<Rightarrow> Inl ErrUnmarshalType)"

section \<open>Id and params\<close>

definition decodeId :: "msgUnion \<Rightarrow> decode_err + gval" where
  "decodeId un = (case un_Id un of
      None \<Rightarrow> Inr VNil
    | Some j \<Rightarrow>
        (case j of
           JNum n \<Rightarrow> (case ParseInt n of Some i \<Rightarrow> Inr (VInt i) | None \<Rightarrow> Inl ErrUnmarshalType)
         | JStr s \<Rightarrow> Inr (VString s)
         | _ \<Rightarrow> Inl ErrUnmarshalType))"

definition decodeParams :: "msgUnion \<Rightarrow> decode_err + gval list \<times> bool" where
  "decodeParams un = (case un_Params un of
      None \<Rightarrow> Inl (ErrDecode ''no params field'')
    | Some (JArr js) \<Rightarrow> Inr (to_values js, True)
    | Some j \<Rightarrow> Inr ([to_value j], False))"

section \<open>DecodeMessage\<close>

text \<open>
  The body of \<open>DecodeMessage\<close> once the document is read. \<open>NewRequestMessage\<close> and
  \<open>NewNotifyMessage\<close> can panic, so the result is an outcome; the two tests for the
  coexistence of result and error are kept as the code has them.
\<close>

definition message_of_union :: "msgUnion \<Rightarrow> (decode_err + Message) panicky" where
  "message_of_union un =
     (case un_Error un of
        Some je \<Rightarrow>
          if un_Result un \<noteq> None then
            Returns (Inl (ErrDecode ''result and error cannot co exist''))
          else Returns (sbind (decode_error je) (\<lambda>errbody. sbind (decodeId un) (\<lambda>mid.
            Inr (MError ((rawErrorMessage mid (Some errbody))\<lparr>traceId := un_TraceId un\<rparr>)))))
      | None \<Rightarrow>
     (case un_Result un of
        Some jr \<Rightarrow>
          if un_Error un \<noteq> None then
            Returns (Inl (ErrDecode ''result and error cannot co exist''))
          else Returns (sbind (decodeId un) (\<lambda>mid.
            Inr (MResult ((rawResultMessage mid (to_value jr))\<lparr>traceId := un_TraceId un\<rparr>))))
      | None \<Rightarrow>
          if un_Method un \<noteq> [] then
            (case decodeParams un of
               Inl e \<Rightarrow> Returns (Inl e)
             | Inr (params, islist) \<Rightarrow>
                 (case decodeId un of
                    Inl e \<Rightarrow> Returns (Inl e)
                  | Inr mid \<Rightarrow>
                      if mid \<noteq> VNil then
                        obind (NewRequestMessage mid (un_Method un) (VList params)) (\<lambda>r.
                          Returns (Inr (MRequest
                            (r\<lparr>req_paramsAreList := islist, traceId := un_TraceId un\<rparr>))))
                      else
                        obind (NewNotifyMessage (un_Method un) (VList params)) (\<lambda>n.
                          Returns (Inr (MNotify
                            (n\<lparr>ntf_paramsAreList := islist, traceId := un_TraceId un\<rparr>))))))
          else if un_Id un \<noteq> None then
            Returns (sbind (decodeId un) (\<lambda>mid.
              Inr (MResult ((rawResultMessage mid VNil)\<lparr>traceId := un_TraceId un\<rparr>))))
          else Returns (Inl (ErrDecode ''not a jsonrpc message''))))"

definition DecodeMessage :: "decoder \<Rightarrow> (decode_err + Message) panicky \<times> decoder" where
  "DecodeMessage dec =
     (let (r, dec') = Decode dec in
      ((case sbind r decode_union of
          Inl e \<Rightarrow> Returns (Inl e)
        | Inr un \<Rightarrow> message_of_union un), dec'))"

text \<open>\<open>ParseBytes\<close>: \<open>scan\<close> is the tokenizer, from bytes to the documents they hold.\<close>

definition ParseBytes :: "(string \<Rightarrow> decoder) \<Rightarrow> string \<Rightarrow> (decode_err + Message) panicky" where
  "ParseBytes scan data = fst (DecodeMessage (scan data))"

definition message_of_json :: "json \<Rightarrow> (decode_err + Message) panicky" where
  "message_of_json j = fst (DecodeMessage [Inr j])"

lemma message_of_json_eq: "message_of_json j =
    (case decode_union j of Inl e \<Rightarrow> Returns (Inl e) | Inr un \<Rightarrow> message_of_union un)"
  by (simp add: message_of_json_def DecodeMessage_def)

section \<open>Decoding is total and classifies its input\<close>

lemma fold_names [simp]:
  "fold_key ''jsonrpc'' = ''jsonrpc''" "fold_key ''id'' = ''id''" "fold_key ''method'' = ''method''"
  "fold_key ''params'' = ''params''" "fold_key ''result'' = ''result''"
  "fold_key ''error'' = ''error''" "fold_key ''traceid'' = ''traceid''"
  "fold_key ''code'' = ''code''" "fold_key ''message'' = ''message''" "fold_key ''data'' = ''data''"
  by code_simp+

lemma NewRequestMessage_list [simp]:
  "i \<noteq> VNil \<Longrightarrow> m \<noteq> [] \<Longrightarrow> NewRequestMessage i m (VList ps) =
     Returns \<lparr>kind = MKRequest, traceId = [], req_Id = i, req_Method = m, req_Params = ps,
       req_paramsAreList = True\<rparr>"
  by (simp add: NewRequestMessage_def params_of_def)

lemma NewNotifyMessage_list [simp]:
  "m \<noteq> [] \<Longrightarrow> NewNotifyMessage m (VList ps) =
     Returns \<lparr>kind = MKNotify, traceId = [], ntf_Method = m, ntf_Params = ps,
       ntf_paramsAreList = True\<rparr>"
  by (simp add: NewNotifyMessage_def params_of_def)

lemma message_of_union_returns: "\<exists>r. message_of_union un = Returns r"
  by (auto simp: message_of_union_def split: option.split sum.split)

definition wire_id :: "gval \<Rightarrow> bool" where
  "wire_id v = (case v of VInt i \<Rightarrow> in_int64 i | VString _ \<Rightarrow> True | _ \<Rightarrow> False)"

lemma wire_id_ne [simp]: "wire_id v \<Longrightarrow> v \<noteq> VNil"
  by (auto simp: wire_id_def)

lemma decodeId_wire: "decodeId un = Inr v \<Longrightarrow> un_Id un = None \<and> v = VNil \<or> wire_id v"
  by (auto simp: decodeId_def wire_id_def split: option.splits json.splits dest: ParseInt_in_range)

lemma decodeId_nil: "decodeId un = Inr VNil \<longleftrightarrow> un_Id un = None"
  by (auto simp: decodeId_def split: option.splits json.splits)

lemma error_members_code:
  "error_members kvs e bad = (e', bad') \<Longrightarrow> in_int64 (Code e) \<Longrightarrow> in_int64 (Code e')"
  by (induction kvs e bad rule: error_members.induct)
    (auto simp: error_member_def int_field_def Let_def split: if_splits prod.splits json.splits
      option.splits dest: ParseInt_in_range)

lemma decode_error_code: "decode_error j = Inr e \<Longrightarrow> in_int64 (Code e)"
  by (auto simp: decode_error_def rpc_error_def in_int64_def int64_min_def int64_max_def
      split: json.splits prod.splits if_splits dest!: error_members_code)

text \<open>What every decoded message satisfies.\<close>

definition decoded_ok :: "Message \<Rightarrow> bool" where
  "decoded_ok m = (message_ok m \<and> (case m of
      MRequest r \<Rightarrow> wire_id (req_Id r)
    | MNotify n \<Rightarrow> True
    | MResult r \<Rightarrow> (res_Id r = VNil \<or> wire_id (res_Id r)) \<and> \<not> (res_Id r = VNil \<and> res_Result r = VNil)
    | MError e \<Rightarrow> (err_Id e = VNil \<or> wire_id (err_Id e)) \<and>
        (\<exists>b. err_Error e = Some b \<and> in_int64 (Code b))))"

lemma decodeParams_shape: "decodeParams un = Inr (ps, islist) \<Longrightarrow> islist \<or> length ps = 1"
  by (auto simp: decodeParams_def split: option.splits json.splits)

lemma decodeId_cases: "decodeId un = Inr v \<Longrightarrow> v = VNil \<or> wire_id v"
  using decodeId_wire by blast

lemma decodeId_None [simp]: "un_Id un = None \<Longrightarrow> decodeId un = Inr VNil"
  by (simp add: decodeId_nil)

text \<open>A \<open>null\<close> never reaches a raw field.\<close>

definition union_ok :: "msgUnion \<Rightarrow> bool" where
  "union_ok un = (JNull \<notin> Option.set_option (un_Id un) \<union> Option.set_option (un_Result un)
     \<union> Option.set_option (un_Error un) \<union> Option.set_option (un_Params un))"

lemma raw_field_ok [simp]: "JNull \<notin> Option.set_option (raw_field j)"
  by (simp add: raw_field_def)

lemma union_members_ok: "union_members kvs un bad = (un', bad') \<Longrightarrow> union_ok un \<Longrightarrow> union_ok un'"
proof (induction kvs un bad rule: union_members.induct)
  case (2 k j kvs un bad)
  have "union_ok un1" if "union_member k j un = (un1, b1)" for un1 b1
    using that "2.prems"(2) by (auto simp: union_member_def union_ok_def raw_field_def Let_def split: if_splits prod.splits)
  with 2 show ?case by (auto split: prod.splits)
qed simp

lemma decode_union_ok: "decode_union j = Inr un \<Longrightarrow> union_ok un"
  by (auto simp: decode_union_def empty_union_def union_ok_def
      split: json.splits prod.splits if_splits dest!: union_members_ok)

lemma to_value_nil [simp]: "to_value j = VNil \<longleftrightarrow> j = JNull"
  by (cases j) auto

text \<open>The five ways \<open>DecodeMessage\<close> can succeed.\<close>

lemma message_of_union_cases [consumes 1, case_names error result request notify null]:
  assumes "message_of_union un = Returns (Inr m)"
  obtains
    je b mid where "un_Error un = Some je" "un_Result un = None" "decode_error je = Inr b"
      "decodeId un = Inr mid"
      "m = MError \<lparr>kind = MKError, traceId = un_TraceId un, err_Id = mid, err_Error = Some b\<rparr>"
  | jr mid where "un_Error un = None" "un_Result un = Some jr" "decodeId un = Inr mid"
      "m = MResult \<lparr>kind = MKResult, traceId = un_TraceId un, res_Id = mid, res_Result = to_value jr\<rparr>"
  | ps il mid where "un_Error un = None" "un_Result un = None" "un_Method un \<noteq> []"
      "decodeParams un = Inr (ps, il)" "decodeId un = Inr mid" "mid \<noteq> VNil"
      "m = MRequest \<lparr>kind = MKRequest, traceId = un_TraceId un, req_Id = mid,
             req_Method = un_Method un, req_Params = ps, req_paramsAreList = il\<rparr>"
  | ps il where "un_Error un = None" "un_Result un = None" "un_Method un \<noteq> []"
      "decodeParams un = Inr (ps, il)" "un_Id un = None"
      "m = MNotify \<lparr>kind = MKNotify, traceId = un_TraceId un, ntf_Method = un_Method un,
             ntf_Params = ps, ntf_paramsAreList = il\<rparr>"
  | mid where "un_Error un = None" "un_Result un = None" "un_Method un = []" "un_Id un \<noteq> None"
      "decodeId un = Inr mid"
      "m = MResult \<lparr>kind = MKResult, traceId = un_TraceId un, res_Id = mid, res_Result = VNil\<rparr>"
  using assms
  by (auto simp: message_of_union_def rawErrorMessage_def rawResultMessage_def sbind_Inr_iff
      decodeId_nil split: option.splits sum.splits if_splits prod.splits)

lemma message_of_union_ok:
  assumes "message_of_union un = Returns (Inr m)" "union_ok un"
  shows "decoded_ok m"
  using assms
proof (cases rule: message_of_union_cases)
  case (error je b mid)
  then show ?thesis
    by (auto simp: decoded_ok_def message_ok_def kind_ok_def msg_kind_def
        dest: decodeId_cases decode_error_code)
next
  case (result jr mid)
  then show ?thesis
    using assms(2) by (auto simp: decoded_ok_def message_ok_def kind_ok_def msg_kind_def union_ok_def
        dest: decodeId_cases)
next
  case (request ps il mid)
  then show ?thesis
    by (auto simp: decoded_ok_def message_ok_def kind_ok_def msg_kind_def
        dest: decodeId_cases decodeParams_shape)
next
  case (notify ps il)
  then show ?thesis
    by (auto simp: decoded_ok_def message_ok_def kind_ok_def msg_kind_def dest: decodeParams_shape)
next
  case (null mid)
  then show ?thesis
    by (auto simp: decoded_ok_def message_ok_def kind_ok_def msg_kind_def decodeId_nil
        dest: decodeId_cases)
qed

text \<open>Which kind of message a document with given fields is.\<close>

definition union_kind :: "msgUnion \<Rightarrow> nat" where
  "union_kind un =
     (if un_Error un \<noteq> None then MKError
      else if un_Result un \<noteq> None then MKResult
      else if un_Method un = [] then MKResult
      else if un_Id un \<noteq> None then MKRequest else MKNotify)"

lemma message_of_union_kind:
  assumes "message_of_union un = Returns (Inr m)"
  shows "msg_kind m = union_kind un"
  using assms
  by (cases rule: message_of_union_cases) (auto simp: msg_kind_def union_kind_def decodeId_nil)

section \<open>Encoding and decoding\<close>

text \<open>The messages whose JSON text carries them in full.\<close>

definition is_VList :: "gval \<Rightarrow> bool" where
  "is_VList v = (case v of VList _ \<Rightarrow> True | _ \<Rightarrow> False)"

definition wire_params_ok :: "gval list \<Rightarrow> bool \<Rightarrow> bool" where
  "wire_params_ok ps islist =
     (wire_list ps \<and> (islist \<or> (case ps of [p] \<Rightarrow> p \<noteq> VNil \<and> \<not> is_VList p | _ \<Rightarrow> False)))"

definition wire_message :: "Message \<Rightarrow> bool" where
  "wire_message m = (kind_ok m \<and> (case m of
      MRequest r \<Rightarrow> wire_id (req_Id r) \<and> req_Method r \<noteq> [] \<and>
        wire_params_ok (req_Params r) (req_paramsAreList r)
    | MNotify n \<Rightarrow> ntf_Method n \<noteq> [] \<and> wire_params_ok (ntf_Params n) (ntf_paramsAreList n)
    | MResult r \<Rightarrow> (res_Id r = VNil \<or> wire_id (res_Id r)) \<and> wire (res_Result r) \<and>
        \<not> (res_Id r = VNil \<and> res_Result r = VNil)
    | MError e \<Rightarrow> (err_Id e = VNil \<or> wire_id (err_Id e)) \<and>
        (case err_Error e of None \<Rightarrow> False | Some b \<Rightarrow> in_int64 (Code b) \<and> wire (Data b))))"

definition id_json :: "gval \<Rightarrow> json" where
  "id_json v = (case v of VInt i \<Rightarrow> JNum (show_int i) | VString s \<Rightarrow> JStr s | _ \<Rightarrow> JNull)"

lemma marshal_id: "v = VNil \<or> wire_id v \<Longrightarrow> marshal ff v = Inr (id_json v)"
  by (auto simp: wire_id_def id_json_def split: gval.splits)

lemma decodeId_json:
  "v = VNil \<or> wire_id v \<Longrightarrow> un_Id un = raw_field (id_json v) \<Longrightarrow> decodeId un = Inr v"
  by (auto simp: wire_id_def id_json_def decodeId_def raw_field_def ParseInt_show_int split: gval.splits)

lemma raw_id_json: "wire_id v \<Longrightarrow> raw_field (id_json v) = Some (id_json v)"
  by (auto simp: wire_id_def id_json_def raw_field_def split: gval.splits)

lemma wire_json_array: "wire v \<Longrightarrow> wire_json v = JArr js \<Longrightarrow> \<exists>vs. v = VList vs"
  by (cases v) auto

lemma wire_params_single:
  assumes "wire_params_ok ps il" "\<not> il"
  obtains p where "ps = [p]" "wire p" "p \<noteq> VNil" "\<forall>vs. p \<noteq> VList vs"
  using assms by (auto simp: wire_params_ok_def is_VList_def split: list.splits gval.splits)

text \<open>The JSON form of the params of a message.\<close>

definition params_json :: "gval list \<Rightarrow> bool \<Rightarrow> json" where
  "params_json ps islist = wire_json (wire_params ps islist)"

lemma marshal_params:
  "wire_params_ok ps il \<Longrightarrow> marshal ff (wire_params ps il) = Inr (params_json ps il)"
  by (cases il)
    (auto simp: wire_params_ok_def params_json_def wire_params_def marshal_wire split: list.splits)

lemma raw_params:
  assumes "wire_params_ok ps il"
  shows "raw_field (params_json ps il) = Some (params_json ps il)"
proof (cases il)
  case True
  then show ?thesis by (simp add: params_json_def raw_field_def wire_params_def)
next
  case False
  with assms obtain p where "ps = [p]" "wire p" "p \<noteq> VNil"
    by (auto elim: wire_params_single)
  with False show ?thesis by (simp add: params_json_def raw_field_def wire_params_def)
qed

lemma decodeParams_json:
  assumes "wire_params_ok ps il" "un_Params un = Some (params_json ps il)"
  shows "decodeParams un = Inr (ps, il)"
proof (cases il)
  case True
  with assms show ?thesis
    by (simp add: decodeParams_def params_json_def wire_params_def wire_params_ok_def wire_roundtrip)
next
  case False
  with assms(1) obtain p where p: "ps = [p]" "wire p" "\<forall>vs. p \<noteq> VList vs"
    by (auto elim: wire_params_single)
  with False assms(2) have "un_Params un = Some (wire_json p)"
    by (simp add: params_json_def wire_params_def)
  moreover have "\<forall>js. wire_json p \<noteq> JArr js"
    using wire_json_array p by blast
  ultimately have "decodeParams un = Inr ([to_value (wire_json p)], False)"
    by (auto simp: decodeParams_def split: json.splits)
  with p False show ?thesis by (simp add: wire_roundtrip)
qed

lemma union_members_append:
  "union_members (xs @ ys) un bad =
     (let (un', bad') = union_members xs un bad in union_members ys un' bad')"
  by (induction xs un bad rule: union_members.induct) (auto split: prod.splits)

lemma union_traceid:
  "un_TraceId un = [] \<Longrightarrow> union_members (omit_empty ''traceid'' t) un bad = (un\<lparr>un_TraceId := t\<rparr>, bad)"
  by (cases un) (simp add: omit_empty_def union_member_def string_field_def)

lemmas union_steps = decode_union_def empty_union_def union_member_def string_field_def union_traceid

lemma error_roundtrip:
  assumes "in_int64 (Code b)" "wire (Data b)"
  shows "\<exists>j. marshal_rpc_error ff (Some b) = Inr j \<and> raw_field j = Some j \<and> decode_error j = Inr b"
  using assms
  by (cases b) (auto simp: marshal_rpc_error_def marshal_wire Let_def raw_field_def decode_error_def
      error_member_def int_field_def string_field_def ParseInt_show_int rpc_error_def wire_roundtrip)

lemma roundtrip_request:
  assumes "wire_message (MRequest r)"
  shows "\<exists>j. MessageBytes ff (MRequest r) = Inr j \<and> message_of_json j = Returns (Inr (MRequest r))"
proof -
  let ?i = "id_json (req_Id r)" and ?p = "params_json (req_Params r) (req_paramsAreList r)"
  let ?j = "JObj ([(''jsonrpc'', JStr ''2.0''), (''method'', JStr (req_Method r)), (''id'', ?i),
              (''params'', ?p)] @ omit_empty ''traceid'' (traceId r))"
  from assms have r: "wire_id (req_Id r)" "req_Method r \<noteq> []" "kind r = MKRequest"
    and p: "wire_params_ok (req_Params r) (req_paramsAreList r)"
    by (auto simp: wire_message_def kind_ok_def msg_kind_def)
  have "MessageBytes ff (MRequest r) = Inr ?j"
    using r p by (simp add: MessageBytes_def Interface_def marshal_template_def marshal_id marshal_params)
  moreover have "decode_union ?j = Inr \<lparr>un_Id = Some ?i, un_Result = None, un_Error = None,
      un_Params = Some ?p, un_Method = req_Method r, un_TraceId = traceId r\<rparr>" (is "_ = Inr ?un")
    using r p by (simp add: union_steps raw_id_json raw_params)
  moreover have "decodeId ?un = Inr (req_Id r)"
    using r by (intro decodeId_json) (auto simp: raw_id_json)
  moreover have "decodeParams ?un = Inr (req_Params r, req_paramsAreList r)"
    using p by (rule decodeParams_json) simp
  ultimately show ?thesis
    using r by (cases r) (simp add: message_of_json_eq message_of_union_def)
qed

lemma roundtrip_notify:
  assumes "wire_message (MNotify n)"
  shows "\<exists>j. MessageBytes ff (MNotify n) = Inr j \<and> message_of_json j = Returns (Inr (MNotify n))"
proof -
  let ?p = "params_json (ntf_Params n) (ntf_paramsAreList n)"
  let ?j = "JObj ([(''jsonrpc'', JStr ''2.0''), (''method'', JStr (ntf_Method n)), (''params'', ?p)]
              @ omit_empty ''traceid'' (traceId n))"
  from assms have n: "ntf_Method n \<noteq> []" "kind n = MKNotify"
    and p: "wire_params_ok (ntf_Params n) (ntf_paramsAreList n)"
    by (auto simp: wire_message_def kind_ok_def msg_kind_def)
  have "MessageBytes ff (MNotify n) = Inr ?j"
    using p by (simp add: MessageBytes_def Interface_def marshal_template_def marshal_params)
  moreover have "decode_union ?j = Inr \<lparr>un_Id = None, un_Result = None, un_Error = None,
      un_Params = Some ?p, un_Method = ntf_Method n, un_TraceId = traceId n\<rparr>" (is "_ = Inr ?un")
    using p by (simp add: union_steps raw_params)
  moreover have "decodeParams ?un = Inr (ntf_Params n, ntf_paramsAreList n)"
    using p by (rule decodeParams_json) simp
  ultimately show ?thesis
    using n by (cases n) (simp add: message_of_json_eq message_of_union_def)
qed

lemma roundtrip_result:
  assumes "wire_message (MResult r)"
  shows "\<exists>j. MessageBytes ff (MResult r) = Inr j \<and> message_of_json j = Returns (Inr (MResult r))"
proof -
  let ?i = "id_json (res_Id r)" and ?v = "wire_json (res_Result r)"
  let ?j = "JObj ([(''jsonrpc'', JStr ''2.0''), (''id'', ?i), (''result'', ?v)]
              @ omit_empty ''traceid'' (traceId r))"
  from assms have r: "res_Id r = VNil \<or> wire_id (res_Id r)" "kind r = MKResult" "wire (res_Result r)"
    "\<not> (res_Id r = VNil \<and> res_Result r = VNil)"
    by (auto simp: wire_message_def kind_ok_def msg_kind_def)
  have "MessageBytes ff (MResult r) = Inr ?j"
    using r by (simp add: MessageBytes_def Interface_def marshal_template_def marshal_id marshal_wire)
  moreover have "decode_union ?j = Inr \<lparr>un_Id = raw_field ?i, un_Result = raw_field ?v, un_Error = None,
      un_Params = None, un_Method = [], un_TraceId = traceId r\<rparr>" (is "_ = Inr ?un")
    by (simp add: union_steps)
  moreover have "decodeId ?un = Inr (res_Id r)"
    using r(1) by (intro decodeId_json) auto
  ultimately show ?thesis
    using r by (cases r) (auto simp: message_of_json_eq message_of_union_def raw_field_def
        rawResultMessage_def wire_roundtrip id_json_def)
qed

lemma roundtrip_error:
  assumes "wire_message (MError e)"
  shows "\<exists>j. MessageBytes ff (MError e) = Inr j \<and> message_of_json j = Returns (Inr (MError e))"
proof -
  from assms obtain b where e: "err_Id e = VNil \<or> wire_id (err_Id e)" "kind e = MKError"
    "err_Error e = Some b" "in_int64 (Code b)" "wire (Data b)"
    by (auto simp: wire_message_def kind_ok_def msg_kind_def split: option.splits)
  obtain je where b: "marshal_rpc_error ff (Some b) = Inr je" "raw_field je = Some je"
    "decode_error je = Inr b"
    using error_roundtrip [OF e(4,5)] by blast
  let ?i = "id_json (err_Id e)"
  let ?j = "JObj ([(''jsonrpc'', JStr ''2.0''), (''id'', ?i), (''error'', je)]
              @ omit_empty ''traceid'' (traceId e))"
  have "MessageBytes ff (MError e) = Inr ?j"
    using e b by (simp add: MessageBytes_def Interface_def marshal_template_def marshal_id)
  moreover have "decode_union ?j = Inr \<lparr>un_Id = raw_field ?i, un_Result = None, un_Error = Some je,
      un_Params = None, un_Method = [], un_TraceId = traceId e\<rparr>" (is "_ = Inr ?un")
    using b by (simp add: union_steps)
  moreover have "decodeId ?un = Inr (err_Id e)"
    using e(1) by (intro decodeId_json) auto
  ultimately show ?thesis
    using e b by (cases e) (simp add: message_of_json_eq message_of_union_def rawErrorMessage_def)
qed

lemmas roundtrips = roundtrip_request roundtrip_notify roundtrip_result roundtrip_error

section \<open>Properties\<close>

text \<open>A message whose content JSON can carry is written without error and read
  back as the same message, its kind, id, trace id and the list or object form of its
  params included.\<close>

lemma decode_encode:
  "wire_message m \<Longrightarrow>
   \<exists>j. MessageBytes ff m = Inr j \<and> message_of_json j = Returns (Inr m)"
  by (cases m) (simp_all only: roundtrips)

text \<open>Decoding never panics, whatever the document, and leaves the rest of the
  input to the next call.\<close>

lemma decode_total:
  "\<exists>r. DecodeMessage (Inr j # rest) = (Returns r, rest)"
  using message_of_union_returns by (auto simp: DecodeMessage_def split: sum.split)

text \<open>C13: a decoded message is well formed: a request has a non-empty method and an
  integer (of 64 bits) or string id, a result has an id or a non-null value, an error has
  a body.\<close>

theorem decode_sound:
  assumes "message_of_json j = Returns (Inr m)"
  shows "decoded_ok m"
  using assms message_of_union_ok decode_union_ok
  by (auto simp: message_of_json_eq split: sum.splits)

theorem decode_sound_witness:
  "decoded_ok (MNotify \<lparr>kind = MKNotify, traceId = [], ntf_Method = ''is_notify'',
     ntf_Params = [VMap [(''name'', VString ''ok'')]], ntf_paramsAreList = False\<rparr>)"
  by (rule decode_sound [where j = "JObj [(''method'', JStr ''is_notify''),
        (''params'', JObj [(''name'', JStr ''ok'')])]"])
    (simp add: message_of_json_eq union_steps raw_field_def message_of_union_def decodeParams_def
      map_put_def)

text \<open>The kind of a decoded message is determined by which of the members
  \<open>error\<close>, \<open>result\<close>, \<open>method\<close> and \<open>id\<close> are present and not null, in that order.\<close>

lemma decode_kind:
  assumes "decode_union j = Inr un" and "message_of_json j = Returns (Inr m)"
  shows "msg_kind m = union_kind un \<and> \<not> (un_Error un \<noteq> None \<and> un_Result un \<noteq> None)"
  using assms message_of_union_kind [of un m]
  by (auto simp: message_of_json_eq elim: message_of_union_cases)

end
