(* ===== verification/Wired.thy ===== *)
theory Wired
  imports Parse
begin

text \<open>
  What a value is read back as, when it was written as JSON: numbers of every Go type come back as
  \<open>json.Number\<close>, maps with their keys in order, typed lists as lists. \<open>expressible\<close> are the values that JSON can
  express; a message of expressible values is written like the message \<open>wired_message\<close> that its reader gets.
\<close>

section \<open>The value a printed value is read as\<close>

fun wired :: "(rat \<Rightarrow> string) \<Rightarrow> gval \<Rightarrow> gval"
and wired_list :: "(rat \<Rightarrow> string) \<Rightarrow> gval list \<Rightarrow> gval list"
and wired_fields :: "(rat \<Rightarrow> string) \<Rightarrow> (string \<times> gval) list \<Rightarrow> (string \<times> gval) list"
and wired_maps :: "(rat \<Rightarrow> string) \<Rightarrow> (string \<times> gval) list list \<Rightarrow> gval list" where
  "wired ff (VInt i) = VNumber (show_int i)"
| "wired ff (VInt64 i) = VNumber (show_int i)"
| "wired ff (VFloat f) = (case f of FFin q \<Rightarrow> VNumber (ff q) | _ \<Rightarrow> VNil)"
| "wired ff (VNumber n) = VNumber (if n = [] then ''0'' else n)"
| "wired ff (VList vs) = VList (wired_list ff vs)"
| "wired ff (VMap m) = VMap (sort_key fst (wired_fields ff m))"
| "wired ff (VStrs ss) = VList (map VString ss)"
| "wired ff (VMaps ms) = VList (wired_maps ff ms)"
| "wired ff v = v"
| "wired_list ff [] = []"
| "wired_list ff (v # vs) = wired ff v # wired_list ff vs"
| "wired_fields ff [] = []"
| "wired_fields ff ((k, v) # m) = (k, wired ff v) # wired_fields ff m"
| "wired_maps ff [] = []"
| "wired_maps ff (m # ms) = VMap (sort_key fst (wired_fields ff m)) # wired_maps ff ms"

fun expressible :: "(rat \<Rightarrow> string) \<Rightarrow> gval \<Rightarrow> bool"
and expressible_list :: "(rat \<Rightarrow> string) \<Rightarrow> gval list \<Rightarrow> bool"
and expressible_fields :: "(rat \<Rightarrow> string) \<Rightarrow> (string \<times> gval) list \<Rightarrow> bool"
and expressible_maps :: "(rat \<Rightarrow> string) \<Rightarrow> (string \<times> gval) list list \<Rightarrow> bool" where
  "expressible ff (VFloat f) = (case f of FFin q \<Rightarrow> valid_number (ff q) | _ \<Rightarrow> False)"
| "expressible ff (VNumber n) = (n = [] \<or> valid_number n)"
| "expressible ff (VList vs) = expressible_list ff vs"
| "expressible ff (VMap m) = (go_map m \<and> expressible_fields ff m)"
| "expressible ff (VMaps ms) = expressible_maps ff ms"
| "expressible ff (VAnyMap _) = False"
| "expressible ff _ = True"
| "expressible_list ff [] = True"
| "expressible_list ff (v # vs) = (expressible ff v \<and> expressible_list ff vs)"
| "expressible_fields ff [] = True"
| "expressible_fields ff ((k, v) # m) = (expressible ff v \<and> expressible_fields ff m)"
| "expressible_maps ff [] = True"
| "expressible_maps ff (m # ms) = (go_map m \<and> expressible_fields ff m \<and> expressible_maps ff ms)"

lemma insort_key_snd:
  "insort_key fst (k, f x) (map (\<lambda>(k, x). (k, f x)) m) = map (\<lambda>(k, x). (k, f x)) (insort_key fst (k, x) m)"
  by (induction m) auto

lemma sort_key_snd:
  "sort_key fst (map (\<lambda>(k, x). (k, f x)) m) = map (\<lambda>(k, x). (k, f x)) (sort_key fst m)"
proof (induction m)
  case (Cons e m)
  then show ?case by (cases e) (simp add: insort_key_snd)
qed simp

lemmas sort_key_snd' = sort_key_snd [unfolded case_prod_unfold]

lemma wired_fields_map: "wired_fields ff m = map (\<lambda>(k, v). (k, wired ff v)) m"
  by (induction m) auto

lemma wire_members_map: "wire_members m = map (\<lambda>(k, v). (k, wire_json v)) m"
  by (induction m) auto

lemma wire_fields_iff: "wire_fields m \<longleftrightarrow> (\<forall>(k, v) \<in> set m. wire v)"
  by (induction m) auto

lemma show_nat_zero: "hd (show_nat n) = CHR ''0'' \<longleftrightarrow> n = 0"
proof (induction n rule: show_nat.induct)
  case (1 n)
  show ?case
  proof (cases "n < 10")
    case True
    moreover have "digit_char 0 = CHR ''0''" by code_simp
    moreover have "of_char (CHR ''0'') = (48 :: nat)" by simp
    ultimately have "digit_char n = CHR ''0'' \<longleftrightarrow> n = 0"
      using of_digit_char [of n] by (metis add_cancel_right_right)
    with True show ?thesis by (simp add: show_nat.simps [of n])
  next
    case False
    then show ?thesis using 1 by (simp add: show_nat.simps [of n] hd_append)
  qed
qed

lemma show_nat_0: "show_nat 0 = ''0''"
  by code_simp

lemma valid_digits:
  assumes "list_all is_digit (c # cs)" "c = CHR ''0'' \<Longrightarrow> cs = []"
  shows "skip_exp (skip_frac (if c = CHR ''0'' then cs else dropWhile is_digit cs)) = Some []"
proof -
  have "(if c = CHR ''0'' then cs else dropWhile is_digit cs) = []"
    using assms by (auto simp: list_all_iff dropWhile_eq_Nil_conv)
  then show ?thesis by (simp only: skip_exp_def skip_frac_def list.case)
qed

lemma valid_show_nat: "valid_number (show_nat n)" "valid_number (CHR ''-'' # show_nat n)"
proof -
  obtain c cs where s: "show_nat n = c # cs" "is_digit c" using show_nat_head by blast
  have d: "list_all is_digit (c # cs)" using show_nat_digits [of n] s by simp
  have z: "cs = []" if "c = CHR ''0''"
    using show_nat_zero [of n] s that show_nat_0 by auto
  have "c \<noteq> CHR ''-''" using s(2) by auto
  then show "valid_number (show_nat n)" "valid_number (CHR ''-'' # show_nat n)"
    using valid_digits [OF d z] s by (simp_all add: valid_number_def Let_def)
qed

lemma valid_show_int [simp]: "valid_number (show_int i)"
  by (simp add: show_int_def valid_show_nat)

lemma valid_zero [simp]: "valid_number ''0''"
  by code_simp

lemma marshal_fields_map: "marshal_fields ff m = map (\<lambda>(k, v). (k, marshal ff v)) m"
  by (induction m) auto

lemma wire_jsons_map: "wire_jsons vs = map wire_json vs"
  by (induction vs) auto

text \<open>A expressible value is marshalled to the document of its wired value.\<close>

lemma wired_sort:
  assumes "go_map m" "\<forall>(k, v) \<in> set m. wire (wired ff v) \<and> marshal ff v = Inr (wire_json (wired ff v))"
  shows "wire (VMap (sort_key fst (wired_fields ff m)))"
    "collect_fields (sort_key fst (marshal_fields ff m)) = Inr (wire_members (sort_key fst (wired_fields ff m)))"
proof -
  show "wire (VMap (sort_key fst (wired_fields ff m)))"
    using assms go_map_sort [of m]
    by (auto simp: wired_fields_map sort_key_snd' wire_fields_iff comp_def case_prod_unfold go_map_def)
  have "marshal_fields ff m = map (\<lambda>(k, v). (k, Inr (wire_json (wired ff v)))) m"
    using assms(2) by (auto simp: marshal_fields_map)
  then have "sort_key fst (marshal_fields ff m) =
      map (\<lambda>(k, v). (k, Inr (wire_json (wired ff v)))) (sort_key fst m)"
    by (simp add: sort_key_snd [of "\<lambda>v. Inr (wire_json (wired ff v))"])
  then show "collect_fields (sort_key fst (marshal_fields ff m)) =
      Inr (wire_members (sort_key fst (wired_fields ff m)))"
    by (simp add: wired_fields_map wire_members_map sort_key_snd) (simp add: case_prod_unfold)
qed

lemma marshal_wired:
  "expressible ff v \<Longrightarrow> wire (wired ff v) \<and> marshal ff v = Inr (wire_json (wired ff v))"
  "expressible_list ff vs \<Longrightarrow> wire_list (wired_list ff vs) \<and> collect (marshal_list ff vs) = Inr (wire_jsons (wired_list ff vs))"
  "expressible_fields ff m \<Longrightarrow> \<forall>(k, v) \<in> set m. wire (wired ff v) \<and> marshal ff v = Inr (wire_json (wired ff v))"
  "expressible_maps ff ms \<Longrightarrow> wire_list (wired_maps ff ms) \<and> collect (marshal_maps ff ms) = Inr (wire_jsons (wired_maps ff ms))"
proof (induction v and vs and m and ms rule: expressible_expressible_list_expressible_fields_expressible_maps.induct)
  case (4 ff m)
  then show ?case using wired_sort [of m ff] by simp
next
  case (13 ff m ms)
  then show ?case using wired_sort [of m ff] by simp
qed (auto split: f64.splits simp: wire_list_iff wire_jsons_map comp_def)

lemma map_of_wired:
  "go_map m \<Longrightarrow> map_of (sort_key fst (wired_fields ff m)) k = map_option (wired ff) (map_of m k)"
  by (simp add: wired_fields_map sort_key_snd map_of_map_snd)

section \<open>Messages\<close>

text \<open>The value of a message that is of any Go type.\<close>

definition msg_value :: "Message \<Rightarrow> gval" where
  "msg_value m = (case m of
      MRequest r \<Rightarrow> wire_params (req_Params r) (req_paramsAreList r)
    | MNotify n \<Rightarrow> wire_params (ntf_Params n) (ntf_paramsAreList n)
    | MResult r \<Rightarrow> res_Result r
    | MError e \<Rightarrow> (case err_Error e of None \<Rightarrow> VNil | Some b \<Rightarrow> Data b))"

text \<open>The params, and whether they are a list, that are read of a value.\<close>

definition params_read :: "gval \<Rightarrow> gval list" where
  "params_read v = (case v of VList vs \<Rightarrow> vs | _ \<Rightarrow> [v])"

definition wired_id :: "gval \<Rightarrow> gval" where
  "wired_id v = (case v of VInt64 i \<Rightarrow> VInt i | _ \<Rightarrow> v)"

definition wired_message :: "(rat \<Rightarrow> string) \<Rightarrow> Message \<Rightarrow> Message" where
  "wired_message ff m = (let v = wired ff (msg_value m) in case m of
      MRequest r \<Rightarrow> MRequest (r\<lparr>req_Id := wired_id (req_Id r), req_Params := params_read v, req_paramsAreList := is_VList v\<rparr>)
    | MNotify n \<Rightarrow> MNotify (n\<lparr>ntf_Params := params_read v, ntf_paramsAreList := is_VList v\<rparr>)
    | MResult r \<Rightarrow> MResult (r\<lparr>res_Id := wired_id (res_Id r), res_Result := v\<rparr>)
    | MError e \<Rightarrow> MError (e\<lparr>err_Id := wired_id (err_Id e), err_Error := map_option (\<lambda>b. b\<lparr>Data := v\<rparr>) (err_Error e)\<rparr>))"

lemma wire_params_read [simp]: "wire_params (params_read v) (is_VList v) = v"
  by (simp add: params_read_def is_VList_def wire_params_def split: gval.split)

lemma marshal_wired_id [simp]: "marshal ff (wired_id v) = marshal ff v"
  by (simp add: wired_id_def split: gval.split)

lemma marshal_again: "expressible ff v \<Longrightarrow> marshal ff (wired ff v) = marshal ff v"
  using marshal_wired(1) [of ff v] marshal_wire(1) [of "wired ff v" ff] by simp

lemma wired_nil: "expressible ff v \<Longrightarrow> wired ff v = VNil \<longleftrightarrow> v = VNil"
  by (cases v) (auto split: f64.splits)

text \<open>A message is written like the one it is read as.\<close>

lemma wired_bytes:
  assumes "expressible ff (msg_value m)"
  shows "MessageBytes ff (wired_message ff m) = MessageBytes ff m"
  using marshal_again [OF assms] wired_nil [OF assms]
  by (cases m) (auto simp: wired_message_def msg_value_def MessageBytes_def Interface_def marshal_template_def
      marshal_rpc_error_def Let_def split: option.split)

lemma content_trace [simp]: "msg_value (SetTraceId t m) = msg_value m"
  by (cases m) (simp_all add: msg_value_def SetTraceId_def)

lemma wired_trace [simp]: "wired_message ff (SetTraceId t m) = SetTraceId t (wired_message ff m)"
  unfolding wired_message_def content_trace Let_def by (cases m) (simp_all add: SetTraceId_def)

lemma content_untraced [simp]: "msg_value (MRequest (q\<lparr>traceId := t\<rparr>)) = msg_value (MRequest q)"
  by (simp add: msg_value_def)

text \<open>The request that a server reads.\<close>

definition wired_request :: "(rat \<Rightarrow> string) \<Rightarrow> RequestMessage \<Rightarrow> RequestMessage" where
  "wired_request ff q = (let v = wired ff (wire_params (req_Params q) (req_paramsAreList q))
     in q\<lparr>req_Id := wired_id (req_Id q), req_Params := params_read v, req_paramsAreList := is_VList v\<rparr>)"

lemma wired_MRequest: "wired_message ff (MRequest q) = MRequest (wired_request ff q)"
  by (simp add: wired_message_def wired_request_def msg_value_def Let_def)

lemma wired_request_simps [simp]:
  "req_Method (wired_request ff q) = req_Method q" "traceId (wired_request ff q) = traceId q"
  "kind (wired_request ff q) = kind q" "req_Id (wired_request ff q) = wired_id (req_Id q)"
  "wired_request ff (q\<lparr>traceId := t\<rparr>) = (wired_request ff q)\<lparr>traceId := t\<rparr>"
  by (simp_all add: wired_request_def Let_def)

lemma wired_id_twice [simp]: "wired_id (wired_id v) = wired_id v"
  by (simp add: wired_id_def split: gval.split)

lemma wired_MResult:
  "wired_message ff (MResult \<lparr>kind = k, traceId = t, res_Id = i, res_Result = x\<rparr>) =
     MResult \<lparr>kind = k, traceId = t, res_Id = wired_id i, res_Result = wired ff x\<rparr>"
  by (simp add: wired_message_def msg_value_def Let_def)

text \<open>Nothing changes on the way when the values are wire values already.\<close>

lemma wired_wire:
  "wire v \<Longrightarrow> wired ff v = v \<and> expressible ff v"
  "wire_list vs \<Longrightarrow> wired_list ff vs = vs \<and> expressible_list ff vs"
  "wire_fields m \<Longrightarrow> wired_fields ff m = m \<and> expressible_fields ff m"
  by (induction v and vs and m rule: wire_wire_list_wire_fields.induct)
    (auto simp: valid_number_ne go_map_def sort_key_id_if_sorted)

lemma content_wire:
  assumes "wire_message m"
  shows "wire (msg_value m)"
  using assms by (cases m) (auto simp: wire_message_def msg_value_def wire_params_def wire_params_ok_def split: option.splits list.splits)

lemma wired_same:
  assumes "wire_message m"
  shows "wired_message ff m = m" "expressible ff (msg_value m)"
proof -
  have c: "wired ff (msg_value m) = msg_value m" "expressible ff (msg_value m)"
    using wired_wire(1) [OF content_wire [OF assms]] by auto
  have w: "v = VNil \<or> wire_id v \<Longrightarrow> wired_id v = v" for v
    by (auto simp: wire_id_def wired_id_def split: gval.splits)
  have p: "wire_params_ok ps il \<Longrightarrow> params_read (wire_params ps il) = ps \<and> is_VList (wire_params ps il) = il" for ps il
    by (auto simp: wire_params_ok_def wire_params_def params_read_def is_VList_def split: list.splits gval.splits)
  show "wired_message ff m = m"
    unfolding wired_message_def c(1) Let_def
    using assms w p by (cases m) (auto simp: wire_message_def msg_value_def split: option.splits)
  show "expressible ff (msg_value m)" by (rule c)
qed

end
