(* ===== verification/Schema_Roundtrip.thy ===== *)
theory Schema_Roundtrip
  imports Schema_Equal Schema_Build Wired
begin

text \<open>
  Printing a schema with \<open>SchemaToString\<close> and building it again with \<open>BuildBytes\<close>. On the
  schemas whose every field \<open>Map\<close> writes, the result is the same schema with its
  properties in key order, so the code considers it equal to the original. Other schemas
  lose fields on the way.
\<close>

section \<open>Schemas that lose nothing\<close>

text \<open>The assumption on the formatting of a limit: its text is a JSON number that reads back.\<close>

definition reads_back :: "(rat \<Rightarrow> string) \<Rightarrow> rat \<Rightarrow> bool" where
  "reads_back ff q = (valid_number (ff q) \<and> ParseFloat (ff q) = (FFin q, None))"

definition printed_limits :: "('n \<Rightarrow> bool) \<Rightarrow> 'n limits \<Rightarrow> bool" where
  "printed_limits P l =
     ((case Minimum l of None \<Rightarrow> ExclusiveMinimum l = None | Some x \<Rightarrow> P x) \<and>
      (case Maximum l of None \<Rightarrow> ExclusiveMaximum l = None | Some x \<Rightarrow> P x))"

text \<open>Property names that \<open>guess_type\<close> does not mistake for the attributes of a type.\<close>

definition names_ok :: "string list \<Rightarrow> bool" where
  "names_ok ns = (''type'' \<in> set ns \<or>
     (\<forall>k \<in> {''params'', ''properties'', ''anyOf'', ''allOf'', ''not''}. k \<notin> set ns))"

fun lossless :: "(rat \<Rightarrow> string) \<Rightarrow> schema \<Rightarrow> bool" where
  "lossless ff (NumberSchema _ l) =
     printed_limits (\<lambda>x. case x of FFin q \<Rightarrow> reads_back ff q | _ \<Rightarrow> False) l"
| "lossless ff (IntegerSchema _ l) = printed_limits in_int64 l"
| "lossless ff (StringSchema _ mx mn) = (mx = None \<and> mn = None)"
| "lossless ff (AnyOfSchema _ cs) = (\<forall>c \<in> set cs. lossless ff c)"
| "lossless ff (AllOfSchema _ cs) = (\<forall>c \<in> set cs. lossless ff c)"
| "lossless ff (NotSchema _ c) = lossless ff c"
| "lossless ff (ListSchema _ c mn mx) = (lossless ff c \<and> mn = None \<and> mx = None)"
| "lossless ff (TupleSchema _ cs a) = ((\<forall>c \<in> set cs. lossless ff c) \<and> a = None)"
| "lossless ff (ObjectSchema _ ps rs a) =
     (go_map ps \<and> go_map rs \<and> names_ok (map fst ps) \<and>
      (\<forall>(r, b) \<in> set rs. b \<and> r \<in> fst ` set ps) \<and>
      (\<forall>(p, s) \<in> set ps. lossless ff s) \<and> (\<forall>s \<in> set_option a. lossless ff s))"
| "lossless ff (MethodSchema _ ps r a) =
     ((\<forall>c \<in> set ps. lossless ff c) \<and> r \<noteq> None \<and> (\<forall>s \<in> set_option r. lossless ff s) \<and>
      (\<forall>s \<in> set_option a. lossless ff s))"
| "lossless ff _ = True"

text \<open>The schema that comes back: the properties of objects in key order.\<close>

fun normal :: "schema \<Rightarrow> schema" where
  "normal (AnyOfSchema m cs) = AnyOfSchema m (map normal cs)"
| "normal (AllOfSchema m cs) = AllOfSchema m (map normal cs)"
| "normal (NotSchema m c) = NotSchema m (normal c)"
| "normal (ListSchema m c a b) = ListSchema m (normal c) a b"
| "normal (TupleSchema m cs a) = TupleSchema m (map normal cs) (map_option normal a)"
| "normal (ObjectSchema m ps rs a) =
     ObjectSchema m (sort_key fst (map (\<lambda>(p, s). (p, normal s)) ps)) rs (map_option normal a)"
| "normal (MethodSchema m ps r a) = MethodSchema m (map normal ps) (map_option normal r) (map_option normal a)"
| "normal s = s"

section \<open>Looking up what Map writes\<close>

named_theorems written \<open>the entries of a printed schema\<close>

lemma go_map_rebuild [simp]: "go_map (rebuildType m t)"
  by (simp add: rebuildType_def Let_def)

lemma go_map_limits [simp]: "go_map tp \<Longrightarrow> go_map (put_limits f l tp)"
  by (simp add: put_limits_def Let_def split: option.split)

lemma go_map_Map [simp]: "go_map (Map s)"
  by (cases s) (simp_all add: Let_def split: option.split)

lemma map_of_rebuild [written]:
  "map_of (rebuildType m t) k =
     (if k = ''type'' then Some (VString t)
      else if k = ''name'' \<and> mx_name m \<noteq> [] then Some (VString (mx_name m))
      else if k = ''description'' \<and> mx_description m \<noteq> [] then Some (VString (mx_description m))
      else None)"
  by (auto simp: rebuildType_def Let_def)

lemma map_of_limits [written]:
  "map_of (put_limits f l tp) k =
     (if k = ''maximum'' \<and> Maximum l \<noteq> None then map_option f (Maximum l)
      else if k = ''minimum'' \<and> Minimum l \<noteq> None then map_option f (Minimum l)
      else if k = ''exclusiveMaximum'' \<and> Maximum l \<noteq> None \<and> ExclusiveMaximum l \<noteq> None
        then map_option VBool (ExclusiveMaximum l)
      else if k = ''exclusiveMinimum'' \<and> Minimum l \<noteq> None \<and> ExclusiveMinimum l \<noteq> None
        then map_option VBool (ExclusiveMinimum l)
      else map_of tp k)"
  by (auto simp: put_limits_def Let_def split: option.split)

lemma map_of_Map_common:
  "map_of (Map s) ''type'' = Some (VString (Type s))"
  "map_of (Map s) ''name'' = (if mx_name (mixin s) = [] then None else Some (VString (mx_name (mixin s))))"
  "map_of (Map s) ''description'' =
     (if mx_description (mixin s) = [] then None else Some (VString (mx_description (mixin s))))"
  by (cases s; simp add: written Let_def split: option.split)+

definition printed :: "(rat \<Rightarrow> string) \<Rightarrow> schema \<Rightarrow> (string \<times> gval) list" where
  "printed ff s = sort_key fst (wired_fields ff (Map s))"

lemma wired_Map [simp]: "wired ff (VMap (Map s)) = VMap (printed ff s)"
  by (simp add: printed_def)

declare wired.simps(6) [simp del]

lemma map_of_printed: "map_of (printed ff s) k = map_option (wired ff) (map_of (Map s) k)"
  by (simp add: printed_def map_of_wired)

lemma convertTypeMap_printed [simp]: "convertTypeMap (VMap (printed ff s)) = Some (printed ff s)"
  by (simp add: convertTypeMap_def guess_type_def map_has_def map_of_printed map_of_Map_common)

lemma wired_maps_printed: "wired_maps ff (Maps cs) = map (\<lambda>c. VMap (printed ff c)) cs"
  by (induction cs) (simp_all add: printed_def)

lemma wired_props_printed:
  "sort_key fst (wired_fields ff (MapProps ps)) = map (\<lambda>(p, s). (p, VMap (printed ff s))) (sort_key fst ps)"
proof -
  have "wired_fields ff (MapProps ps) = map (\<lambda>(p, s). (p, VMap (printed ff s))) ps"
    by (induction ps) (auto simp: printed_def)
  then show ?thesis by (simp add: sort_key_snd)
qed

lemma mixin_printed:
  assumes "mixin t = no_mixin"
  shows "buildMixin (printed ff s) p t = Inr (map_mixin (\<lambda>_. mixin s) t)"
proof -
  obtain n d where "mixin s = \<lparr>mx_name = n, mx_description = d\<rparr>" by (cases "mixin s")
  then show ?thesis
    using assms by (cases t) (auto simp: buildMixin_def map_of_printed map_of_Map_common
        SetName_def SetDescription_def no_mixin_def)
qed

section \<open>Printing and building\<close>

lemma expressible_put [simp]:
  "expressible_fields ff m \<Longrightarrow> expressible ff v \<Longrightarrow> expressible_fields ff (map_put k v m)"
  by (induction m) (auto simp: map_put_def)

lemma expressible_rebuild [simp]: "expressible_fields ff (rebuildType m t)"
  by (simp add: rebuildType_def Let_def)

lemma expressible_limits:
  "expressible_fields ff tp \<Longrightarrow> printed_limits (\<lambda>x. expressible ff (f x)) l \<Longrightarrow> expressible_fields ff (put_limits f l tp)"
  by (auto simp: put_limits_def printed_limits_def Let_def split: option.split)

lemma printed_limits_mono: "printed_limits P l \<Longrightarrow> (\<And>x. P x \<Longrightarrow> Q x) \<Longrightarrow> printed_limits Q l"
  by (auto simp: printed_limits_def split: option.splits)

lemma go_map_MapProps [simp]: "go_map (MapProps ps) \<longleftrightarrow> go_map ps"
proof -
  have "map fst (MapProps ps) = map fst ps" by (induction ps) auto
  then show ?thesis by (simp add: go_map_def)
qed

lemma expressible_Map:
  "lossless ff s \<Longrightarrow> expressible_fields ff (Map s)"
  "\<forall>c \<in> set cs. lossless ff c \<Longrightarrow> expressible_maps ff (Maps cs)"
  "\<forall>(p, c) \<in> set ps. lossless ff c \<Longrightarrow> expressible_fields ff (MapProps ps)"
proof (induction s and cs and ps rule: Map_Maps_MapProps.induct)
  case (4 m l)
  then show ?case
    by (auto intro!: expressible_limits elim!: printed_limits_mono simp: reads_back_def split: f64.splits)
next
  case (5 m l)
  then show ?case by (auto intro!: expressible_limits elim!: printed_limits_mono)
qed (auto simp: Let_def split: option.split)

lemma marshal_Map:
  assumes "lossless ff s"
  shows "marshal ff (VMap (Map s)) = Inr (wire_json (VMap (printed ff s)))" "wire (VMap (printed ff s))"
proof -
  have "expressible ff (VMap (Map s))" using assms by (simp add: expressible_Map)
  from marshal_wired(1) [OF this]
  show "marshal ff (VMap (Map s)) = Inr (wire_json (VMap (printed ff s)))" "wire (VMap (printed ff s))"
    by simp_all
qed

lemma build_each_map:
  "(\<And>i c. c \<in> set cs \<Longrightarrow> f i (g c) = Inr (h c)) \<Longrightarrow> build_each f n (map g cs) = Inr (map h cs)"
  by (induction cs arbitrary: n) auto

lemma build_props_map:
  "(\<And>p c. (p, c) \<in> set ps \<Longrightarrow> f p (g c) = Inr (h c)) \<Longrightarrow>
   build_props f (map (\<lambda>(p, c). (p, g c)) ps) = Inr (map (\<lambda>(p, c). (p, h c)) ps)"
  by (induction ps) auto

lemma build_requires_all:
  "set rs \<subseteq> set props \<Longrightarrow> distinct (map fst acc @ rs) \<Longrightarrow>
   build_requires props p rs acc = Inr (acc @ map (\<lambda>r. (r, True)) rs)"
  by (induction rs arbitrary: acc) (auto simp: map_put_new image_iff)

lemma read_int: "in_int64 n \<Longrightarrow> map_of node k = Some (VNumber (show_int n)) \<Longrightarrow> convertAttrInt node k False = Some n"
  by (simp add: convertAttrInt_def ParseInt_show_int)

text \<open>The attributes of a printed schema, read by the builder.\<close>

lemma all_some_maps: "(\<And>x. x \<in> set xs \<Longrightarrow> f (g x) = Some (h x)) \<Longrightarrow> all_some f (map g xs) = Some (map h xs)"
  by (induction xs) auto

lemma read_children:
  "map_of (Map s) k = Some (VMaps (Maps cs)) \<Longrightarrow>
   convertAttrListOfMap (printed ff s) k False = Some (map (printed ff) cs)"
  by (simp add: convertAttrListOfMap_def map_of_printed wired_maps_printed all_some_maps)

lemma read_child:
  "map_of (Map s) k = Some (VMap (Map c)) \<Longrightarrow> convertAttrMap (printed ff s) k opt = Some (printed ff c)"
  by (simp add: convertAttrMap_def map_of_printed)

lemma read_additional:
  "map_of (Map s) k = map_option (\<lambda>a. VMap (Map a)) add \<Longrightarrow>
   (\<And>a q. add = Some a \<Longrightarrow> rec (printed ff a) q = Inr (f a)) \<Longrightarrow>
   build_additional rec (printed ff s) k p = Inr (map_option f add)"
  by (cases add) (auto simp: build_additional_def map_of_printed buildNode_def)

lemma read_limits:
  assumes "map_of (Map s) ''minimum'' = map_option f (Minimum l)"
    "map_of (Map s) ''maximum'' = map_option f (Maximum l)"
    "map_of (Map s) ''exclusiveMinimum'' = map_option VBool (ExclusiveMinimum l)"
    "map_of (Map s) ''exclusiveMaximum'' = map_option VBool (ExclusiveMaximum l)"
  shows "convertAttrBool (printed ff s) ''exclusiveMinimum'' False = ExclusiveMinimum l"
    "convertAttrBool (printed ff s) ''exclusiveMaximum'' False = ExclusiveMaximum l"
    "map_of (printed ff s) ''minimum'' = map_option (\<lambda>x. wired ff (f x)) (Minimum l)"
    "map_of (printed ff s) ''maximum'' = map_option (\<lambda>x. wired ff (f x)) (Maximum l)"
  using assms
  by (auto simp: convertAttrBool_def map_of_printed option.map_comp comp_def split: option.split)

lemma build_number:
  assumes "lossless ff (NumberSchema m l)"
  shows "buildNumberSchema (printed ff (NumberSchema m l)) = NumberSchema no_mixin l"
proof -
  have P: "printed_limits (\<lambda>x. case x of FFin q \<Rightarrow> reads_back ff q | _ \<Rightarrow> False) l"
    using assms by simp
  have M: "map_of (Map (NumberSchema m l)) ''minimum'' = map_option VFloat (Minimum l)"
    "map_of (Map (NumberSchema m l)) ''maximum'' = map_option VFloat (Maximum l)"
    "map_of (Map (NumberSchema m l)) ''exclusiveMinimum'' = map_option VBool (ExclusiveMinimum l)"
    "map_of (Map (NumberSchema m l)) ''exclusiveMaximum'' = map_option VBool (ExclusiveMaximum l)"
    using P by (auto simp: written printed_limits_def split: option.splits)
  show ?thesis
    using P unfolding buildNumberSchema_def convertAttrFloat_def read_limits [OF M]
    by (cases l) (auto simp: printed_limits_def reads_back_def split: option.splits f64.splits)
qed

lemma build_integer:
  assumes "lossless ff (IntegerSchema m l)"
  shows "buildIntegerSchema (printed ff (IntegerSchema m l)) = IntegerSchema no_mixin l"
proof -
  have P: "printed_limits in_int64 l"
    using assms by simp
  have M: "map_of (Map (IntegerSchema m l)) ''minimum'' = map_option VInt64 (Minimum l)"
    "map_of (Map (IntegerSchema m l)) ''maximum'' = map_option VInt64 (Maximum l)"
    "map_of (Map (IntegerSchema m l)) ''exclusiveMinimum'' = map_option VBool (ExclusiveMinimum l)"
    "map_of (Map (IntegerSchema m l)) ''exclusiveMaximum'' = map_option VBool (ExclusiveMaximum l)"
    using P by (auto simp: written printed_limits_def split: option.splits)
  show ?thesis
    using P unfolding buildIntegerSchema_def convertAttrInt_def read_limits [OF M]
    by (cases l) (auto simp: printed_limits_def ParseInt_show_int split: option.splits)
qed

lemma build_object:
  assumes L: "lossless ff (ObjectSchema m ps rs a)"
    and ps: "\<And>p s q. (p, s) \<in> set ps \<Longrightarrow> rec (printed ff s) q = Inr (normal s)"
    and add: "\<And>s q. a = Some s \<Longrightarrow> rec (printed ff s) q = Inr (normal s)"
  shows "buildObjectSchema rec (printed ff (ObjectSchema m ps rs a)) p =
    Inr (ObjectSchema no_mixin (sort_key fst (map (\<lambda>(p, s). (p, normal s)) ps)) rs (map_option normal a))"
proof -
  let ?s = "ObjectSchema m ps rs a"
  let ?props = "sort_key fst ps"
  have M: "map_of (Map ?s) ''properties'' = Some (VMap (MapProps ps))"
    "map_of (Map ?s) ''requires'' = Some (VStrs (map fst rs))"
    "map_of (Map ?s) ''additionalProperties'' = map_option (\<lambda>a. VMap (Map a)) a"
    by (auto simp: Let_def written split: option.split)
  have "guess_type (map (\<lambda>(p, s). (p, VMap (printed ff s))) ?props) =
      map (\<lambda>(p, s). (p, VMap (printed ff s))) ?props"
    using L by (auto simp: guess_type_def names_ok_def map_has_iff image_image case_prod_unfold)
  then have "convertAttrMapOfMap (printed ff ?s) ''properties'' True =
      Some (map (\<lambda>(p, s). (p, printed ff s)) ?props)"
    by (simp add: convertAttrMapOfMap_def convertAttrMap_def map_of_printed M wired.simps(6) wired_props_printed
        convertTypeMap_def [of "VMap (map _ _)"] case_prod_unfold all_some_maps del: Map.simps)
  moreover have "build_props (\<lambda>p' c. rec c (p @ [''.properties'', ''.'' @ p'])) (map (\<lambda>(p, s). (p, printed ff s)) ?props) =
      Inr (map (\<lambda>(p, s). (p, normal s)) ?props)"
    by (rule build_props_map) (simp add: ps)
  moreover have "convertAttrListOfString (printed ff ?s) ''requires'' True = Some (map fst rs)"
    by (simp add: convertAttrListOfString_def map_of_printed M all_some_maps del: Map.simps)
  moreover have "build_requires (map fst (map (\<lambda>(p, s). (p, normal s)) ?props)) p (map fst rs) [] = Inr rs"
  proof -
    have "map (\<lambda>r. (r, True)) (map fst rs) = rs"
      using L by (intro nth_equalityI) (auto simp: case_prod_unfold prod_eq_iff)
    then show ?thesis
      using L by (subst build_requires_all) (auto simp: go_map_def image_image case_prod_unfold)
  qed
  moreover have "build_additional rec (printed ff ?s) ''additionalProperties'' p = Inr (map_option normal a)"
    by (rule read_additional) (simp_all only: M add)
  ultimately show ?thesis
    by (simp add: buildObjectSchema_def sort_key_snd)
qed

lemma build_of_type:
  assumes "map_of (printed ff s) ''type'' = Some (VString t)"
    and "(if t = ''number'' then Inr (buildNumberSchema (printed ff s))
       else if t = ''integer'' then Inr (buildIntegerSchema (printed ff s))
       else if t = ''bool'' then Inr (BoolSchema no_mixin)
       else if t = ''any'' then Inr (AnySchema no_mixin)
       else if t = ''null'' then Inr (NullSchema no_mixin)
       else if t = ''string'' then Inr (buildStringSchema (printed ff s))
       else if t = ''anyOf'' then buildAnyOfSchema buildNodeMap (printed ff s) p
       else if t = ''allOf'' then buildAllOfSchema buildNodeMap (printed ff s) p
       else if t = ''not'' then buildNotSchema buildNodeMap (printed ff s) p
       else if t = ''list'' then buildListSchema buildNodeMap (printed ff s) p
       else if t = ''object'' then buildObjectSchema buildNodeMap (printed ff s) p
       else if t = ''method'' then buildMethodSchema buildNodeMap (printed ff s) p
       else Inl (SchemaBuildError ''unknown type'' p)) = Inr u"
    and "mixin u = no_mixin" "map_mixin (\<lambda>_. mixin s) u = n"
  shows "buildNodeMap (printed ff s) p = Inr n"
proof -
  have "buildNodeMap (printed ff s) p = sbind (Inr u) (\<lambda>u. buildMixin (printed ff s) p u)"
    by (subst buildNodeMap.simps) (simp only: assms(1,2) option.case gval.inject)
  then show ?thesis using assms(3,4) by (simp add: mixin_printed)
qed

lemma type_printed [simp]: "map_of (printed ff s) ''type'' = Some (VString (Type s))"
  by (simp add: map_of_printed map_of_Map_common)

lemma build_printed: "lossless ff s \<Longrightarrow> buildNodeMap (printed ff s) p = Inr (normal s)"
proof (induction s arbitrary: p)
  case (NumberSchema m l)
  then show ?case by (intro build_of_type [OF type_printed, where u = "NumberSchema no_mixin l"]) (simp_all add: build_number)
next
  case (IntegerSchema m l)
  then show ?case by (intro build_of_type [OF type_printed, where u = "IntegerSchema no_mixin l"]) (simp_all add: build_integer)
next
  case (StringSchema m a b)
  then have "buildStringSchema (printed ff (StringSchema m a b)) = StringSchema no_mixin a b"
    by (simp add: buildStringSchema_def bound_attr_def convertAttrInt_def map_of_printed written)
  then show ?case by (intro build_of_type [OF type_printed]) simp+
next
  case (AnyOfSchema m cs)
  have "convertAttrListOfMap (printed ff (AnyOfSchema m cs)) ''anyOf'' False = Some (map (printed ff) cs)"
    by (rule read_children) simp
  then have "buildAnyOfSchema buildNodeMap (printed ff (AnyOfSchema m cs)) p = Inr (AnyOfSchema no_mixin (map normal cs))"
    using AnyOfSchema by (simp add: buildAnyOfSchema_def build_each_map)
  then show ?case by (intro build_of_type [OF type_printed]) simp+
next
  case (AllOfSchema m cs)
  have "convertAttrListOfMap (printed ff (AllOfSchema m cs)) ''allOf'' False = Some (map (printed ff) cs)"
    by (rule read_children) simp
  then have "buildAllOfSchema buildNodeMap (printed ff (AllOfSchema m cs)) p = Inr (AllOfSchema no_mixin (map normal cs))"
    using AllOfSchema by (simp add: buildAllOfSchema_def build_each_map)
  then show ?case by (intro build_of_type [OF type_printed]) simp+
next
  case (NotSchema m c)
  have "convertAttrMap (printed ff (NotSchema m c)) ''not'' False = Some (printed ff c)"
    by (rule read_child) simp
  then have "buildNotSchema buildNodeMap (printed ff (NotSchema m c)) p = Inr (NotSchema no_mixin (normal c))"
    using NotSchema by (simp add: buildNotSchema_def)
  then show ?case by (intro build_of_type [OF type_printed]) simp+
next
  case (ListSchema m c mn mx)
  have "map_of (printed ff (ListSchema m c mn mx)) ''items'' = Some (VMap (printed ff c))"
    "bound_attr (printed ff (ListSchema m c mn mx)) ''minItems'' = None"
    "bound_attr (printed ff (ListSchema m c mn mx)) ''maxItems'' = None"
    by (simp_all add: map_of_printed bound_attr_def convertAttrInt_def written)
  then have "buildListSchema buildNodeMap (printed ff (ListSchema m c mn mx)) p = Inr (ListSchema no_mixin (normal c) mn mx)"
    using ListSchema by (simp add: buildListSchema_def buildNode_def)
  then show ?case by (intro build_of_type [OF type_printed]) simp+
next
  case (TupleSchema m cs a)
  have "map_of (printed ff (TupleSchema m cs a)) ''items'' = Some (VList (map (\<lambda>c. VMap (printed ff c)) cs))"
    "build_additional rec (printed ff (TupleSchema m cs a)) ''additionalItems'' q = Inr None" for rec q
    by (simp_all add: map_of_printed wired_maps_printed build_additional_def written)
  then have "buildListSchema buildNodeMap (printed ff (TupleSchema m cs a)) p =
      Inr (TupleSchema no_mixin (map normal cs) (map_option normal a))"
    using TupleSchema by (simp add: buildListSchema_def buildNode_def build_each_map)
  then show ?case by (intro build_of_type [OF type_printed]) simp+
next
  case (ObjectSchema m ps rs a)
  have "buildNodeMap (printed ff s) q = Inr (normal s)" if "(x, s) \<in> set ps" for x s q
    using ObjectSchema.IH(1) [of "(x, s)" s] ObjectSchema.prems that by (force simp: snds.simps)
  moreover have "buildNodeMap (printed ff s) q = Inr (normal s)" if "a = Some s" for s q
    using ObjectSchema.IH(2) ObjectSchema.prems that by simp
  ultimately show ?case
    by (intro build_of_type [OF type_printed]) (simp add: build_object [OF ObjectSchema.prems])+
next
  case (MethodSchema m ps r a)
  let ?s = "MethodSchema m ps r a"
  obtain t where r: "r = Some t" using MethodSchema.prems by auto
  have "convertAttrListOfMap (printed ff ?s) ''params'' False = Some (map (printed ff) ps)"
    by (rule read_children) (simp add: Let_def split: option.split)
  moreover have "convertAttrMap (printed ff ?s) ''returns'' True = Some (printed ff t)"
    by (rule read_child) (simp add: r Let_def split: option.split)
  moreover have "build_additional buildNodeMap (printed ff ?s) ''additionalParams'' p = Inr (map_option normal a)"
    by (rule read_additional) (use MethodSchema in \<open>auto simp: r Let_def written split: option.split\<close>)
  moreover have "or_any (printed ff t) = printed ff t"
    by (simp add: or_any_def map_has_def)
  ultimately have "buildMethodSchema buildNodeMap (printed ff ?s) p =
      Inr (MethodSchema no_mixin (map normal ps) (map_option normal r) (map_option normal a))"
    using MethodSchema by (simp add: r buildMethodSchema_def build_each_map)
  then show ?case by (intro build_of_type [OF type_printed]) simp+
qed (auto intro!: build_of_type [OF type_printed])

lemma sort_map_sort:
  "sort_key fst (map (\<lambda>(k, x). (k, f x)) (sort_key fst m)) = sort_key fst (map (\<lambda>(k, x). (k, f x)) m)"
  by (simp add: sort_key_snd sort_key_id_if_sorted [of fst "sort_key fst m"])

lemma canon_normal: "canon (normal s) = canon s"
proof (induction s)
  case (ObjectSchema m ps rs a)
  have "canon (normal s) = canon s" if "(x, s) \<in> set ps" for x s
    using ObjectSchema.IH(1) [of "(x, s)" s] that by (force simp: snds.simps)
  then have eq: "map (\<lambda>(p, s). (p, canon s)) (map (\<lambda>(p, s). (p, normal s)) ps) = map (\<lambda>(p, s). (p, canon s)) ps"
    by auto
  show ?case
    using ObjectSchema.IH(2) by (cases a) (simp_all only: canon.simps normal.simps sort_map_sort eq option.map option.set_intros)
next
  case (TupleSchema m cs a)
  then show ?case by (cases a) simp_all
next
  case (MethodSchema m cs r a)
  then show ?case by (cases a; cases r) simp_all
qed simp_all

lemma lossless_ok: "lossless ff s \<Longrightarrow> schema_ok s \<and> schema_ok (normal s)"
proof (induction s)
  case (NumberSchema m l)
  then show ?case by (auto simp: limits_ok_def printed_limits_def split: option.splits f64.splits)
next
  case (ObjectSchema m ps rs a)
  have "schema_ok s \<and> schema_ok (normal s)" if "(x, s) \<in> set ps" for x s
    using ObjectSchema.IH(1) [of "(x, s)" s] ObjectSchema.prems that by (force simp: snds.simps)
  then show ?case
    using ObjectSchema.IH(2) ObjectSchema.prems by (auto simp: option.set_map)
qed (auto simp: option.set_map)

lemma rebuild_printed:
  assumes "lossless ff s"
  shows "\<exists>j. SchemaToString ff s = Returns j \<and> BuildBytes j = Inr (normal s)"
proof -
  have "to_value (wire_json (VMap (printed ff s))) = VMap (printed ff s)"
    using marshal_Map(2) [OF assms] by (rule wire_roundtrip)
  then have "BuildBytes (wire_json (VMap (printed ff s))) = Inr (normal s)"
    by (simp add: BuildBytes_def Build_def buildNode_def build_printed [OF assms])
  moreover have "SchemaToString ff s = Returns (wire_json (VMap (printed ff s)))"
    by (simp add: SchemaToString_def marshal_Map(1) [OF assms] del: marshal.simps)
  ultimately show ?thesis by blast
qed



text \<open>Printing drops the length limits of a string schema and the item limits of a list
  schema: what is built from the printed document has none, whatever they were.\<close>

lemma bounds_lost:
  "\<exists>j j'. SchemaToString ff (StringSchema m a b) = Returns j \<and> BuildBytes j = Inr (StringSchema m None None) \<and>
     SchemaToString ff (ListSchema m (StringSchema m a b) mn mx) = Returns j' \<and>
     BuildBytes j' = Inr (ListSchema m (StringSchema m None None) None None)"
proof -
  have "SchemaToString ff (StringSchema m a b) = SchemaToString ff (StringSchema m None None)"
    "SchemaToString ff (ListSchema m (StringSchema m a b) mn mx) =
     SchemaToString ff (ListSchema m (StringSchema m None None) None None)"
    by (simp_all add: SchemaToString_def)
  then show ?thesis
    using rebuild_printed [of ff "StringSchema m None None"]
      rebuild_printed [of ff "ListSchema m (StringSchema m None None) None None"] by simp
qed

end
