(* ===== verification/Actor.thy ===== *)
theory Actor
  imports Messages Schema_Validate
begin

text \<open>
  The request dispatcher of \<^verbatim>\<open>http/request.go\<close>. A callback is a function on the state \<open>'w\<close>
  of the rest of the program (what the closures of the handlers capture): it returns the new
  state and either a result and an error, or the value it panics with. An actor is a tree:
  its children are values, not pointers, so that the cyclic and shared actors \<open>AddChild\<close>
  would allow are not modelled. The \<open>context\<close> of a request is not modelled.
\<close>

section \<open>Errors\<close>

text \<open>The dynamic types the code tells apart with \<open>errors.As\<close>; \<open>EWrap\<close> is \<open>errors.Wrap\<close>, and
  \<open>errors.As\<close> looks along its chain.\<close>

record http_response =
  StatusCode :: int
  rHeader :: "(string \<times> string list) list"

datatype goerr =
    ERpc RPCError
  | EWrapped http_response string
  | ESimple int string
  | EPos ErrorPos
  | EText string
  | EWrap string goerr

fun as_rpc :: "goerr \<Rightarrow> RPCError option" where
  "as_rpc (ERpc e) = Some e"
| "as_rpc (EWrap _ e) = as_rpc e"
| "as_rpc _ = None"

fun as_wrapped :: "goerr \<Rightarrow> (http_response \<times> string) option" where
  "as_wrapped (EWrapped r b) = Some (r, b)"
| "as_wrapped (EWrap _ e) = as_wrapped e"
| "as_wrapped _ = None"

fun as_simple :: "goerr \<Rightarrow> (int \<times> string) option" where
  "as_simple (ESimple c b) = Some (c, b)"
| "as_simple (EWrap _ e) = as_simple e"
| "as_simple _ = None"

text \<open>\<open>Error\<close> and \<open>ToMessage\<close> of a validation error.\<close>

definition ErrorPos_Error :: "ErrorPos \<Rightarrow> string" where
  "ErrorPos_Error e = ''Validation Error: '' @ Path e @ '' '' @ ep_hint e"

definition ErrorPos_ToMessage :: "ErrorPos \<Rightarrow> RequestMessage \<Rightarrow> ErrorMessage panicky" where
  "ErrorPos_ToMessage e reqmsg =
     ToMessage \<lparr>Code = Code ErrInvalidSchema, ErrText = ErrorPos_Error e, Data = VNil\<rparr> reqmsg"

section \<open>Requests, callbacks and actors\<close>

text \<open>The values of a context, the newest first; \<open>context.WithValue\<close> adds one. The authentication handler adds
  what it knows of the caller.\<close>

record AuthInfo =
  ai_Username :: string
  ai_Settings :: gval

datatype ctx_value = CtxAuthInfo AuthInfo | CtxValue gval

type_synonym go_context = "(string \<times> ctx_value) list"

definition WithValue :: "go_context \<Rightarrow> string \<Rightarrow> ctx_value \<Rightarrow> go_context" where
  "WithValue ctx k v = (k, v) # ctx"

record RPCRequest =
  rq_context :: go_context
  rq_msg :: Message
  rq_transport :: string
  rq_http :: bool
  rq_data :: gval
  rq_session :: "string option"

definition TransportHTTP :: string where "TransportHTTP = ''http''"
definition TransportWebsocket :: string where "TransportWebsocket = ''websocket''"
definition TransportHTTP2 :: string where "TransportHTTP2 = ''http2''"

definition NewRPCRequest :: "go_context \<Rightarrow> Message \<Rightarrow> string \<Rightarrow> bool \<Rightarrow> RPCRequest" where
  "NewRPCRequest ctx msg transport r =
     \<lparr>rq_context = ctx, rq_msg = msg, rq_transport = transport, rq_http = r, rq_data = VNil, rq_session = None\<rparr>"

text \<open>What a panic carries: an error, or any other value.\<close>

datatype panic_value = PError goerr | PValue string

type_synonym 'a run = "(panic_value, 'a) outcome"

definition HttpRequest :: "RPCRequest \<Rightarrow> bool run" where
  "HttpRequest req = (if \<not> rq_http req then Panics (PValue ''Http Request is nil'') else Returns (rq_http req))"

definition RPCRequest_Context :: "RPCRequest \<Rightarrow> go_context" where
  [simp]: "RPCRequest_Context req = rq_context req"

definition RPCRequest_Msg :: "RPCRequest \<Rightarrow> Message" where
  [simp]: "RPCRequest_Msg req = rq_msg req"

definition RPCRequest_Session :: "RPCRequest \<Rightarrow> string option" where
  [simp]: "RPCRequest_Session req = rq_session req"

definition RPCRequest_Data :: "RPCRequest \<Rightarrow> gval" where
  [simp]: "RPCRequest_Data req = rq_data req"

text \<open>A callback's result is an \<open>interface{}\<close>, which may be a message.\<close>

datatype reply = RMsg Message | RVal gval

type_synonym 'w RequestCallback =
  "RPCRequest \<Rightarrow> gval list \<Rightarrow> 'w \<Rightarrow> (reply \<times> goerr option) run \<times> 'w"
type_synonym 'w MissingCallback = "RPCRequest \<Rightarrow> 'w \<Rightarrow> (reply \<times> goerr option) run \<times> 'w"
type_synonym 'w CloseCallback = "bool \<Rightarrow> string \<Rightarrow> 'w \<Rightarrow> 'w"

record 'w MethodHandler =
  callback :: "'w RequestCallback"
  mh_schema :: "schema option"

datatype 'w Actor = Actor
  (ValidateSchema: bool)
  (RecoverFromPanic: bool)
  (methodHandlers: "(string \<times> 'w MethodHandler) list")
  (missingHandler: "'w MissingCallback option")
  (closeHandler: "'w CloseCallback option")
  (children: "'w Actor list")

definition NewActor :: "'w Actor" where
  "NewActor = Actor True True [] None None []"

fun AddChild :: "'w Actor \<Rightarrow> 'w Actor \<Rightarrow> 'w Actor" where
  "AddChild (Actor v r hs mi cl cs) child = Actor v r hs mi cl (cs @ [child])"

section \<open>Registration\<close>

text \<open>The setters (\<open>WithSchema\<close>) run one after another on the new handler.\<close>

type_synonym 'w HandlerSetter = "'w MethodHandler \<Rightarrow> 'w MethodHandler"

definition WithSchema :: "schema \<Rightarrow> 'w HandlerSetter" where
  "WithSchema s h = h\<lparr>mh_schema := Some s\<rparr>"

fun OnRequest :: "string \<Rightarrow> 'w RequestCallback \<Rightarrow> 'w HandlerSetter list \<Rightarrow> 'w Actor \<Rightarrow> goerr + 'w Actor" where
  "OnRequest meth cb setters (Actor v r hs mi cl cs) =
     (if map_has hs meth then Inl (EText ''handler already exist!'')
      else Inr (Actor v r (map_put meth (fold (\<lambda>f h. f h) setters \<lparr>callback = cb, mh_schema = None\<rparr>) hs) mi cl cs))"

text \<open>\<open>On\<close> and \<open>OnContext\<close> panic where \<open>OnRequest\<close> returns an error.\<close>

definition On :: "string \<Rightarrow> (gval list \<Rightarrow> 'w \<Rightarrow> (reply \<times> goerr option) run \<times> 'w) \<Rightarrow> 'w HandlerSetter list \<Rightarrow>
    'w Actor \<Rightarrow> 'w Actor run" where
  "On meth cb setters a =
     (case OnRequest meth (\<lambda>req params. cb params) setters a of Inl e \<Rightarrow> Panics (PError e) | Inr a' \<Rightarrow> Returns a')"

fun Off :: "string \<Rightarrow> 'w Actor \<Rightarrow> 'w Actor" where
  "Off meth (Actor v r hs mi cl cs) = Actor v r (map_del meth hs) mi cl cs"

fun OnMissing :: "'w MissingCallback \<Rightarrow> 'w Actor \<Rightarrow> goerr + 'w Actor" where
  "OnMissing h (Actor v r hs mi cl cs) =
     (if mi \<noteq> None then Inl (EText ''missing handler already exist!'') else Inr (Actor v r hs (Some h) cl cs))"

fun OnClose :: "'w CloseCallback \<Rightarrow> 'w Actor \<Rightarrow> goerr + 'w Actor" where
  "OnClose h (Actor v r hs mi cl cs) =
     (if cl \<noteq> None then Inl (EText ''close handler already exist!'') else Inr (Actor v r hs mi (Some h) cs))"

section \<open>Lookup\<close>

fun Has :: "'w Actor \<Rightarrow> string \<Rightarrow> bool" where
  "Has (Actor v r hs mi cl cs) meth = (map_has hs meth \<or> (\<exists>c \<in> set cs. Has c meth))"

fun MethodList :: "'w Actor \<Rightarrow> string list" where
  "MethodList (Actor v r hs mi cl cs) = map fst hs @ concat (map MethodList cs)"

definition getHandler :: "'w Actor \<Rightarrow> string \<Rightarrow> 'w MethodHandler option" where
  "getHandler a meth = map_of (methodHandlers a) meth"

fun first_some :: "('a \<Rightarrow> 'b option) \<Rightarrow> 'a list \<Rightarrow> 'b option" where
  "first_some f [] = None"
| "first_some f (x # xs) = (case f x of Some y \<Rightarrow> Some y | None \<Rightarrow> first_some f xs)"

lemma first_some_cong [fundef_cong]:
  "xs = ys \<Longrightarrow> (\<And>x. x \<in> set ys \<Longrightarrow> f x = g x) \<Longrightarrow> first_some f xs = first_some g ys"
  by (induction ys arbitrary: xs) (auto split: option.split)

lemma first_some_None: "first_some f xs = None \<longleftrightarrow> (\<forall>x \<in> set xs. f x = None)"
  by (induction xs) (auto split: option.split)

fun GetSchema :: "'w Actor \<Rightarrow> string \<Rightarrow> schema option" where
  "GetSchema (Actor v r hs mi cl cs) meth =
     (case (case map_of hs meth of Some h \<Rightarrow> mh_schema h | None \<Rightarrow> None) of
        Some s \<Rightarrow> Some s
      | None \<Rightarrow> first_some (\<lambda>c. GetSchema c meth) cs)"

text \<open>The close handlers run children first.\<close>

fun HandleClose :: "'w Actor \<Rightarrow> bool \<Rightarrow> string \<Rightarrow> 'w \<Rightarrow> 'w" where
  "HandleClose (Actor v r hs mi cl cs) rq session w =
     (let w' = fold (\<lambda>c w. HandleClose c rq session w) cs w
      in case cl of None \<Rightarrow> w' | Some h \<Rightarrow> h rq session w')"

section \<open>Results\<close>

text \<open>\<open>wrapResult\<close>; the panic is the one of \<open>Panicf\<close> when a message is tagged as a request without
  being one.\<close>

definition wrapResult :: "reply \<Rightarrow> goerr option \<Rightarrow> Message \<Rightarrow> (Message option \<times> goerr option) run" where
  "wrapResult res err msg =
     (if \<not> IsRequest msg then Returns (None, err)
      else case msg of
        MRequest reqmsg \<Rightarrow>
          (case err of
             Some e \<Rightarrow>
               (case as_rpc e of
                  Some re \<Rightarrow> (case ToMessage re reqmsg of
                      Returns m \<Rightarrow> Returns (Some (MError m), None) | Panics p \<Rightarrow> Panics (PError (ERpc p)))
                | None \<Rightarrow>
                    (case as_wrapped e of
                       Some (r, b) \<Rightarrow> Returns (None, Some (EWrapped r b))
                     | None \<Rightarrow> (case ToMessage ErrInternalError reqmsg of
                         Returns m \<Rightarrow> Returns (Some (MError m), None) | Panics p \<Rightarrow> Panics (PError (ERpc p)))))
           | None \<Rightarrow>
               (case res of
                  RMsg m \<Rightarrow> Returns (Some m, None)
                | RVal v \<Rightarrow> (case NewResultMessage (MRequest reqmsg) v of
                    Returns m \<Rightarrow> Returns (Some (MResult m), None) | Panics p \<Rightarrow> Panics (PError (ERpc p)))))
      | _ \<Rightarrow> Panics (PValue ''convert to request message failed''))"

text \<open>
  \<open>recoverCallHandler\<close> and \<open>recoverCallMissingHandler\<close> around a call: a panic with an error
  becomes that error's result, any other panic goes on.
\<close>

definition recover_call ::
  "bool \<Rightarrow> Message \<Rightarrow> (reply \<times> goerr option) run \<times> 'w \<Rightarrow> (Message option \<times> goerr option) run \<times> 'w" where
  "recover_call recovers msg called =
     (case called of (out, w) \<Rightarrow>
       (case obind out (\<lambda>(res, err). wrapResult res err msg) of
          Panics (PError e) \<Rightarrow> (if recovers then wrapResult (RVal VNil) (Some e) msg else Panics (PError e), w)
        | r \<Rightarrow> (r, w)))"

section \<open>Feed\<close>

text \<open>\<open>decode\<close> is \<open>mapstructure\<close>'s decoding of a message template into a map.\<close>

type_synonym struct_decoder = "template \<Rightarrow> goerr + (string \<times> gval) list"

definition validate_msg :: "struct_decoder \<Rightarrow> schema \<Rightarrow> Message \<Rightarrow> (goerr + ErrorPos option) run" where
  "validate_msg decode s msg =
     (case MessageMap decode msg of
        Inl e \<Rightarrow> Returns (Inl e)
      | Inr m \<Rightarrow> (case Validate s (VMap m) NewSchemaValidator of
          Returns (e, _) \<Rightarrow> Returns (Inr e)
        | Panics p \<Rightarrow> Panics (PValue ''validator'')))"

definition call_handler ::
  "struct_decoder \<Rightarrow> bool \<Rightarrow> bool \<Rightarrow> 'w MethodHandler \<Rightarrow> RPCRequest \<Rightarrow> gval list \<Rightarrow> 'w \<Rightarrow>
   (Message option \<times> goerr option) run \<times> 'w" where
  "call_handler decode validates recovers h req params w =
     (let msg = rq_msg req;
          run = recover_call recovers msg (callback h req params w)
      in case mh_schema h of
           Some s \<Rightarrow>
             if validates then
               (case validate_msg decode s msg of
                  Panics p \<Rightarrow> (Panics p, w)
                | Returns (Inl e) \<Rightarrow> (Returns (None, Some e), w)
                | Returns (Inr None) \<Rightarrow> run
                | Returns (Inr (Some pos)) \<Rightarrow>
                    ((case msg of
                        MRequest reqmsg \<Rightarrow> (case ErrorPos_ToMessage pos reqmsg of
                            Returns m \<Rightarrow> Returns (Some (MError m), None) | Panics p \<Rightarrow> Panics (PError (ERpc p)))
                      | _ \<Rightarrow> Returns (None, Some (EPos pos))), w))
             else run
         | None \<Rightarrow> run)"

text \<open>\<open>MustMethod\<close> and \<open>MustParams\<close> of a request or notify.\<close>

definition feed_missing ::
  "bool \<Rightarrow> 'w MissingCallback option \<Rightarrow> RPCRequest \<Rightarrow> 'w \<Rightarrow> (Message option \<times> goerr option) run \<times> 'w" where
  "feed_missing recovers missing req w =
     (case missing of
        Some h \<Rightarrow> recover_call recovers (rq_msg req) (h req w)
      | None \<Rightarrow>
          (if IsRequest (rq_msg req) then
             (case MustId (rq_msg req) of
                Panics p \<Rightarrow> (Panics (PError (ERpc p)), w)
              | Returns i \<Rightarrow>
                  (Returns (Some (MError (ToMessageFromId ErrMethodNotFound i (TraceId (rq_msg req)))), None), w))
           else (Returns (None, None), w)))"

fun Feed :: "struct_decoder \<Rightarrow> 'w Actor \<Rightarrow> RPCRequest \<Rightarrow> 'w \<Rightarrow> (Message option \<times> goerr option) run \<times> 'w"
and feed_children :: "struct_decoder \<Rightarrow> string \<Rightarrow> 'w Actor list \<Rightarrow> RPCRequest \<Rightarrow> 'w \<Rightarrow>
    ((Message option \<times> goerr option) run \<times> 'w) option" where
  "Feed decode (Actor v r hs mi cl cs) req w =
     (let msg = rq_msg req in
      if \<not> IsRequestOrNotify msg then
        (case mi of
           Some h \<Rightarrow>
             (case h req w of
                (Panics p, w') \<Rightarrow> (Panics p, w')
              | (Returns (res, err), w') \<Rightarrow> (wrapResult res err msg, w'))
         | None \<Rightarrow> (Returns (None, None), w))
      else case MustMethod msg of
        Panics p \<Rightarrow> (Panics (PError (ERpc p)), w)
      | Returns meth \<Rightarrow>
          (case map_of hs meth of
             Some h \<Rightarrow>
               (case MustParams msg of
                  Panics p \<Rightarrow> (Panics (PError (ERpc p)), w)
                | Returns params \<Rightarrow> call_handler decode v r h req params w)
           | None \<Rightarrow>
               (case feed_children decode meth cs req w of
                  Some out \<Rightarrow> out
                | None \<Rightarrow> feed_missing r mi req w)))"
| "feed_children decode meth [] req w = None"
| "feed_children decode meth (c # cs) req w =
     (if Has c meth then Some (Feed decode c req w) else feed_children decode meth cs req w)"

end
