(* ===== verification/Actor_Laws.thy ===== *)
theory Actor_Laws
  imports Actor
begin

text \<open>
  Properties of the dispatcher: a request goes to the handler the tree of actors resolves its
  method to, is validated first, and gets exactly one answer that carries its id.
\<close>

section \<open>Resolution\<close>

text \<open>The handler of a method, with the flags of the actor that owns it: the actor's own handler,
  or else that of its first child that has one.\<close>

fun resolve :: "'w Actor \<Rightarrow> string \<Rightarrow> (bool \<times> bool \<times> 'w MethodHandler) option" where
  "resolve (Actor v r hs mi cl cs) meth =
     (case map_of hs meth of
        Some h \<Rightarrow> Some (v, r, h)
      | None \<Rightarrow> first_some (\<lambda>c. resolve c meth) cs)"

lemma resolve_Has: "resolve a meth \<noteq> None \<longleftrightarrow> Has a meth"
proof (induction a)
  case (Actor v r hs mi cl cs)
  then show ?case
    by (cases "map_of hs meth") (auto simp: map_has_def first_some_None)
qed

lemma Has_MethodList: "Has a meth \<longleftrightarrow> meth \<in> set (MethodList a)"
  by (induction a) (auto simp: map_has_iff)

definition dispatch :: "struct_decoder \<Rightarrow> 'w Actor \<Rightarrow> string \<Rightarrow> gval list \<Rightarrow> RPCRequest \<Rightarrow> 'w \<Rightarrow>
    (Message option \<times> goerr option) run \<times> 'w" where
  "dispatch decode a meth params req w =
     (case resolve a meth of
        Some (v, r, h) \<Rightarrow> call_handler decode v r h req params w
      | None \<Rightarrow> feed_missing (RecoverFromPanic a) (missingHandler a) req w)"

definition is_call :: "Message \<Rightarrow> string \<Rightarrow> gval list \<Rightarrow> bool" where
  "is_call m meth params =
     (IsRequestOrNotify m \<and> MustMethod m = Returns meth \<and> MustParams m = Returns params)"

lemma Feed_dispatch:
  assumes "is_call (rq_msg req) meth params"
  shows "Feed decode a req w = dispatch decode a meth params req w"
proof (induction a)
  case (Actor v r hs mi cl cs)
  have children: "feed_children decode meth ds req w =
      map_option (\<lambda>(v, r, h). call_handler decode v r h req params w) (first_some (\<lambda>c. resolve c meth) ds)"
    if "\<forall>c \<in> set ds. Feed decode c req w = dispatch decode c meth params req w" for ds
    using that
  proof (induction ds)
    case (Cons c ds)
    then show ?case
      by (cases "resolve c meth") (auto simp: dispatch_def simp flip: resolve_Has)
  qed simp
  have "feed_children decode meth cs req w =
      map_option (\<lambda>(v, r, h). call_handler decode v r h req params w) (first_some (\<lambda>c. resolve c meth) cs)"
    using Actor.IH by (intro children) simp
  then show ?case
    using assms by (cases "map_of hs meth"; cases "first_some (\<lambda>c. resolve c meth) cs")
      (auto simp: is_call_def dispatch_def)
qed

section \<open>A sample actor\<close>

text \<open>An instance on which the properties are evaluated: an actor with one method that returns its
  params and asks for one of them. \<open>sample_decode\<close> is a decoder of templates as \<open>mapstructure\<close>
  documents it: one entry per field, under the name of its tag.\<close>

definition tid_field :: "string \<Rightarrow> (string \<times> gval) list" where
  "tid_field t = (if t = [] then [] else [(''traceid'', VString t)])"

definition sample_decode :: struct_decoder where
  "sample_decode t = Inr (case t of
      TemplateRequest v meth i p tid \<Rightarrow>
        [(''jsonrpc'', VString v), (''method'', VString meth), (''id'', i), (''params'', p)] @ tid_field tid
    | TemplateNotify v meth p tid \<Rightarrow>
        [(''jsonrpc'', VString v), (''method'', VString meth), (''params'', p)] @ tid_field tid
    | TemplateResult v i r tid \<Rightarrow> [(''jsonrpc'', VString v), (''id'', i), (''result'', r)] @ tid_field tid
    | TemplateError v i e tid \<Rightarrow> [(''jsonrpc'', VString v), (''id'', i)] @ tid_field tid)"

definition sample_callback :: "nat RequestCallback" where
  "sample_callback req params w = (Returns (RVal (VList params), None), Suc w)"

definition sample_handler :: "nat MethodHandler" where
  "sample_handler = \<lparr>callback = sample_callback,
     mh_schema = Some (MethodSchema no_mixin [AnySchema no_mixin] None None)\<rparr>"

definition sample_actor :: "nat Actor" where
  "sample_actor = Actor True True [(''echo'', sample_handler)] None None []"

definition sample_message :: "gval list \<Rightarrow> Message" where
  "sample_message ps = MRequest \<lparr>kind = MKRequest, traceId = ''t'', req_Id = VInt 1,
     req_Method = ''echo'', req_Params = ps, req_paramsAreList = True\<rparr>"

definition sample_request :: "gval list \<Rightarrow> RPCRequest" where
  "sample_request ps = NewRPCRequest [] (sample_message ps) TransportHTTP True"

lemmas sample_defs = sample_decode_def sample_callback_def sample_handler_def sample_actor_def
  sample_message_def sample_request_def NewRPCRequest_def tid_field_def

lemma sample_ok: "kind_ok (rq_msg (sample_request ps))" "is_call (rq_msg (sample_request ps)) ''echo'' ps"
  by (simp_all add: sample_defs kind_ok_def is_call_def is_defs must_defs)

text \<open>C11: a request or notify is handled by the handler its method resolves to, under
  the flags of the actor that owns the handler; when there is none, the missing handler of
  the actor that was fed decides, and not those of its children.\<close>

theorem feed_resolves:
  "is_call (rq_msg req) meth params \<Longrightarrow> Feed decode a req w = dispatch decode a meth params req w"
  by (rule Feed_dispatch)

theorem feed_resolves_witness:
  "Feed sample_decode sample_actor (sample_request [VNil]) 0 =
   dispatch sample_decode sample_actor ''echo'' [VNil] (sample_request [VNil]) 0"
  by (rule feed_resolves) (rule sample_ok)

text \<open>\<open>Has\<close>, the list of methods and the dispatcher agree on which methods there are.\<close>

lemma has_method:
  "(Has a meth \<longleftrightarrow> meth \<in> set (MethodList a)) \<and> (Has a meth \<longleftrightarrow> (\<exists>h. resolve a meth = Some h))"
  using Has_MethodList [of a meth] resolve_Has [of a meth] by auto

section \<open>Answers\<close>

text \<open>An answer to a request: it has the request's id and trace id.\<close>

definition answers :: "Message \<Rightarrow> Message \<Rightarrow> bool" where
  "answers msg m = (MustId m = MustId msg \<and> TraceId m = TraceId msg \<and> IsResultOrError m)"

text \<open>What the dispatcher hands back for a message: for a request an answer, a message the callback
  itself returned, or an error for the transport; for anything else no message.\<close>

definition fed_ok :: "(Message \<Rightarrow> bool) \<Rightarrow> Message \<Rightarrow> Message option \<times> goerr option \<Rightarrow> bool" where
  "fed_ok own msg out = (case out of
      (None, None) \<Rightarrow> \<not> IsRequest msg
    | (None, Some e) \<Rightarrow> True
    | (Some m, None) \<Rightarrow> IsRequest msg \<and> (answers msg m \<or> own m)
    | (Some m, Some e) \<Rightarrow> False)"

definition returns_own :: "(Message \<Rightarrow> bool) \<Rightarrow> (reply \<times> goerr option) run \<Rightarrow> bool" where
  "returns_own own out = (case out of Returns (RMsg m, None) \<Rightarrow> own m | _ \<Rightarrow> True)"

lemma wrapResult_ok:
  assumes "kind_ok msg" "case (res, err) of (RMsg m, None) \<Rightarrow> own m | _ \<Rightarrow> True"
  shows "\<exists>out. wrapResult res err msg = Returns out \<and> fed_ok own msg out"
proof (cases msg)
  case (MRequest q)
  then have "IsRequest msg" using assms(1) by simp
  then show ?thesis
    using assms(2) MRequest
    by (cases err; cases res)
      (auto simp: wrapResult_def fed_ok_def answers_def message_defs split: option.split)
qed (use assms(1) in \<open>auto simp: wrapResult_def fed_ok_def split: option.split\<close>)

lemma recover_call_ok:
  assumes "kind_ok msg" "returns_own own (fst called)"
  shows "case fst (recover_call recovers msg called) of
      Returns out \<Rightarrow> fed_ok own msg out
    | Panics p \<Rightarrow> fst called = Panics p \<and> (recovers \<longrightarrow> (\<exists>t. p = PValue t))"
proof (cases called)
  case (Pair o1 w)
  show ?thesis
  proof (cases o1)
    case (Returns x)
    obtain res err where x: "x = (res, err)" by (cases x)
    have "case (res, err) of (RMsg m, None) \<Rightarrow> own m | _ \<Rightarrow> True"
      using assms(2) by (auto simp: Pair Returns x returns_own_def split: option.split reply.split)
    from wrapResult_ok [OF assms(1) this] show ?thesis
      by (auto simp: recover_call_def Pair Returns x)
  next
    case (Panics p)
    show ?thesis
    proof (cases p)
      case (PError e)
      have "\<exists>out. wrapResult (RVal VNil) (Some e) msg = Returns out \<and> fed_ok own msg out"
        by (rule wrapResult_ok [OF assms(1)]) simp
      then show ?thesis by (auto simp: recover_call_def Pair Panics PError)
    qed (simp add: recover_call_def Pair Panics)
  qed
qed

lemma validate_returns: "\<exists>r. validate_msg decode s msg = Returns r"
proof (cases "MessageMap decode msg")
  case (Inr m)
  then show ?thesis
    using schema_check.check_total [of s "VMap m" NewSchemaValidator] by (auto simp: validate_msg_def)
qed (simp add: validate_msg_def)

lemma answers_error:
  "IsRequest (MRequest q) \<Longrightarrow> fed_ok own (MRequest q) (Some (MError \<lparr>kind = MKError, traceId = traceId q, err_Id = req_Id q, err_Error = e\<rparr>), None)"
  by (simp add: fed_ok_def answers_def message_defs)

lemma call_handler_ok:
  assumes "kind_ok (rq_msg req)" "returns_own own (fst (callback h req params w))"
  shows "case fst (call_handler decode v r h req params w) of
      Returns out \<Rightarrow> fed_ok own (rq_msg req) out
    | Panics p \<Rightarrow> fst (callback h req params w) = Panics p \<and> (r \<longrightarrow> (\<exists>t. p = PValue t))"
proof -
  let ?run = "recover_call r (rq_msg req) (callback h req params w)"
  have run: "case fst ?run of Returns out \<Rightarrow> fed_ok own (rq_msg req) out
    | Panics p \<Rightarrow> fst (callback h req params w) = Panics p \<and> (r \<longrightarrow> (\<exists>t. p = PValue t))"
    using recover_call_ok [OF assms, of r] .
  show ?thesis
  proof (cases "mh_schema h \<noteq> None \<and> v")
    case True
    then obtain s where s: "mh_schema h = Some s" "v" by blast
    obtain x where x: "validate_msg decode s (rq_msg req) = Returns x" using validate_returns by blast
    consider (err) e where "x = Inl e" | (good) "x = Inr None" | (bad) pos where "x = Inr (Some pos)"
      by (metis option.exhaust sum.exhaust)
    then show ?thesis
    proof cases
      case bad
      show ?thesis
        using x assms(1) answers_error [of _ own]
        by (cases "rq_msg req") (simp_all add: bad call_handler_def s ErrorPos_ToMessage_def fed_ok_def)
    qed (use run in \<open>simp_all add: call_handler_def s x fed_ok_def\<close>)
  next
    case False
    then have "call_handler decode v r h req params w = ?run"
      by (cases "mh_schema h") (auto simp: call_handler_def Let_def)
    with run show ?thesis by simp
  qed
qed

lemma feed_missing_ok:
  assumes "kind_ok (rq_msg req)" "\<And>h. mi = Some h \<Longrightarrow> returns_own own (fst (h req w))"
  shows "case fst (feed_missing r mi req w) of
      Returns out \<Rightarrow> fed_ok own (rq_msg req) out
    | Panics p \<Rightarrow> (\<exists>h. mi = Some h \<and> fst (h req w) = Panics p) \<and> (r \<longrightarrow> (\<exists>t. p = PValue t))"
proof (cases mi)
  case None
  then show ?thesis
    using assms(1)
    by (cases "rq_msg req") (auto simp: feed_missing_def fed_ok_def answers_def MustId_def TraceId_def
      IsResultOrError_def IsError_def msg_kind_def)
next
  case (Some h)
  then show ?thesis
    using recover_call_ok [OF assms(1) assms(2) [OF Some], of r]
    by (auto simp: feed_missing_def split: outcome.splits)
qed

text \<open>The call the dispatcher makes for a method, if it makes one.\<close>

definition callee :: "'w Actor \<Rightarrow> string \<Rightarrow> gval list \<Rightarrow> RPCRequest \<Rightarrow> 'w \<Rightarrow> (reply \<times> goerr option) run option" where
  "callee a meth params req w =
     (case resolve a meth of
        Some (v, r, h) \<Rightarrow> Some (fst (callback h req params w))
      | None \<Rightarrow> map_option (\<lambda>h. fst (h req w)) (missingHandler a))"

definition recovers :: "'w Actor \<Rightarrow> string \<Rightarrow> bool" where
  "recovers a meth = (case resolve a meth of Some (v, r, h) \<Rightarrow> r | None \<Rightarrow> RecoverFromPanic a)"

lemma feed_fed_ok:
  assumes "kind_ok (rq_msg req)" "is_call (rq_msg req) meth params"
    and "case callee a meth params req w of None \<Rightarrow> True | Some out \<Rightarrow> returns_own own out"
  shows "case fst (Feed decode a req w) of
      Returns out \<Rightarrow> fed_ok own (rq_msg req) out
    | Panics p \<Rightarrow> callee a meth params req w = Some (Panics p) \<and> (recovers a meth \<longrightarrow> (\<exists>t. p = PValue t))"
proof (cases "resolve a meth")
  case None
  then show ?thesis
    using feed_missing_ok [of req "missingHandler a" own w "RecoverFromPanic a"] assms(1,3)
    by (auto simp: Feed_dispatch [OF assms(2)] dispatch_def callee_def recovers_def
        split: outcome.splits option.splits)
next
  case (Some o1)
  then obtain v r h where o1: "resolve a meth = Some (v, r, h)" by (cases o1) auto
  then show ?thesis
    using call_handler_ok [OF assms(1), where own = own and h = h and params = params and w = w and v = v and r = r and decode = decode] assms(3)
    by (auto simp: Feed_dispatch [OF assms(2)] dispatch_def callee_def recovers_def split: outcome.splits)
qed

text \<open>C10: feeding a request gives either one answer with the id and the trace id of the
  request, or a message the callback itself returned, or an error for the transport, and
  never nothing; feeding a notify never gives a message. The dispatcher panics only when the
  called callback does, and an actor that recovers passes on only panics that carry no error.\<close>

theorem feed_answers:
  assumes "kind_ok (rq_msg req)" "is_call (rq_msg req) meth params"
    and "case callee a meth params req w of None \<Rightarrow> True | Some out \<Rightarrow> returns_own own out"
  shows "case fst (Feed decode a req w) of
      Returns out \<Rightarrow> fed_ok own (rq_msg req) out
    | Panics p \<Rightarrow> callee a meth params req w = Some (Panics p) \<and> (recovers a meth \<longrightarrow> (\<exists>t. p = PValue t))"
  by (rule feed_fed_ok [OF assms])

theorem feed_answers_witness:
  "case fst (Feed sample_decode sample_actor (sample_request [VNil]) 0) of
      Returns out \<Rightarrow> fed_ok (\<lambda>m. False) (rq_msg (sample_request [VNil])) out
    | Panics p \<Rightarrow> callee sample_actor ''echo'' [VNil] (sample_request [VNil]) 0 = Some (Panics p) \<and>
        (recovers sample_actor ''echo'' \<longrightarrow> (\<exists>t. p = PValue t))"
  by (rule feed_answers [OF sample_ok]) (simp add: callee_def sample_defs returns_own_def)



text \<open>A method with a method schema refuses every request whose params are not a
  list, whatever the schema says of them: the answer is an error that calls the request no
  JSONRPC message.\<close>

lemma object_params_refused:
  assumes "is_call (MRequest q) meth [p]" "kind_ok (MRequest q)" "\<not> req_paramsAreList q" "\<And>l. p \<noteq> VList l"
    and "rq_msg req = MRequest q" "resolve a meth = Some (True, r, h)" "mh_schema h = Some (MethodSchema mx ps ret add)"
    and "decode (Interface (MRequest q)) = Inr m" "map_of m ''params'' = Some p" "map_of m ''result'' = None"
  shows "Feed decode a req w =
    (Returns (Some (MError \<lparr>kind = MKError, traceId = traceId q, err_Id = req_Id q,
        err_Error = Some \<lparr>Code = -32633,
          ErrText = ''Validation Error:  data is not a JSONRPC message'', Data = VNil\<rparr>\<rparr>), None), w)"
proof -
  have "convertAttrList m ''params'' False = None"
    using assms(4,9) by (cases p) (auto simp: convertAttrList_def)
  then have "validate_msg decode (MethodSchema mx ps ret add) (MRequest q) =
      Returns (Inr (Some \<lparr>ep_paths = [], ep_hint = ''data is not a JSONRPC message''\<rparr>))"
    using assms(8,10)
    by (simp add: validate_msg_def MessageMap_def Validate_def ValidatorScan_def at_path_def pushPath_def
        popPath_def fail_with_def NewErrorPos_def NewSchemaValidator_def)
  then show ?thesis
    using assms(1,5-7)
    by (simp add: Feed_dispatch [of req] dispatch_def call_handler_def ErrorPos_ToMessage_def
        ErrorPos_Error_def Path_def ErrInvalidSchema_def rpc_error_def)
qed

text \<open>C19: a panic of the missing handler on a message that is no request and no
  notify is not recovered, whatever the actor's \<open>RecoverFromPanic\<close> says, and leaves \<open>Feed\<close>.\<close>

theorem response_panic_escapes:
  assumes "\<not> IsRequestOrNotify (rq_msg req)" "missingHandler a = Some h" "h req w = (Panics p, w')"
  shows "Feed decode a req w = (Panics p, w')"
  using assms by (cases a) simp

theorem response_panic_escapes_witness:
  "Feed sample_decode (Actor True True [] (Some (\<lambda>req w. (Panics (PError (EText ''boom'')), w))) None [])
     (NewRPCRequest [] (MResult (rawResultMessage (VInt 1) VNil)) TransportWebsocket True) (0 :: nat) =
   (Panics (PError (EText ''boom'')), 0)"
  by (rule response_panic_escapes) (simp_all add: NewRPCRequest_def is_defs rawResultMessage_def)

text \<open>When an actor's own handler of a method has no schema, \<open>GetSchema\<close> reports the
  schema of a child's handler of that method, although the dispatcher calls the actor's own
  handler without validating.\<close>

lemma schema_of_child:
  assumes "getHandler a meth = Some h" "mh_schema h = None" "children a = c # cs" "GetSchema c meth = Some s"
    and "is_call (rq_msg req) meth params"
  shows "GetSchema a meth = Some s \<and>
    Feed decode a req w = recover_call (RecoverFromPanic a) (rq_msg req) (callback h req params w)"
  using assms by (cases a)
    (simp add: getHandler_def Feed_dispatch [OF assms(5)] dispatch_def call_handler_def Let_def)

text \<open>A registered method is found with its callback and the schema its setters chose, a
  second registration is refused, no other method of the tree is affected, and \<open>Off\<close> makes the
  method resolve as it did before.\<close>

lemma register_once:
  assumes "OnRequest meth cb setters a = Inr a'"
  shows "getHandler a' meth = Some (fold (\<lambda>f h. f h) setters \<lparr>callback = cb, mh_schema = None\<rparr>) \<and>
    OnRequest meth cb2 setters2 a' = Inl (EText ''handler already exist!'') \<and>
    (meth' \<noteq> meth \<longrightarrow> resolve a' meth' = resolve a meth') \<and> resolve (Off meth a') meth' = resolve a meth'"
proof (cases a)
  case (Actor v r hs mi cl cs)
  then have "\<not> map_has hs meth" "a' = Actor v r (map_put meth (fold (\<lambda>f h. f h) setters \<lparr>callback = cb, mh_schema = None\<rparr>) hs) mi cl cs"
    using assms by (auto split: if_splits)
  then show ?thesis
    by (cases "meth' = meth") (simp_all add: Actor getHandler_def map_has_def)
qed

end
