(* ===== verification/Transport.thy ===== *)
theory Transport
  imports Actor Parse
begin

text \<open>
  The interface \<open>Transport\<close> of \<^verbatim>\<open>http/streaming_client.go\<close> and its two implementations, the
  websocket of \<^verbatim>\<open>http/ws_client.go\<close> and the HTTP/2 stream of \<^verbatim>\<open>http/h2_client.go\<close>. A
  method that talks to the network takes what the network did as an argument: the result of
  dialing, of reading a frame or of writing one. The contract the streaming client relies on is
  a locale, interpreted on both implementations.
\<close>

section \<open>The interface\<close>

text \<open>\<open>Connect\<close>, \<open>Close\<close>, \<open>Connected\<close>, \<open>ReadMessage\<close> and \<open>WriteMessage\<close>. A method that uses a nil
  connection panics.\<close>

record ('t, 'd, 'r, 'x) Transport =
  tConnect :: "'d \<Rightarrow> 't \<Rightarrow> goerr option \<times> 't"
  tClose :: "'t \<Rightarrow> 't"
  tConnected :: "'t \<Rightarrow> bool"
  tReadMessage :: "'r \<Rightarrow> 't \<Rightarrow> (Message option \<times> bool \<times> goerr option) run"
  tWriteMessage :: "'x \<Rightarrow> Message \<Rightarrow> 't \<Rightarrow> (goerr option) run"

definition TransportConnectFailed :: goerr where "TransportConnectFailed = EText ''connect refused''"
definition TransportClosed :: goerr where "TransportClosed = EText ''streaming closed''"

definition nil_pointer :: panic_value where
  "nil_pointer = PError (EText ''invalid memory address or nil pointer dereference'')"

text \<open>The branch the \<open>select\<close> of a send loop takes: the context is done, or a message came and the write has the
  result \<open>x\<close>.\<close>

datatype 'x branch = CtxDone | TakeMsg 'x

text \<open>A transport whose reads are answered by a network: \<open>d\<close> turns what the network does into what a read meets.\<close>

definition hears :: "('x \<Rightarrow> 'r) \<Rightarrow> ('t, 'd, 'r, 'y) Transport \<Rightarrow> ('t, 'd, 'x, 'y) Transport" where
  "hears d T = \<lparr>tConnect = tConnect T, tClose = tClose T, tConnected = tConnected T,
     tReadMessage = (\<lambda>x. tReadMessage T (d x)), tWriteMessage = tWriteMessage T\<rparr>"

lemma hears_simps [simp]:
  "tConnect (hears d T) = tConnect T" "tClose (hears d T) = tClose T" "tConnected (hears d T) = tConnected T"
  "tReadMessage (hears d T) x = tReadMessage T (d x)" "tWriteMessage (hears d T) = tWriteMessage T"
  by (simp_all add: hears_def)

text \<open>\<open>ok\<close> is the invariant of the implementation's own state.\<close>

locale transport =
  fixes T :: "('t, 'd, 'r, 'x) Transport" and ok :: "'t \<Rightarrow> bool"
  assumes close_down: "\<not> tConnected T (tClose T t)"
    and down_ok: "\<not> tConnected T t \<Longrightarrow> ok t"
    and close_ok: "ok t \<Longrightarrow> ok (tClose T t)"
    and connect_up: "tConnect T d t = (None, t') \<Longrightarrow> tConnected T t'"
    and connect_fail: "tConnect T d t = (Some e, t') \<Longrightarrow> t' = t"
    and connect_ok: "ok t \<Longrightarrow> tConnect T d t = (eo, t') \<Longrightarrow> ok t'"
    and read_up: "ok t \<Longrightarrow> tConnected T t \<Longrightarrow> \<exists>m readed e. tReadMessage T r t = Returns (m, readed, e) \<and>
      (readed \<longleftrightarrow> m \<noteq> None) \<and> \<not> (readed \<and> e \<noteq> None) \<and> (\<forall>x \<in> set_option m. message_ok x)"
    and write_up: "ok t \<Longrightarrow> tConnected T t \<Longrightarrow> \<exists>e. tWriteMessage T x m t = Returns e"

section \<open>Websocket\<close>

text \<open>Errors of the network libraries, as far as the code tells them apart.\<close>

datatype net_err = NetEOF | NetClosed | NetOp | NetOther string

record wsTransport =
  ws :: "nat option"

definition wsConnected :: "wsTransport \<Rightarrow> bool" where
  "wsConnected t = (ws t \<noteq> None)"

definition wsClose :: "wsTransport \<Rightarrow> wsTransport" where
  "wsClose t = (if ws t \<noteq> None then t\<lparr>ws := None\<rparr> else t)"

definition wsConnect :: "net_err + nat \<Rightarrow> wsTransport \<Rightarrow> goerr option \<times> wsTransport" where
  "wsConnect dial t = (case dial of
      Inl NetOp \<Rightarrow> (Some TransportConnectFailed, t)
    | Inl e \<Rightarrow> (Some (EWrap ''wstransport.connect'' (EText ''dial'')), t)
    | Inr conn \<Rightarrow> (None, t\<lparr>ws := Some conn\<rparr>))"

definition handleWebsocketError :: "net_err \<Rightarrow> goerr" where
  "handleWebsocketError e = (case e of
      NetEOF \<Rightarrow> TransportClosed
    | NetClosed \<Rightarrow> TransportClosed
    | _ \<Rightarrow> EWrap ''handleWebsocketError'' (EText ''network''))"

text \<open>What \<open>ws.ReadMessage\<close> gives: an error, a frame that is not text, or the document of a text
  frame as \<open>ParseBytes\<close> sees it.\<close>

datatype ws_frame = WsError net_err | WsBinary | WsText decoder

definition go_decode_err :: "decode_err \<Rightarrow> goerr" where
  "go_decode_err e = (case e of
      ErrEOF \<Rightarrow> EText ''EOF''
    | ErrJson t \<Rightarrow> EText t
    | ErrUnmarshalType \<Rightarrow> EText ''json: cannot unmarshal''
    | ErrDecode t \<Rightarrow> EText (''error decode: '' @ t))"

definition wsReadMessage :: "ws_frame \<Rightarrow> wsTransport \<Rightarrow> (Message option \<times> bool \<times> goerr option) run" where
  "wsReadMessage frame t =
     (if ws t = None then Panics nil_pointer
      else case frame of
        WsError e \<Rightarrow> Returns (None, False, Some (handleWebsocketError e))
      | WsBinary \<Rightarrow> Returns (None, False, None)
      | WsText d \<Rightarrow> (case fst (DecodeMessage d) of
          Panics p \<Rightarrow> Panics (PError (ERpc p))
        | Returns (Inl e) \<Rightarrow> Returns (None, False, Some (go_decode_err e))
        | Returns (Inr m) \<Rightarrow> Returns (Some m, True, None)))"

text \<open>\<open>ff\<close> is the number formatting of \<open>encoding/json\<close>; \<open>x\<close> is the error of the write.\<close>

definition wsWriteMessage ::
  "(rat \<Rightarrow> string) \<Rightarrow> net_err option \<Rightarrow> Message \<Rightarrow> wsTransport \<Rightarrow> (goerr option) run" where
  "wsWriteMessage ff x m t =
     (case MessageBytes ff m of
        Inl e \<Rightarrow> Returns (Some (EText ''json: unsupported''))
      | Inr j \<Rightarrow>
          if ws t = None then Panics nil_pointer
          else (case x of None \<Rightarrow> Returns None | Some e \<Rightarrow> Returns (Some (handleWebsocketError e))))"

definition ws_transport :: "(rat \<Rightarrow> string) \<Rightarrow> (wsTransport, net_err + nat, ws_frame, net_err option) Transport" where
  "ws_transport ff = \<lparr>tConnect = wsConnect, tClose = wsClose, tConnected = wsConnected,
     tReadMessage = wsReadMessage, tWriteMessage = wsWriteMessage ff\<rparr>"

section \<open>HTTP/2\<close>

record h2Transport =
  resp :: "nat option"
  h2_decoder :: bool
  h2_writer :: bool

definition h2Connected :: "h2Transport \<Rightarrow> bool" where
  "h2Connected t = (resp t \<noteq> None)"

definition h2Close :: "h2Transport \<Rightarrow> h2Transport" where
  "h2Close t = (if resp t \<noteq> None then t\<lparr>resp := None, h2_writer := False\<rparr> else t)"

definition handleHttp2Error :: "net_err \<Rightarrow> goerr" where
  "handleHttp2Error e = (case e of
      NetEOF \<Rightarrow> TransportClosed
    | NetOp \<Rightarrow> TransportClosed
    | _ \<Rightarrow> EWrap ''h2transport.handleHttp2Error'' (EText ''network''))"

definition h2Connect :: "net_err + nat \<Rightarrow> h2Transport \<Rightarrow> goerr option \<times> h2Transport" where
  "h2Connect dial t = (case dial of
      Inl e \<Rightarrow> (Some (handleHttp2Error e), t)
    | Inr r \<Rightarrow> (None, t\<lparr>resp := Some r, h2_decoder := True, h2_writer := True\<rparr>))"

text \<open>What the stream's decoder meets: an error of the pipe, or the rest of the input.\<close>

datatype h2_read = H2ClosedPipe | H2Input decoder

definition h2ReadMessage :: "h2_read \<Rightarrow> h2Transport \<Rightarrow> (Message option \<times> bool \<times> goerr option) run" where
  "h2ReadMessage rd t =
     (if \<not> h2_decoder t then Panics nil_pointer
      else case rd of
        H2ClosedPipe \<Rightarrow> Returns (None, False, Some TransportClosed)
      | H2Input d \<Rightarrow> (case fst (DecodeMessage d) of
          Panics p \<Rightarrow> Panics (PError (ERpc p))
        | Returns (Inl e) \<Rightarrow>
            Returns (None, False, Some (if e = ErrEOF then TransportClosed else go_decode_err e))
        | Returns (Inr m) \<Rightarrow> Returns (Some m, True, None)))"

definition h2WriteMessage ::
  "(rat \<Rightarrow> string) \<Rightarrow> net_err option \<Rightarrow> Message \<Rightarrow> h2Transport \<Rightarrow> (goerr option) run" where
  "h2WriteMessage ff x m t =
     (case MessageBytes ff m of
        Inl e \<Rightarrow> Returns (Some (EText ''json: unsupported''))
      | Inr j \<Rightarrow>
          if \<not> h2_writer t then Panics nil_pointer
          else (case x of None \<Rightarrow> Returns None | Some e \<Rightarrow> Returns (Some (handleHttp2Error e))))"

section \<open>Both keep the contract\<close>

lemma DecodeMessage_returns: "\<exists>r. fst (DecodeMessage d) = Returns r"
  using message_of_union_returns by (cases "Decode d") (auto simp: DecodeMessage_def split: sum.split)

lemma DecodeMessage_ok: "fst (DecodeMessage d) = Returns (Inr m) \<Longrightarrow> message_ok m"
  using message_of_union_ok decode_union_ok
  by (cases "Decode d") (auto simp: DecodeMessage_def decoded_ok_def sbind_Inr_iff split: sum.splits)

interpretation ws: transport "ws_transport ff" "\<lambda>t. True"
proof
  show "\<exists>m readed e. tReadMessage (ws_transport ff) r t = Returns (m, readed, e) \<and>
      (readed \<longleftrightarrow> m \<noteq> None) \<and> \<not> (readed \<and> e \<noteq> None) \<and> (\<forall>x \<in> set_option m. message_ok x)"
    if "tConnected (ws_transport ff) t" for r t
  proof (cases r)
    case (WsText d)
    obtain x where "fst (DecodeMessage d) = Returns x" using DecodeMessage_returns by blast
    with that WsText DecodeMessage_ok [of d] show ?thesis
      by (cases x) (auto simp: ws_transport_def wsConnected_def wsReadMessage_def)
  qed (use that in \<open>auto simp: ws_transport_def wsConnected_def wsReadMessage_def\<close>)
qed (auto simp: ws_transport_def wsConnected_def wsClose_def wsConnect_def wsWriteMessage_def
    split: sum.splits net_err.splits option.splits)

text \<open>The fields of the HTTP/2 transport are set together.\<close>

definition h2_ok :: "h2Transport \<Rightarrow> bool" where
  "h2_ok t = (resp t \<noteq> None \<longrightarrow> h2_decoder t \<and> h2_writer t)"

definition h2_transport :: "(rat \<Rightarrow> string) \<Rightarrow> (h2Transport, net_err + nat, h2_read, net_err option) Transport" where
  "h2_transport ff = \<lparr>tConnect = h2Connect, tClose = h2Close, tConnected = h2Connected,
     tReadMessage = h2ReadMessage, tWriteMessage = h2WriteMessage ff\<rparr>"

interpretation h2: transport "h2_transport ff" h2_ok
proof
  show "\<exists>m readed e. tReadMessage (h2_transport ff) r t = Returns (m, readed, e) \<and>
      (readed \<longleftrightarrow> m \<noteq> None) \<and> \<not> (readed \<and> e \<noteq> None) \<and> (\<forall>x \<in> set_option m. message_ok x)"
    if "h2_ok t" "tConnected (h2_transport ff) t" for r t
  proof (cases r)
    case (H2Input d)
    obtain x where "fst (DecodeMessage d) = Returns x" using DecodeMessage_returns by blast
    with that H2Input DecodeMessage_ok [of d] show ?thesis
      by (cases x) (auto simp: h2_transport_def h2Connected_def h2_ok_def h2ReadMessage_def)
  qed (use that in \<open>auto simp: h2_transport_def h2Connected_def h2_ok_def h2ReadMessage_def\<close>)
qed (auto simp: h2_transport_def h2Connected_def h2Close_def h2Connect_def h2WriteMessage_def h2_ok_def
    split: sum.splits net_err.splits option.splits if_splits)

end
