(* ===== verification/Transitions.thy ===== *)
theory Transitions
  imports Main
begin

text \<open>
  Transition systems, shared by the concurrent components: a predicate of initial states and
  a step relation. Invariants are proved with \<open>reach_invariant\<close>, whose step case may assume
  that the state is reachable. A refinement of an abstract system is the locale
  \<open>simulation\<close>: every concrete step is a step of the abstract system or changes nothing of
  the abstract state, so reachable states have reachable abstractions.
\<close>

inductive reach :: "('s \<Rightarrow> bool) \<Rightarrow> ('s \<Rightarrow> 's \<Rightarrow> bool) \<Rightarrow> 's \<Rightarrow> bool"
  for I :: "'s \<Rightarrow> bool" and S :: "'s \<Rightarrow> 's \<Rightarrow> bool" where
  start: "I s \<Longrightarrow> reach I S s"
| move: "reach I S s \<Longrightarrow> S s s' \<Longrightarrow> reach I S s'"

lemma reach_invariant [consumes 1, case_names start move]:
  assumes "reach I S s"
    and "\<And>s. I s \<Longrightarrow> P s"
    and "\<And>s s'. reach I S s \<Longrightarrow> P s \<Longrightarrow> S s s' \<Longrightarrow> P s'"
  shows "P s"
  using assms(1) by (induction rule: reach.induct) (use assms(2,3) in blast)+

lemma reach_steps: "S\<^sup>*\<^sup>* s s' \<Longrightarrow> reach I S s \<Longrightarrow> reach I S s'"
  by (induction rule: rtranclp_induct) (blast intro: reach.move)+

lemma stable_steps:
  assumes "S\<^sup>*\<^sup>* s s'" "P s" "\<And>s s'. S s s' \<Longrightarrow> P s \<Longrightarrow> P s'"
  shows "P s'"
  using assms(1) by (induction rule: rtranclp_induct) (use assms(2,3) in blast)+

locale simulation =
  fixes I :: "'c \<Rightarrow> bool" and S :: "'c \<Rightarrow> 'c \<Rightarrow> bool"
    and J :: "'a \<Rightarrow> bool" and R :: "'a \<Rightarrow> 'a \<Rightarrow> bool" and abs :: "'c \<Rightarrow> 'a"
  assumes init_abs: "I s \<Longrightarrow> J (abs s)"
    and step_abs: "reach I S s \<Longrightarrow> S s s' \<Longrightarrow> abs s' = abs s \<or> R (abs s) (abs s')"
begin

lemma reach_abs: "reach I S s \<Longrightarrow> reach J R (abs s)"
proof (induction rule: reach.induct)
  case (move s s')
  then show ?case using step_abs [of s s'] by (auto intro: reach.move)
qed (blast intro: reach.start init_abs)

lemma transfer: "reach I S s \<Longrightarrow> (\<And>a. reach J R a \<Longrightarrow> P a) \<Longrightarrow> P (abs s)"
  using reach_abs by blast

end

end
