(* ===== verification/Streaming.thy ===== *)
theory Streaming
  imports Transport Transitions
begin

text \<open>
  The streaming client of \<^verbatim>\<open>http/streaming_client.go\<close>: its operations as functions on the
  client's state, and the interleaving of its goroutines (the callers, the send loop, the
  receive loop and the expiration timers) as a step relation whose steps are the operations
  that touch shared state. A caller is a number, which also stands for its result channel.
  What a step of the network does (the result of dialing, reading or writing) and the ids
  \<open>NewUuid\<close> makes are chosen by the relation. Time is not measured: a timer may fire at any
  moment after it was started. Channels are objects of their own, so that a goroutine can be blocked on
  a channel, in a read or on a context that the client has since replaced.
\<close>

section \<open>State\<close>

record pendingRequest =
  pr_reqmsg :: RequestMessage
  pr_chan :: nat

text \<open>A send on a channel: the channel is still to be read from the client, or known; \<open>None\<close> is the nil
  channel, on which a send blocks for ever.\<close>

datatype put_pos = PutReady | PutOn "nat option"

text \<open>How far a call of \<open>request\<close> has come: connected; the message to send chosen; stored in
  the table; at the send on the channel; in the channel; its timer started; returned.\<close>

datatype phase =
    Started
  | Loaded RequestMessage
  | Stored RequestMessage
  | Sending RequestMessage put_pos
  | Sent RequestMessage
  | Waiting
  | Returned Message
  | Failed goerr

record caller =
  ca_req :: RequestMessage
  ca_phase :: phase
  resultChannel :: "Message list"

text \<open>The goroutines of a connection. A send loop is at the top of its loop, or in \<open>select\<close> on a channel; a receive
  loop is at the top, or in \<open>ReadMessage\<close>, with what that will return.\<close>

datatype send_pos = SendTop | Selecting "nat option" | SendEnded

record send_loop =
  sl_ctx :: nat
  sl_pos :: send_pos

datatype recv_pos = RecvTop | Reading "Message option \<times> bool \<times> goerr option" | RecvEnded

text \<open>A caller of \<open>Wait\<close>: blocked on the channel of a connection, or returned.\<close>

datatype waiter = WaitOn nat | WaitGot nat "goerr option" | WaitNil

text \<open>Connections are numbered; the number of a connection stands for its context, its send channel
  and its close channel, which \<open>Connect\<close> makes together. \<open>contexts\<close> says which contexts are done.\<close>

record 't client =
  cl_transport :: 't
  pendingRequests :: "gval \<Rightarrow> pendingRequest option"
  contexts :: "bool list"
  cancelFunc :: "nat option"
  sendChannel :: "nat option"
  send_chans :: "nat \<Rightarrow> Message list"
  closeChannel :: "nat option"
  close_chans :: "nat \<Rightarrow> goerr option list"
  sendLoops :: "send_loop list"
  recvLoops :: "recv_pos list"
  messageHandler :: bool
  handled :: "Message list"
  connectedHandler :: bool
  connectCalls :: nat
  closeHandler :: bool
  closeCalls :: nat
  callers :: "nat \<Rightarrow> caller option"
  outgoing :: "(Message \<times> put_pos) list"
  waiters :: "nat \<Rightarrow> waiter option"
  timers :: "gval list"
  written :: "Message list"

definition InitStreaming :: "'t \<Rightarrow> 't client" where
  "InitStreaming t = \<lparr>cl_transport = t, pendingRequests = (\<lambda>k. None), contexts = [], cancelFunc = None,
     sendChannel = None, send_chans = (\<lambda>k. []), closeChannel = None, close_chans = (\<lambda>k. []),
     sendLoops = [], recvLoops = [], messageHandler = False, handled = [], connectedHandler = False,
     connectCalls = 0, closeHandler = False, closeCalls = 0, callers = (\<lambda>n. None), outgoing = [],
     waiters = (\<lambda>n. None), timers = [], written = []\<rparr>"

section \<open>Connection\<close>

definition Connected :: "('t, 'd, 'r, 'x) Transport \<Rightarrow> 't client \<Rightarrow> bool" where
  "Connected T c = tConnected T (cl_transport c)"

text \<open>What \<open>Connect\<close> does once the transport is connected: the handler, the context, the channels and the two
  goroutines.\<close>

definition new_connection :: "'t client \<Rightarrow> 't client" where
  "new_connection c =
     (let n = length (contexts c);
          c1 = (if connectedHandler c then c\<lparr>connectCalls := Suc (connectCalls c)\<rparr> else c)
      in c1\<lparr>contexts := contexts c1 @ [False], cancelFunc := Some n, sendChannel := Some n, closeChannel := Some n,
           sendLoops := sendLoops c1 @ [\<lparr>sl_ctx = n, sl_pos = SendTop\<rparr>], recvLoops := recvLoops c1 @ [RecvTop]\<rparr>)"

definition Connect :: "('t, 'd, 'r, 'x) Transport \<Rightarrow> 'd \<Rightarrow> 't client \<Rightarrow> goerr option \<times> 't client" where
  "Connect T d c =
     (if \<not> tConnected T (cl_transport c) then
        (case tConnect T d (cl_transport c) of
           (Some e, t) \<Rightarrow> (Some e, c\<lparr>cl_transport := t\<rparr>)
         | (None, t) \<Rightarrow> (None, new_connection (c\<lparr>cl_transport := t\<rparr>)))
      else (None, c))"

definition cancel_context :: "'t client \<Rightarrow> 't client" where
  "cancel_context c = (case cancelFunc c of
      Some i \<Rightarrow> c\<lparr>contexts := (contexts c)[i := True], cancelFunc := None\<rparr> | None \<Rightarrow> c)"

definition put_close :: "goerr option \<Rightarrow> 't client \<Rightarrow> 't client" where
  "put_close err c = (case closeChannel c of
      Some k \<Rightarrow> c\<lparr>close_chans := (close_chans c)(k := close_chans c k @ [err]), closeChannel := None\<rparr> | None \<Rightarrow> c)"

definition Reset :: "('t, 'd, 'r, 'x) Transport \<Rightarrow> goerr option \<Rightarrow> 't client \<Rightarrow> 't client" where
  "Reset T err c =
     (let c1 = put_close err (cancel_context c)
      in c1\<lparr>cl_transport := tClose T (cl_transport c1), sendChannel := None\<rparr>)"

definition Close :: "('t, 'd, 'r, 'x) Transport \<Rightarrow> 't client \<Rightarrow> 't client" where
  "Close T c = (if Connected T c then Reset T None c else c)"

definition handleError :: "('t, 'd, 'r, 'x) Transport \<Rightarrow> goerr \<Rightarrow> 't client \<Rightarrow> 't client" where
  "handleError T err c =
     (let c1 = Reset T (Some err) c
      in if closeHandler c1 then c1\<lparr>closeCalls := Suc (closeCalls c1), closeHandler := False\<rparr> else c1)"

definition OnMessage :: "'t client \<Rightarrow> goerr + 't client" where
  "OnMessage c = (if messageHandler c then Inl (EText ''message handler already exist!'')
     else Inr (c\<lparr>messageHandler := True\<rparr>))"

definition OnConnected :: "'t client \<Rightarrow> goerr + 't client" where
  "OnConnected c = (if connectedHandler c then Inl (EText ''connected handler already exist!'')
     else Inr (c\<lparr>connectedHandler := True\<rparr>))"

definition OnCloseClient :: "'t client \<Rightarrow> goerr + 't client" where
  "OnCloseClient c = (if closeHandler c then Inl (EText ''close handler already exist!'')
     else Inr (c\<lparr>closeHandler := True\<rparr>))"

text \<open>\<open>Wait\<close>, called by \<open>n\<close>: it blocks on the channel of the connection, or returns nil at once. \<open>wake\<close> is the end of
  the receive.\<close>

definition Wait :: "nat \<Rightarrow> 't client \<Rightarrow> 't client" where
  "Wait n c = c\<lparr>waiters := (waiters c)(n \<mapsto> (case closeChannel c of Some k \<Rightarrow> WaitOn k | None \<Rightarrow> WaitNil))\<rparr>"

definition wake :: "nat \<Rightarrow> 't client \<Rightarrow> 't client option" where
  "wake n c = (case waiters c n of
      Some (WaitOn k) \<Rightarrow> (case close_chans c k of
         [] \<Rightarrow> None
       | e # es \<Rightarrow> Some (c\<lparr>close_chans := (close_chans c)(k := es), waiters := (waiters c)(n \<mapsto> WaitGot k e)\<rparr>))
    | _ \<Rightarrow> None)"

section \<open>Results\<close>

definition deliver :: "nat \<Rightarrow> Message \<Rightarrow> 't client \<Rightarrow> 't client" where
  "deliver n m c = (case callers c n of
      None \<Rightarrow> c
    | Some ca \<Rightarrow> c\<lparr>callers := (callers c)(n \<mapsto> ca\<lparr>resultChannel := resultChannel ca @ [m]\<rparr>)\<rparr>)"

definition call_messageHandler :: "Message \<Rightarrow> 't client \<Rightarrow> 't client" where
  "call_messageHandler m c = (if messageHandler c then c\<lparr>handled := handled c @ [m]\<rparr> else c)"

definition handleResult :: "Message \<Rightarrow> 't client \<Rightarrow> 't client panicky" where
  "handleResult msg c = obind (MustId msg) (\<lambda>msgId.
     case pendingRequests c msgId of
       None \<Rightarrow> Returns (call_messageHandler msg c)
     | Some p \<Rightarrow>
         let c1 = c\<lparr>pendingRequests := (pendingRequests c)(msgId := None)\<rparr>
         in if msgId \<noteq> req_Id (pr_reqmsg p) then
              obind (ReplaceId msg (req_Id (pr_reqmsg p))) (\<lambda>resmsg. Returns (deliver (pr_chan p) resmsg c1))
            else Returns (deliver (pr_chan p) msg c1))"

definition expire :: "gval \<Rightarrow> 't client \<Rightarrow> 't client" where
  "expire k c = (case pendingRequests c k of
      None \<Rightarrow> c
    | Some p \<Rightarrow>
        let c1 = c\<lparr>pendingRequests := (pendingRequests c)(k := None)\<rparr>
        in (case ToMessage ErrTimeout (pr_reqmsg p) of
              Returns m \<Rightarrow> deliver (pr_chan p) (MError m) c1 | Panics _ \<Rightarrow> c1))"

text \<open>One message in \<open>recvLoop\<close>.\<close>

definition received :: "Message \<Rightarrow> 't client \<Rightarrow> 't client panicky" where
  "received msg c =
     (if \<not> IsResultOrError msg then Returns (call_messageHandler msg c) else handleResult msg c)"

section \<open>The loops\<close>

definition at_send :: "nat \<Rightarrow> send_pos \<Rightarrow> 't client \<Rightarrow> 't client" where
  "at_send i p c = c\<lparr>sendLoops := (sendLoops c)[i := (sendLoops c ! i)\<lparr>sl_pos := p\<rparr>]\<rparr>"

definition at_recv :: "nat \<Rightarrow> recv_pos \<Rightarrow> 't client \<Rightarrow> 't client" where
  "at_recv i p c = c\<lparr>recvLoops := (recvLoops c)[i := p]\<rparr>"

text \<open>What \<open>recvLoop\<close> does with what \<open>ReadMessage\<close> returned.\<close>

definition recv_result :: "('t, 'd, 'r, 'x) Transport \<Rightarrow> nat \<Rightarrow> Message option \<times> bool \<times> goerr option \<Rightarrow>
    't client \<Rightarrow> 't client run" where
  "recv_result T i res c = (case res of (m, readed, err) \<Rightarrow> (case err of
        Some e \<Rightarrow> Returns (at_recv i RecvEnded (handleError T e c))
      | None \<Rightarrow>
          if \<not> readed then Returns (at_recv i RecvTop c)
          else (case m of
              None \<Rightarrow> Panics nil_pointer
            | Some msg \<Rightarrow> (case received msg c of
                  Returns c' \<Rightarrow> Returns (at_recv i RecvTop c') | Panics p \<Rightarrow> Panics (PError (ERpc p))))))"

text \<open>The next move of the receive loop \<open>i\<close>; \<open>r\<close> is what the network does.\<close>

definition recvLoop :: "('t, 'd, 'r, 'x) Transport \<Rightarrow> 'r \<Rightarrow> nat \<Rightarrow> 't client \<Rightarrow> 't client run" where
  "recvLoop T r i c = (case recvLoops c ! i of
      RecvTop \<Rightarrow>
        if \<not> Connected T c then Returns (at_recv i RecvEnded c)
        else obind (tReadMessage T r (cl_transport c)) (\<lambda>res. Returns (at_recv i (Reading res) c))
    | Reading res \<Rightarrow> recv_result T i res c
    | RecvEnded \<Rightarrow> Returns c)"

text \<open>A message taken from the send channel: the second check, the write and its error.\<close>

definition send_taken :: "('t, 'd, 'r, 'x) Transport \<Rightarrow> 'x \<Rightarrow> nat \<Rightarrow> Message \<Rightarrow> 't client \<Rightarrow> 't client run" where
  "send_taken T x i m c =
     (if \<not> Connected T c then Returns (at_send i SendEnded c)
      else obind (tWriteMessage T x m (cl_transport c)) (\<lambda>err. case err of
          None \<Rightarrow> Returns (at_send i SendTop (c\<lparr>written := written c @ [m]\<rparr>))
        | Some e \<Rightarrow> Returns (at_send i SendEnded (handleError T e c))))"

text \<open>The next move of the send loop \<open>i\<close>; in \<open>select\<close> it stays where it is when the branch is not ready.\<close>

definition sendLoop :: "('t, 'd, 'r, 'x) Transport \<Rightarrow> 'x branch \<Rightarrow> nat \<Rightarrow> 't client \<Rightarrow> 't client run" where
  "sendLoop T br i c = (case sl_pos (sendLoops c ! i) of
      SendTop \<Rightarrow> Returns (at_send i (if Connected T c then Selecting (sendChannel c) else SendEnded) c)
    | SendEnded \<Rightarrow> Returns c
    | Selecting ch \<Rightarrow> (case br of
        CtxDone \<Rightarrow>
          if contexts c ! sl_ctx (sendLoops c ! i) then Returns (at_send i SendEnded (Close T c)) else Returns c
      | TakeMsg x \<Rightarrow> (case ch of
          None \<Rightarrow> Returns c
        | Some k \<Rightarrow> (case send_chans c k of
            [] \<Rightarrow> Returns c
          | m # q \<Rightarrow> send_taken T x i m (c\<lparr>send_chans := (send_chans c)(k := q)\<rparr>)))))"

text \<open>What \<open>Call\<close> and \<open>UnwrapCall\<close> make of the result of \<open>request\<close>; \<open>decode\<close> is
  \<open>DecodeInterface\<close> into the output.\<close>

definition Call :: "RequestMessage \<Rightarrow> goerr + Message \<Rightarrow> goerr + Message" where
  "Call reqmsg res = (case res of
      Inl e \<Rightarrow> Inl (EWrap (''RPC('' @ req_Method reqmsg @ '')'') e)
    | Inr m \<Rightarrow> Inr m)"

definition UnwrapCall ::
  "(gval \<Rightarrow> goerr + 'o) \<Rightarrow> RequestMessage \<Rightarrow> goerr + Message \<Rightarrow> (RPCError, (goerr + 'o) option) outcome" where
  "UnwrapCall decode reqmsg res = (case Call reqmsg res of
      Inl e \<Rightarrow> Returns (Some (Inl e))
    | Inr m \<Rightarrow>
        (if IsResult m then
           obind (MustResult m) (\<lambda>v. Returns (Some (case decode v of
              Inl e \<Rightarrow> Inl (EWrap (''RPC('' @ req_Method reqmsg @ '')'') e)
            | Inr y \<Rightarrow> Inr y)))
         else obind (MustError m) (\<lambda>e. Returns (map_option (\<lambda>x. Inl (ERpc x)) e))))"

section \<open>request\<close>

definition set_phase :: "nat \<Rightarrow> phase \<Rightarrow> 't client \<Rightarrow> 't client" where
  "set_phase n ph c = (case callers c n of
      None \<Rightarrow> c
    | Some ca \<Rightarrow> c\<lparr>callers := (callers c)(n \<mapsto> ca\<lparr>ca_phase := ph\<rparr>)\<rparr>)"

text \<open>The choice of the message to send; \<open>u\<close> is the id \<open>NewUuid\<close> would give.\<close>

definition choose_sendmsg :: "string \<Rightarrow> RequestMessage \<Rightarrow> 't client \<Rightarrow> RequestMessage panicky" where
  "choose_sendmsg u reqmsg c =
     (if pendingRequests c (req_Id reqmsg) \<noteq> None then Clone reqmsg (VString u) else Returns reqmsg)"

definition store :: "nat \<Rightarrow> RequestMessage \<Rightarrow> RequestMessage \<Rightarrow> 't client \<Rightarrow> 't client" where
  "store n reqmsg sendmsg c = c\<lparr>pendingRequests :=
     (pendingRequests c)(req_Id sendmsg \<mapsto> \<lparr>pr_reqmsg = reqmsg, pr_chan = n\<rparr>)\<rparr>"

text \<open>The end of a send on channel \<open>k\<close>, which holds 100 messages.\<close>

definition put :: "Message \<Rightarrow> nat \<Rightarrow> 't client \<Rightarrow> 't client option" where
  "put m k c = (if length (send_chans c k) < 100
     then Some (c\<lparr>send_chans := (send_chans c)(k := send_chans c k @ [m])\<rparr>) else None)"

definition new_caller :: "nat \<Rightarrow> RequestMessage \<Rightarrow> phase \<Rightarrow> 't client \<Rightarrow> 't client" where
  "new_caller n r ph c = c\<lparr>callers := (callers c)(n \<mapsto> \<lparr>ca_req = r, ca_phase = ph, resultChannel = []\<rparr>)\<rparr>"

definition phase_of :: "'t client \<Rightarrow> nat \<Rightarrow> phase option" where
  "phase_of c n = map_option ca_phase (callers c n)"

text \<open>\<open>Send\<close>, up to the statement that sends on the channel; the message then waits in \<open>outgoing\<close>.\<close>

definition Send :: "('t, 'd, 'r, 'x) Transport \<Rightarrow> 'd \<Rightarrow> Message \<Rightarrow> 't client \<Rightarrow> goerr option \<times> 't client" where
  "Send T d m c = (case Connect T d c of
      (Some e, c') \<Rightarrow> (Some e, c')
    | (None, c') \<Rightarrow> (None, c'\<lparr>outgoing := outgoing c' @ [(m, PutReady)]\<rparr>))"

lemma SendE:
  assumes "Send T d m c = (None, c')"
  obtains c1 where "Connect T d c = (None, c1)" "c' = c1\<lparr>outgoing := outgoing c1 @ [(m, PutReady)]\<rparr>"
  using assms by (auto simp: Send_def split: prod.splits option.splits)

text \<open>
  The steps. \<open>call\<close> to \<open>return\<close> are the statements of one call of \<open>request\<close>, in order; \<open>app_connect\<close> to
  \<open>app_put\<close> are those of \<open>Connect\<close> and \<open>Send\<close> called by the application; a blocked send or receive is the
  absence of a step. \<open>cancelled\<close> is the end of the context a connection was made with.
\<close>

inductive step :: "('t, 'd, 'r, 'x) Transport \<Rightarrow> 't client \<Rightarrow> 't client \<Rightarrow> bool"
  for T :: "('t, 'd, 'r, 'x) Transport" where
  call: "callers c n = None \<Longrightarrow> message_ok (MRequest r) \<Longrightarrow> Connect T d c = (None, c') \<Longrightarrow>
    step T c (new_caller n r Started c')"
| call_fail: "callers c n = None \<Longrightarrow> message_ok (MRequest r) \<Longrightarrow> Connect T d c = (Some e, c') \<Longrightarrow>
    step T c (new_caller n r (Failed e) c')"
| load: "callers c n = Some ca \<Longrightarrow> ca_phase ca = Started \<Longrightarrow> pendingRequests c (VString u) = None \<Longrightarrow>
    choose_sendmsg u (ca_req ca) c = Returns sendmsg \<Longrightarrow> step T c (set_phase n (Loaded sendmsg) c)"
| store: "callers c n = Some ca \<Longrightarrow> ca_phase ca = Loaded sendmsg \<Longrightarrow>
    step T c (set_phase n (Stored sendmsg) (store n (ca_req ca) sendmsg c))"
| send: "phase_of c n = Some (Stored sendmsg) \<Longrightarrow> Connect T d c = (None, c1) \<Longrightarrow>
    step T c (set_phase n (Sending sendmsg PutReady) c1)"
| send_fail: "phase_of c n = Some (Stored sendmsg) \<Longrightarrow> Connect T d c = (Some e, c1) \<Longrightarrow>
    step T c (set_phase n (Failed e) c1)"
| send_eval: "phase_of c n = Some (Sending sendmsg PutReady) \<Longrightarrow>
    step T c (set_phase n (Sending sendmsg (PutOn (sendChannel c))) c)"
| send_put: "phase_of c n = Some (Sending sendmsg (PutOn (Some k))) \<Longrightarrow> put (MRequest sendmsg) k c = Some c1 \<Longrightarrow>
    step T c (set_phase n (Sent sendmsg) c1)"
| timer: "phase_of c n = Some (Sent sendmsg) \<Longrightarrow>
    step T c (set_phase n Waiting (c\<lparr>timers := timers c @ [req_Id sendmsg]\<rparr>))"
| return: "callers c n = Some ca \<Longrightarrow> ca_phase ca = Waiting \<Longrightarrow> resultChannel ca = m # ms \<Longrightarrow>
    step T c (c\<lparr>callers := (callers c)(n \<mapsto> ca\<lparr>ca_phase := Returned m, resultChannel := ms\<rparr>)\<rparr>)"
| app_connect: "Connect T d c = (e, c') \<Longrightarrow> step T c c'"
| app_send: "Send T d m c = (None, c') \<Longrightarrow> step T c c'"
| app_eval: "outgoing c = xs @ (m, PutReady) # ys \<Longrightarrow>
    step T c (c\<lparr>outgoing := xs @ (m, PutOn (sendChannel c)) # ys\<rparr>)"
| app_put: "outgoing c = xs @ (m, PutOn (Some k)) # ys \<Longrightarrow> put m k c = Some c1 \<Longrightarrow>
    step T c (c1\<lparr>outgoing := xs @ ys\<rparr>)"
| send_loop: "i < length (sendLoops c) \<Longrightarrow> sendLoop T br i c = Returns c' \<Longrightarrow> step T c c'"
| recv_loop: "i < length (recvLoops c) \<Longrightarrow> recvLoop T r i c = Returns c' \<Longrightarrow> step T c c'"
| expire: "timers c = ks @ k # ks' \<Longrightarrow> step T c (expire k (c\<lparr>timers := ks @ ks'\<rparr>))"
| close: "step T c (Close T c)"
| reset: "step T c (Reset T e c)"
| cancelled: "i < length (contexts c) \<Longrightarrow> step T c (c\<lparr>contexts := (contexts c)[i := True]\<rparr>)"
| wait: "waiters c n = None \<Longrightarrow> step T c (Wait n c)"
| woken: "wake n c = Some c' \<Longrightarrow> step T c c'"
| on_message: "OnMessage c = Inr c' \<Longrightarrow> step T c c'"
| on_connected: "OnConnected c = Inr c' \<Longrightarrow> step T c c'"
| on_close: "OnCloseClient c = Inr c' \<Longrightarrow> step T c c'"

text \<open>The initial states are those of a client whose transport is not connected.\<close>

definition client_init :: "('t, 'd, 'r, 'x) Transport \<Rightarrow> 't client \<Rightarrow> bool" where
  "client_init T c = (\<exists>t. \<not> tConnected T t \<and> c = InitStreaming t)"

abbreviation reachable :: "('t, 'd, 'r, 'x) Transport \<Rightarrow> 't client \<Rightarrow> bool" where
  "reachable T \<equiv> reach (client_init T) (step T)"

end
