(* ===== verification/Streaming_Laws.thy ===== *)
theory Streaming_Laws
  imports Streaming
begin

text \<open>
  Invariants of the streaming client over every interleaving of its goroutines: no caller
  ever gets two answers, an answer carries the id its caller asked with, and, when the ids
  of the requests are distinct, no waiting caller is forgotten. Two interleavings the code
  does not exclude are exhibited: two requests with one id of which one is never answered,
  and a timer of a finished request that ends a later one.
\<close>

named_theorems client_frame \<open>what an operation leaves alone\<close>

lemma new_connection_frame [simp, client_frame]:
  "pendingRequests (new_connection c) = pendingRequests c" "callers (new_connection c) = callers c"
  "timers (new_connection c) = timers c" "cl_transport (new_connection c) = cl_transport c"
  by (simp_all add: new_connection_def Let_def)

lemma Connect_frame [client_frame]:
  "Connect T d c = (e, c') \<Longrightarrow> pendingRequests c' = pendingRequests c \<and> callers c' = callers c \<and> timers c' = timers c"
  by (auto simp: Connect_def split: if_splits option.splits prod.splits)

lemma Reset_frame [simp, client_frame]:
  "pendingRequests (Reset T e c) = pendingRequests c" "callers (Reset T e c) = callers c"
  "timers (Reset T e c) = timers c" "recvLoops (Reset T e c) = recvLoops c"
  "sendLoops (Reset T e c) = sendLoops c"
  by (simp_all add: Reset_def put_close_def cancel_context_def Let_def split: option.split)

lemma Close_frame [simp, client_frame]:
  "pendingRequests (Close T c) = pendingRequests c" "callers (Close T c) = callers c"
  "timers (Close T c) = timers c" "recvLoops (Close T c) = recvLoops c" "sendLoops (Close T c) = sendLoops c"
  by (simp_all add: Close_def)

lemma handleError_frame [simp, client_frame]:
  "pendingRequests (handleError T e c) = pendingRequests c" "callers (handleError T e c) = callers c"
  "timers (handleError T e c) = timers c" "recvLoops (handleError T e c) = recvLoops c"
  "sendLoops (handleError T e c) = sendLoops c"
  by (simp_all add: handleError_def Let_def)

lemma loops_frame [simp, client_frame]:
  "pendingRequests (at_send i p c) = pendingRequests c" "callers (at_send i p c) = callers c"
  "timers (at_send i p c) = timers c" "cl_transport (at_send i p c) = cl_transport c"
  "recvLoops (at_send i p c) = recvLoops c"
  "pendingRequests (at_recv i q c) = pendingRequests c" "callers (at_recv i q c) = callers c"
  "timers (at_recv i q c) = timers c" "cl_transport (at_recv i q c) = cl_transport c"
  "recvLoops (at_recv i q c) = (recvLoops c)[i := q]"
  by (simp_all add: at_send_def at_recv_def)

lemma put_frame [client_frame]:
  "put m k c = Some c' \<Longrightarrow> pendingRequests c' = pendingRequests c \<and> callers c' = callers c \<and> timers c' = timers c"
  by (auto simp: put_def split: if_splits)

lemma wait_frame [simp, client_frame]:
  "pendingRequests (Wait n c) = pendingRequests c" "callers (Wait n c) = callers c" "timers (Wait n c) = timers c"
  by (simp_all add: Wait_def)

lemma wake_frame [client_frame]:
  "wake n c = Some c' \<Longrightarrow> pendingRequests c' = pendingRequests c \<and> callers c' = callers c \<and> timers c' = timers c"
  by (auto simp: wake_def split: option.splits waiter.splits list.splits)

lemma handler_frame [simp, client_frame]:
  "pendingRequests (call_messageHandler m c) = pendingRequests c"
  "callers (call_messageHandler m c) = callers c" "timers (call_messageHandler m c) = timers c"
  by (simp_all add: call_messageHandler_def)

lemma on_frame [client_frame]:
  "OnMessage c = Inr c' \<Longrightarrow> pendingRequests c' = pendingRequests c \<and> callers c' = callers c \<and> timers c' = timers c"
  "OnConnected c = Inr c' \<Longrightarrow> pendingRequests c' = pendingRequests c \<and> callers c' = callers c \<and> timers c' = timers c"
  "OnCloseClient c = Inr c' \<Longrightarrow> pendingRequests c' = pendingRequests c \<and> callers c' = callers c \<and> timers c' = timers c"
  by (auto simp: OnMessage_def OnConnected_def OnCloseClient_def split: if_splits)

text \<open>The send loop only touches the connection; the receive loop either does the same or handles a message
  that \<open>ReadMessage\<close> has returned.\<close>

lemma sendLoop_frame [client_frame]:
  "sendLoop T br i c = Returns c' \<Longrightarrow>
   pendingRequests c' = pendingRequests c \<and> callers c' = callers c \<and> timers c' = timers c \<and> recvLoops c' = recvLoops c"
  by (auto simp: sendLoop_def send_taken_def obind_Returns_iff
      split: send_pos.splits branch.splits option.splits list.splits if_splits)

lemma recvLoop_cases:
  assumes "recvLoop T r i c = Returns c'"
  obtains (quiet) "pendingRequests c' = pendingRequests c \<and> callers c' = callers c \<and> timers c' = timers c"
  | (message) m c1 where "recvLoops c ! i = Reading (Some m, True, None)" "received m c = Returns c1"
      "c' = at_recv i RecvTop c1"
  using assms
  by (auto simp: recvLoop_def recv_result_def obind_Returns_iff
      split: recv_pos.splits option.splits if_splits outcome.splits)

lemma set_phase_frame [simp]:
  "pendingRequests (set_phase n ph c) = pendingRequests c" "timers (set_phase n ph c) = timers c"
  by (simp_all add: set_phase_def split: option.split)

lemma deliver_frame [simp]:
  "pendingRequests (deliver n m c) = pendingRequests c" "timers (deliver n m c) = timers c"
  by (simp_all add: deliver_def split: option.split)

lemma store_frame [simp]:
  "pendingRequests (store n r s c) = (pendingRequests c)(req_Id s \<mapsto> \<lparr>pr_reqmsg = r, pr_chan = n\<rparr>)"
  "callers (store n r s c) = callers c" "timers (store n r s c) = timers c"
  by (simp_all add: store_def)

lemma deliver_callers:
  "callers (deliver n m c) = (case callers c n of None \<Rightarrow> callers c
     | Some ca \<Rightarrow> (callers c)(n \<mapsto> ca\<lparr>resultChannel := resultChannel ca @ [m]\<rparr>))"
  by (simp add: deliver_def split: option.split)

lemma set_phase_callers:
  "callers (set_phase n ph c) = (case callers c n of None \<Rightarrow> callers c
     | Some ca \<Rightarrow> (callers c)(n \<mapsto> ca\<lparr>ca_phase := ph\<rparr>))"
  by (simp add: set_phase_def split: option.split)

section \<open>The steps, seen from the callers\<close>

text \<open>Most steps leave the table, the callers and the timers alone; the others are those below.\<close>

definition same_calls :: "'t client \<Rightarrow> 't client \<Rightarrow> bool" where
  "same_calls c c' = (pendingRequests c' = pendingRequests c \<and> callers c' = callers c \<and> timers c' = timers c)"

lemma same_callsD:
  "same_calls c c' \<Longrightarrow> pendingRequests c' = pendingRequests c" "same_calls c c' \<Longrightarrow> callers c' = callers c"
  "same_calls c c' \<Longrightarrow> timers c' = timers c"
  by (simp_all add: same_calls_def)

text \<open>The moves of a call that do not touch the table or the timers.\<close>

definition phase_move :: "'t client \<Rightarrow> caller \<Rightarrow> phase \<Rightarrow> bool" where
  "phase_move c ca ph = (case ca_phase ca of
      Started \<Rightarrow> (\<exists>u s. choose_sendmsg u (ca_req ca) c = Returns s \<and> ph = Loaded s)
    | Stored s \<Rightarrow> ph = Sending s PutReady \<or> (\<exists>e. ph = Failed e)
    | Sending s p \<Rightarrow> ph = Sent s \<or> (\<exists>q. ph = Sending s q)
    | _ \<Rightarrow> False)"

lemma phase_moveE:
  assumes "phase_move c ca ph"
  obtains (load) u s where "ca_phase ca = Started" "choose_sendmsg u (ca_req ca) c = Returns s" "ph = Loaded s"
  | (begin_send) s where "ca_phase ca = Stored s" "ph = Sending s PutReady"
  | (fail) s e where "ca_phase ca = Stored s" "ph = Failed e"
  | (go_on) s p q where "ca_phase ca = Sending s p" "ph = Sending s q"
  | (sent) s p where "ca_phase ca = Sending s p" "ph = Sent s"
  using assms by (auto simp: phase_move_def split: phase.splits)

lemma phase_of_Some: "phase_of c n = Some ph \<longleftrightarrow> (\<exists>ca. callers c n = Some ca \<and> ca_phase ca = ph)"
  by (auto simp: phase_of_def)

lemma step_cases [consumes 1, case_names quiet call move store timer return message expire]:
  assumes "step T c c'"
  obtains (quiet) "same_calls c c'"
  | (call) n r ph c1 where "callers c n = None" "message_ok (MRequest r)" "ph = Started \<or> (\<exists>e. ph = Failed e)"
      "same_calls c c1" "c' = new_caller n r ph c1"
  | (move) n ca ph c1 where "callers c n = Some ca" "phase_move c ca ph" "same_calls c c1" "c' = set_phase n ph c1"
  | (store) n ca sendmsg where "callers c n = Some ca" "ca_phase ca = Loaded sendmsg"
      "c' = set_phase n (Stored sendmsg) (store n (ca_req ca) sendmsg c)"
  | (timer) n ca sendmsg where "callers c n = Some ca" "ca_phase ca = Sent sendmsg"
      "c' = set_phase n Waiting (c\<lparr>timers := timers c @ [req_Id sendmsg]\<rparr>)"
  | (return) n ca m ms where "callers c n = Some ca" "ca_phase ca = Waiting" "resultChannel ca = m # ms"
      "c' = c\<lparr>callers := (callers c)(n \<mapsto> ca\<lparr>ca_phase := Returned m, resultChannel := ms\<rparr>)\<rparr>"
  | (message) i m c1 where "i < length (recvLoops c)" "recvLoops c ! i = Reading (Some m, True, None)"
      "received m c = Returns c1" "same_calls c1 c'"
  | (expire) ks k ks' where "timers c = ks @ k # ks'" "c' = expire k (c\<lparr>timers := ks @ ks'\<rparr>)"
  using assms
proof cases
  case (load n ca u sendmsg)
  then show ?thesis by (intro move [of n ca "Loaded sendmsg" c]) (auto simp: phase_move_def same_calls_def)
next
  case (send n sendmsg d c1)
  then obtain ca where "callers c n = Some ca" "ca_phase ca = Stored sendmsg" by (auto simp: phase_of_Some)
  with send show ?thesis
    using Connect_frame [of T d c None c1]
    by (intro move [of n ca "Sending sendmsg PutReady" c1]) (auto simp: phase_move_def same_calls_def)
next
  case (send_fail n sendmsg d e c1)
  then obtain ca where "callers c n = Some ca" "ca_phase ca = Stored sendmsg" by (auto simp: phase_of_Some)
  with send_fail show ?thesis
    using Connect_frame [of T d c "Some e" c1]
    by (intro move [of n ca "Failed e" c1]) (auto simp: phase_move_def same_calls_def)
next
  case (send_eval n sendmsg)
  then obtain ca where "callers c n = Some ca" "ca_phase ca = Sending sendmsg PutReady" by (auto simp: phase_of_Some)
  with send_eval show ?thesis
    by (intro move [of n ca "Sending sendmsg (PutOn (sendChannel c))" c]) (auto simp: phase_move_def same_calls_def)
next
  case (send_put n sendmsg k c1)
  then obtain ca where "callers c n = Some ca" "ca_phase ca = Sending sendmsg (PutOn (Some k))" by (auto simp: phase_of_Some)
  with send_put show ?thesis
    using put_frame [of "MRequest sendmsg" k c c1]
    by (intro move [of n ca "Sent sendmsg" c1]) (auto simp: phase_move_def same_calls_def)
next
  case (timer n sendmsg)
  then show ?thesis using that(5) by (auto simp: phase_of_Some)
next
  case (send_loop i br)
  then show ?thesis using sendLoop_frame that(1) unfolding same_calls_def by blast
next
  case (recv_loop i r)
  from recv_loop(2) show ?thesis
  proof (cases rule: recvLoop_cases)
    case quiet
    then show ?thesis using that(1) by (simp add: same_calls_def)
  next
    case (message m c1)
    then show ?thesis using recv_loop(1) that(7) by (simp add: same_calls_def)
  qed
next
  case (call n r d c1)
  then show ?thesis using Connect_frame [OF call(4)] by (intro that(2) [of n r Started c1]) (auto simp: same_calls_def)
next
  case (call_fail n r d e c1)
  then show ?thesis using Connect_frame [OF call_fail(4)] by (intro that(2) [of n r "Failed e" c1]) (auto simp: same_calls_def)
next
  case (app_connect d e)
  then show ?thesis using Connect_frame [OF app_connect] that(1) by (simp add: same_calls_def)
next
  case (app_send d m)
  then show ?thesis using that(1) by (auto elim!: SendE simp: same_calls_def dest!: Connect_frame)
next
  case (app_put xs m k ys c1)
  then show ?thesis using put_frame [OF app_put(3)] that(1) by (simp add: same_calls_def)
next
  case (woken n)
  then show ?thesis using wake_frame [OF woken] that(1) by (simp add: same_calls_def)
next
  case on_message
  then show ?thesis using on_frame(1) [OF on_message] that(1) by (simp add: same_calls_def)
next
  case on_connected
  then show ?thesis using on_frame(2) [OF on_connected] that(1) by (simp add: same_calls_def)
next
  case on_close
  then show ?thesis using on_frame(3) [OF on_close] that(1) by (simp add: same_calls_def)
next
  case (store n ca sendmsg)
  then show ?thesis by (intro that(4))
next
  case (return n ca m ms)
  then show ?thesis by (intro that(6))
next
  case (expire ks k ks')
  then show ?thesis by (intro that(8))
next
  case (app_eval xs m ys)
  show ?thesis by (rule that(1)) (simp add: app_eval(1) same_calls_def)
next
  case close
  show ?thesis by (rule that(1)) (simp add: close same_calls_def)
next
  case (reset e)
  show ?thesis by (rule that(1)) (simp add: reset same_calls_def)
next
  case (cancelled i)
  show ?thesis by (rule that(1)) (simp add: cancelled(1) same_calls_def)
next
  case (wait n)
  show ?thesis by (rule that(1)) (simp add: wait(1) same_calls_def)
qed

text \<open>A client of a hearing transport is a client of the transport.\<close>

lemma hears_client [simp]:
  "Connect (hears d T) = Connect T" "Connected (hears d T) = Connected T" "Reset (hears d T) = Reset T"
  "Close (hears d T) = Close T" "handleError (hears d T) = handleError T"
  by (intro ext; simp add: Connect_def Connected_def Reset_def Close_def handleError_def Let_def)+

lemma hears_taken [simp]: "send_taken (hears d T) = send_taken T" "recv_result (hears d T) = recv_result T"
  by (intro ext; unfold send_taken_def recv_result_def hears_client hears_simps; rule refl)+

lemma hears_loops [simp]: "sendLoop (hears d T) = sendLoop T" "recvLoop (hears d T) x = recvLoop T (d x)"
  by (intro ext; unfold sendLoop_def recvLoop_def hears_client hears_taken hears_simps; rule refl)+

lemma hears_send: "Send (hears d T) = Send T"
  by (intro ext; unfold Send_def hears_client; rule refl)

lemma hears_step: "step (hears d T) c c' \<Longrightarrow> step T c c'"
  by (erule step.cases; simp only: hears_client hears_loops hears_send; blast intro: step.intros)

section \<open>The table and the callers\<close>

definition answer_to :: "caller \<Rightarrow> Message \<Rightarrow> bool" where
  "answer_to ca m = (MustId m = Returns (req_Id (ca_req ca)) \<and> IsResultOrError m \<and> kind_ok m)"

definition in_table :: "phase \<Rightarrow> bool" where
  "in_table ph = (case ph of Stored _ \<Rightarrow> True | Sending _ _ \<Rightarrow> True | Sent _ \<Rightarrow> True | Waiting \<Rightarrow> True | Failed _ \<Rightarrow> True | _ \<Rightarrow> False)"

definition caller_ok :: "caller \<Rightarrow> bool" where
  "caller_ok ca = (message_ok (MRequest (ca_req ca)) \<and> length (resultChannel ca) \<le> 1 \<and>
     (\<forall>m \<in> set (resultChannel ca). answer_to ca m) \<and>
     (in_table (ca_phase ca) \<or> resultChannel ca = []) \<and>
     (case ca_phase ca of Returned m \<Rightarrow> answer_to ca m | _ \<Rightarrow> True))"

definition table_ok :: "(gval \<Rightarrow> pendingRequest option) \<Rightarrow> (nat \<Rightarrow> caller option) \<Rightarrow> bool" where
  "table_ok P C =
     ((\<forall>k p. P k = Some p \<longrightarrow> (\<exists>ca. C (pr_chan p) = Some ca \<and> ca_req ca = pr_reqmsg p \<and>
         in_table (ca_phase ca) \<and> resultChannel ca = [])) \<and>
      (\<forall>k k' p p'. P k = Some p \<longrightarrow> P k' = Some p' \<longrightarrow> pr_chan p = pr_chan p' \<longrightarrow> k = k') \<and>
      (\<forall>n ca. C n = Some ca \<longrightarrow> caller_ok ca))"

lemma table_entry: "table_ok P C \<Longrightarrow> P k = Some p \<Longrightarrow>
    \<exists>ca. C (pr_chan p) = Some ca \<and> ca_req ca = pr_reqmsg p \<and> in_table (ca_phase ca) \<and> resultChannel ca = []"
  by (simp add: table_ok_def)

lemma table_inj: "table_ok P C \<Longrightarrow> P k = Some p \<Longrightarrow> P k' = Some p' \<Longrightarrow> pr_chan p = pr_chan p' \<Longrightarrow> k = k'"
  by (simp add: table_ok_def)

lemma table_caller: "table_ok P C \<Longrightarrow> C n = Some ca \<Longrightarrow> caller_ok ca"
  by (simp add: table_ok_def)

lemma table_okI:
  assumes "\<And>k p. P k = Some p \<Longrightarrow> \<exists>ca. C (pr_chan p) = Some ca \<and> ca_req ca = pr_reqmsg p \<and>
      in_table (ca_phase ca) \<and> resultChannel ca = []"
    and "\<And>k k' p p'. P k = Some p \<Longrightarrow> P k' = Some p' \<Longrightarrow> pr_chan p = pr_chan p' \<Longrightarrow> k = k'"
    and "\<And>n ca. C n = Some ca \<Longrightarrow> caller_ok ca"
  shows "table_ok P C"
  unfolding table_ok_def using assms by blast

lemma caller_ok_upd: "table_ok P C \<Longrightarrow> caller_ok ca \<Longrightarrow> (C(n \<mapsto> ca)) j = Some ca' \<Longrightarrow> caller_ok ca'"
  by (cases "j = n") (auto dest: table_caller)

lemma table_new:
  assumes T: "table_ok P C" and n: "C n = None" and r: "message_ok (MRequest r)" and ph: "ph = Started \<or> (\<exists>e. ph = Failed e)"
  shows "table_ok P (C(n \<mapsto> \<lparr>ca_req = r, ca_phase = ph, resultChannel = []\<rparr>))"
proof (rule table_okI)
  fix k p assume p: "P k = Some p"
  then have "pr_chan p \<noteq> n" using table_entry [OF T p] n by auto
  then show "\<exists>ca. (C(n \<mapsto> \<lparr>ca_req = r, ca_phase = ph, resultChannel = []\<rparr>)) (pr_chan p) = Some ca \<and>
      ca_req ca = pr_reqmsg p \<and> in_table (ca_phase ca) \<and> resultChannel ca = []"
    using table_entry [OF T p] by simp
next
  fix j ca assume "(C(n \<mapsto> \<lparr>ca_req = r, ca_phase = ph, resultChannel = []\<rparr>)) j = Some ca"
  moreover have "caller_ok \<lparr>ca_req = r, ca_phase = ph, resultChannel = []\<rparr>"
    using r ph by (auto simp: caller_ok_def)
  ultimately show "caller_ok ca" by (rule caller_ok_upd [OF T, rotated])
qed (rule table_inj [OF T])

lemma table_phase:
  assumes T: "table_ok P C" "C n = Some ca" and ok: "caller_ok (ca\<lparr>ca_phase := ph\<rparr>)"
    and keep: "in_table (ca_phase ca) \<Longrightarrow> in_table ph"
  shows "table_ok P (C(n \<mapsto> ca\<lparr>ca_phase := ph\<rparr>))"
proof (rule table_okI)
  fix k p assume "P k = Some p"
  from table_entry [OF T(1) this]
  show "\<exists>ca'. (C(n \<mapsto> ca\<lparr>ca_phase := ph\<rparr>)) (pr_chan p) = Some ca' \<and> ca_req ca' = pr_reqmsg p \<and>
      in_table (ca_phase ca') \<and> resultChannel ca' = []"
    using T(2) keep by (cases "pr_chan p = n") auto
qed (rule table_inj [OF T(1)], assumption+, erule caller_ok_upd [OF T(1) ok])

text \<open>Storing an entry: the caller had none.\<close>

lemma table_store:
  assumes T: "table_ok P C" "C n = Some ca" and ph: "\<not> in_table (ca_phase ca)" "in_table ph"
    and ok: "caller_ok (ca\<lparr>ca_phase := ph\<rparr>)" and p: "pr_chan p = n" "pr_reqmsg p = ca_req ca"
  shows "table_ok (P(k \<mapsto> p)) (C(n \<mapsto> ca\<lparr>ca_phase := ph\<rparr>))"
proof -
  have none: "pr_chan q \<noteq> n" if "P j = Some q" for j q
    using table_entry [OF T(1) that] T(2) ph(1) by auto
  have empty: "resultChannel ca = []"
    using table_caller [OF T] ph(1) by (simp add: caller_ok_def)
  have "\<exists>ca'. (C(n \<mapsto> ca\<lparr>ca_phase := ph\<rparr>)) (pr_chan q) = Some ca' \<and> ca_req ca' = pr_reqmsg q \<and>
      in_table (ca_phase ca') \<and> resultChannel ca' = []" if "(P(k \<mapsto> p)) j = Some q" for j q
    using that table_entry [OF T(1), of j q] none [of j q] ph(2) p empty by (auto split: if_splits)
  moreover have "j = j'" if "(P(k \<mapsto> p)) j = Some q" "(P(k \<mapsto> p)) j' = Some q'" "pr_chan q = pr_chan q'" for j j' q q'
    using that none [of j q] none [of j' q'] table_inj [OF T(1), of j q j' q'] p(1) by (auto split: if_splits)
  ultimately show ?thesis
    by (rule table_okI) (assumption+, erule caller_ok_upd [OF T(1) ok])
qed

lemma caller_deliver:
  "caller_ok ca \<Longrightarrow> resultChannel ca = [] \<Longrightarrow> in_table (ca_phase ca) \<Longrightarrow> answer_to ca m \<Longrightarrow>
   caller_ok (ca\<lparr>resultChannel := [m]\<rparr>)"
  by (auto simp: caller_ok_def answer_to_def in_table_def split: phase.splits)

text \<open>Delivering: the entry leaves the table and its caller gets the answer.\<close>

lemma table_deliver:
  assumes T: "table_ok P C" "P k = Some p" and C: "C (pr_chan p) = Some ca" and m: "answer_to ca m"
  shows "table_ok (P(k := None)) (C(pr_chan p \<mapsto> ca\<lparr>resultChannel := [m]\<rparr>))"
proof -
  obtain ca' where ca: "C (pr_chan p) = Some ca'" "resultChannel ca' = []" "in_table (ca_phase ca')"
    using table_entry [OF T] by blast
  then have ok: "caller_ok (ca\<lparr>resultChannel := [m]\<rparr>)"
    using C m table_caller [OF T(1) C] by (auto intro: caller_deliver)
  have other: "pr_chan q \<noteq> pr_chan p" if "(P(k := None)) j = Some q" for j q
    using that table_inj [OF T(1) _ T(2), of j q] by (auto split: if_splits)
  have "\<exists>ca'. (C(pr_chan p \<mapsto> ca\<lparr>resultChannel := [m]\<rparr>)) (pr_chan q) = Some ca' \<and> ca_req ca' = pr_reqmsg q \<and>
      in_table (ca_phase ca') \<and> resultChannel ca' = []" if "(P(k := None)) j = Some q" for j q
    using other [OF that] that table_entry [OF T(1), of j q] by (auto split: if_splits)
  moreover have "j = j'" if "(P(k := None)) j = Some q" "(P(k := None)) j' = Some q'" "pr_chan q = pr_chan q'" for j j' q q'
    using that table_inj [OF T(1), of j q j' q'] by (auto split: if_splits)
  ultimately show ?thesis
    by (rule table_okI) (assumption+, erule caller_ok_upd [OF T(1) ok])
qed

section \<open>Every step keeps the table\<close>

lemma ReplaceId_answer:
  "message_ok m \<Longrightarrow> IsResultOrError m \<Longrightarrow>
   \<exists>m'. ReplaceId m i = Returns m' \<and> MustId m' = Returns i \<and> IsResultOrError m' \<and> kind_ok m'"
  by (cases m) (auto simp: message_ok_def kind_ok_def message_defs)

lemma MustId_answer: "message_ok m \<Longrightarrow> IsResultOrError m \<Longrightarrow> \<exists>i. MustId m = Returns i"
  by (cases m) (auto simp: message_ok_def kind_ok_def message_defs)

text \<open>What \<open>handleResult\<close> does with the result of a pending request and with any other.\<close>

lemma handleResult_cases [consumes 2]:
  assumes "message_ok m" "IsResultOrError m"
  obtains (other) i where "MustId m = Returns i" "pendingRequests c i = None"
      "handleResult m c = Returns (call_messageHandler m c)"
  | (pending) i p m' where "MustId m = Returns i" "pendingRequests c i = Some p"
      "MustId m' = Returns (req_Id (pr_reqmsg p))" "IsResultOrError m'"
      "handleResult m c = Returns (deliver (pr_chan p) m' (c\<lparr>pendingRequests := (pendingRequests c)(i := None)\<rparr>))"
      "i = req_Id (pr_reqmsg p) \<longrightarrow> m' = m" "kind_ok m'"
proof -
  obtain i where i: "MustId m = Returns i" using MustId_answer [OF assms] by blast
  show ?thesis
  proof (cases "pendingRequests c i")
    case None
    with i show ?thesis by (intro other) (simp_all add: handleResult_def)
  next
    case (Some p)
    obtain m' where m': "ReplaceId m (req_Id (pr_reqmsg p)) = Returns m'"
      "MustId m' = Returns (req_Id (pr_reqmsg p))" "IsResultOrError m'" "kind_ok m'"
      using ReplaceId_answer [OF assms] by blast
    show ?thesis
    proof (cases "i = req_Id (pr_reqmsg p)")
      case True
      then show ?thesis
        using i Some assms(2) message_ok_kind [OF assms(1)] by (intro pending [of i p m]) (simp_all add: handleResult_def)
    next
      case False
      then show ?thesis
        using i Some m' by (intro pending [of i p m']) (simp_all add: handleResult_def)
    qed
  qed
qed

definition client_ok :: "'t client \<Rightarrow> bool" where
  "client_ok c = table_ok (pendingRequests c) (callers c)"

lemma deliver_ok:
  assumes c: "client_ok c" and p: "pendingRequests c k = Some p"
    and m: "MustId m = Returns (req_Id (pr_reqmsg p))" "IsResultOrError m" "kind_ok m"
  shows "client_ok (deliver (pr_chan p) m (c\<lparr>pendingRequests := (pendingRequests c)(k := None)\<rparr>))"
    (is "client_ok ?d")
proof -
  have T: "table_ok (pendingRequests c) (callers c)" using c by (simp add: client_ok_def)
  obtain ca where ca: "callers c (pr_chan p) = Some ca" "ca_req ca = pr_reqmsg p" "resultChannel ca = []"
    using table_entry [OF T p] by blast
  have "table_ok ((pendingRequests c)(k := None)) ((callers c)(pr_chan p \<mapsto> ca\<lparr>resultChannel := [m]\<rparr>))"
    using m ca by (intro table_deliver [OF T p]) (simp_all add: answer_to_def)
  then show ?thesis
    using ca by (simp add: client_ok_def deliver_callers)
qed

lemma received_ok:
  assumes "client_ok c" "message_ok m"
  shows "\<exists>c'. received m c = Returns c' \<and> client_ok c'"
proof (cases "IsResultOrError m")
  case True
  from assms(2) this show ?thesis
  proof (cases rule: handleResult_cases [where c = c])
    case (pending i p m')
    then show ?thesis
      using True deliver_ok [OF assms(1)] by (simp add: received_def)
  qed (use assms(1) in \<open>simp add: received_def True client_ok_def\<close>)
qed (use assms(1) in \<open>simp add: received_def client_ok_def\<close>)

definition timeout_for :: "RequestMessage \<Rightarrow> Message" where
  "timeout_for r = MError \<lparr>kind = MKError, traceId = traceId r, err_Id = req_Id r, err_Error = Some ErrTimeout\<rparr>"

lemma timeout_answers: "MustId (timeout_for r) = Returns (req_Id r)" "IsResultOrError (timeout_for r)"
    "kind_ok (timeout_for r)"
  by (simp_all add: timeout_for_def MustId_def IsResultOrError_def IsError_def msg_kind_def kind_ok_def)

lemma expire_eq:
  "expire k c = (case pendingRequests c k of None \<Rightarrow> c
     | Some p \<Rightarrow> deliver (pr_chan p) (timeout_for (pr_reqmsg p)) (c\<lparr>pendingRequests := (pendingRequests c)(k := None)\<rparr>))"
  by (simp add: expire_def timeout_for_def split: option.split)

lemma expire_ok: "client_ok c \<Longrightarrow> client_ok (expire k c)"
  by (auto simp: expire_eq timeout_answers intro: deliver_ok split: option.split)

lemma phase_ok:
  assumes "client_ok c" "callers c n = Some ca" "caller_ok (ca\<lparr>ca_phase := ph\<rparr>)"
    and "in_table (ca_phase ca) \<Longrightarrow> in_table ph"
  shows "client_ok (set_phase n ph c)"
  using table_phase [of "pendingRequests c" "callers c" n ca ph] assms by (simp add: client_ok_def set_phase_callers)

lemma caller_ok_phase:
  "caller_ok ca \<Longrightarrow> in_table ph \<or> resultChannel ca = [] \<Longrightarrow> (\<And>m. ph \<noteq> Returned m) \<Longrightarrow>
   caller_ok (ca\<lparr>ca_phase := ph\<rparr>)"
  by (auto simp: caller_ok_def answer_to_def split: phase.split)

lemma caller_idle: "caller_ok ca \<Longrightarrow> \<not> in_table (ca_phase ca) \<Longrightarrow> resultChannel ca = []"
  by (simp add: caller_ok_def)

lemma client_caller: "client_ok c \<Longrightarrow> callers c n = Some ca \<Longrightarrow> caller_ok ca"
  by (simp add: client_ok_def table_caller)

lemma same_ok: "same_calls c c' \<Longrightarrow> client_ok c' \<longleftrightarrow> client_ok c"
  by (simp add: client_ok_def same_calls_def)

text \<open>What the receive loops hold: the results of reads, all in a set \<open>R\<close>; in particular, what a transport can
  return.\<close>

definition loops_hold :: "(Message option \<times> bool \<times> goerr option \<Rightarrow> bool) \<Rightarrow> 't client \<Rightarrow> bool" where
  "loops_hold R c = (\<forall>i res. i < length (recvLoops c) \<longrightarrow> recvLoops c ! i = Reading res \<longrightarrow> R res)"

definition read_ok :: "Message option \<times> bool \<times> goerr option \<Rightarrow> bool" where
  "read_ok res = (case res of (m, readed, e) \<Rightarrow>
     (readed \<longleftrightarrow> m \<noteq> None) \<and> \<not> (readed \<and> e \<noteq> None) \<and> (\<forall>x \<in> set_option m. message_ok x))"

abbreviation reads_ok :: "'t client \<Rightarrow> bool" where
  "reads_ok \<equiv> loops_hold read_ok"

lemma holdD: "loops_hold R c \<Longrightarrow> i < length (recvLoops c) \<Longrightarrow> recvLoops c ! i = Reading res \<Longrightarrow> R res"
  unfolding loops_hold_def by blast

lemma reads_message:
  "reads_ok c \<Longrightarrow> i < length (recvLoops c) \<Longrightarrow> recvLoops c ! i = Reading (Some m, True, None) \<Longrightarrow> message_ok m"
  by (drule (2) holdD) (simp add: read_ok_def)

lemma hold_at:
  "loops_hold R c \<Longrightarrow> recvLoops c' = (recvLoops c)[i := p] \<Longrightarrow> (\<And>res. p = Reading res \<Longrightarrow> R res) \<Longrightarrow> loops_hold R c'"
  unfolding loops_hold_def by (metis length_list_update nth_list_update_eq nth_list_update_neq)

lemma hold_more: "loops_hold R c \<Longrightarrow> recvLoops c' = recvLoops c @ [RecvTop] \<Longrightarrow> loops_hold R c'"
  by (auto simp: loops_hold_def nth_append)

lemma hold_eq: "loops_hold R c \<Longrightarrow> recvLoops c' = recvLoops c \<Longrightarrow> loops_hold R c'"
  by (simp add: loops_hold_def)

lemma Connect_loops:
  "Connect T d c = (e, c') \<Longrightarrow> recvLoops c' = recvLoops c \<or> recvLoops c' = recvLoops c @ [RecvTop]"
  by (auto simp: Connect_def new_connection_def Let_def split: if_splits option.splits prod.splits)

lemma hold_connect: "Connect T d c = (e, c1) \<Longrightarrow> loops_hold R c \<Longrightarrow> recvLoops c' = recvLoops c1 \<Longrightarrow> loops_hold R c'"
  using Connect_loops hold_more hold_eq by metis

lemma read_frame [simp]:
  "recvLoops (call_messageHandler m c) = recvLoops c" "recvLoops (deliver n m c) = recvLoops c"
  "recvLoops (set_phase n ph c) = recvLoops c" "recvLoops (expire k c) = recvLoops c"
  "recvLoops (store n r s c) = recvLoops c" "recvLoops (new_caller n r ph c) = recvLoops c" "recvLoops (Wait n c) = recvLoops c"
  by (simp_all add: call_messageHandler_def deliver_def set_phase_def expire_eq store_def new_caller_def Wait_def split: option.split)

lemma received_loops: "received m c = Returns c' \<Longrightarrow> recvLoops c' = recvLoops c"
  by (auto simp: received_def handleResult_def obind_Returns_iff Let_def split: if_splits option.splits)

lemma quiet_reads:
  "put m k c = Some c' \<Longrightarrow> recvLoops c' = recvLoops c" "wake n c = Some c' \<Longrightarrow> recvLoops c' = recvLoops c"
  "OnMessage c = Inr c' \<Longrightarrow> recvLoops c' = recvLoops c" "OnConnected c = Inr c' \<Longrightarrow> recvLoops c' = recvLoops c"
  "OnCloseClient c = Inr c' \<Longrightarrow> recvLoops c' = recvLoops c"
  by (auto simp: put_def wake_def OnMessage_def OnConnected_def OnCloseClient_def
      split: option.splits waiter.splits list.splits if_splits)

lemma recv_result_loops:
  "recv_result T i res c = Returns c' \<Longrightarrow> \<exists>p. recvLoops c' = (recvLoops c)[i := p] \<and> (\<forall>r. p \<noteq> Reading r)"
  by (auto simp: recv_result_def received_loops split: option.splits if_splits outcome.splits prod.splits)

lemma recvLoop_hold:
  assumes "recvLoop T r i c = Returns c'" "loops_hold R c"
    and read: "\<And>res. tConnected T (cl_transport c) \<Longrightarrow> tReadMessage T r (cl_transport c) = Returns res \<Longrightarrow> R res"
  shows "loops_hold R c'"
proof (cases "recvLoops c ! i")
  case RecvTop
  then show ?thesis
    using assms(1) read
    by (auto simp: recvLoop_def Connected_def obind_Returns_iff intro: hold_at [OF assms(2)] split: if_splits)
next
  case (Reading res)
  then have "recv_result T i res c = Returns c'" using assms(1) by (simp add: recvLoop_def)
  then show ?thesis using recv_result_loops hold_at [OF assms(2)] by metis
next
  case RecvEnded
  then show ?thesis using assms(1,2) by (simp add: recvLoop_def)
qed

lemma step_hold:
  assumes "step T c c'"
    and read: "\<And>r res. tConnected T (cl_transport c) \<Longrightarrow> tReadMessage T r (cl_transport c) = Returns res \<Longrightarrow> R res"
    and c: "loops_hold R c"
  shows "loops_hold R c'"
  using assms(1)
proof cases
  case (recv_loop i r)
  show ?thesis by (rule recvLoop_hold [OF recv_loop(2) c read])
next
  case (send_loop i br)
  then show ?thesis using sendLoop_frame hold_eq [OF c] by blast
next
  case (call n r d c1)
  then show ?thesis by (simp only:) (rule hold_connect [OF call(4) c], simp)
next
  case (call_fail n r d e c1)
  then show ?thesis by (simp only:) (rule hold_connect [OF call_fail(4) c], simp)
next
  case (send n s d c1)
  then show ?thesis by (simp only:) (rule hold_connect [OF send(3) c], simp)
next
  case (send_fail n s d e c1)
  then show ?thesis by (simp only:) (rule hold_connect [OF send_fail(3) c], simp)
next
  case (app_connect d e)
  then show ?thesis using hold_connect [OF app_connect c] by blast
next
  case (app_send d m)
  then obtain c1 where "Connect T d c = (None, c1)" "c' = c1\<lparr>outgoing := outgoing c1 @ [(m, PutReady)]\<rparr>" by (rule SendE)
  then show ?thesis by (simp only:) (rule hold_connect [OF _ c], assumption, simp)
qed (rule hold_eq [OF c], simp add: quiet_reads)+

context transport
begin

lemma connect_transport: "Connect T d c = (e, c') \<Longrightarrow> ok (cl_transport c) \<Longrightarrow> ok (cl_transport c')"
  by (auto simp: Connect_def intro: connect_ok split: if_splits prod.splits option.splits)

lemma reset_transport [simp]: "ok (cl_transport c) \<Longrightarrow> ok (cl_transport (Reset T e c))"
  by (auto simp: Reset_def put_close_def cancel_context_def Let_def close_ok split: option.split)

lemma error_transport [simp]:
  "ok (cl_transport c) \<Longrightarrow> ok (cl_transport (handleError T e c))" "ok (cl_transport c) \<Longrightarrow> ok (cl_transport (Close T c))"
  by (simp_all add: handleError_def Close_def Let_def)

lemma transport_frame [simp]:
  "cl_transport (call_messageHandler m c) = cl_transport c" "cl_transport (deliver n m c) = cl_transport c"
  "cl_transport (set_phase n ph c) = cl_transport c" "cl_transport (expire k c) = cl_transport c"
  "cl_transport (store n r s c) = cl_transport c" "cl_transport (new_caller n r ph c) = cl_transport c"
  "cl_transport (Wait n c) = cl_transport c"
  by (simp_all add: call_messageHandler_def deliver_def set_phase_def expire_eq store_def new_caller_def Wait_def split: option.split)

lemma received_transport: "received m c = Returns c' \<Longrightarrow> cl_transport c' = cl_transport c"
  by (auto simp: received_def handleResult_def obind_Returns_iff Let_def split: if_splits option.splits)

lemma quiet_transport:
  "put m k c = Some c' \<Longrightarrow> cl_transport c' = cl_transport c" "wake n c = Some c' \<Longrightarrow> cl_transport c' = cl_transport c"
  "OnMessage c = Inr c' \<Longrightarrow> cl_transport c' = cl_transport c" "OnConnected c = Inr c' \<Longrightarrow> cl_transport c' = cl_transport c"
  "OnCloseClient c = Inr c' \<Longrightarrow> cl_transport c' = cl_transport c"
  by (auto simp: put_def wake_def OnMessage_def OnConnected_def OnCloseClient_def
      split: option.splits waiter.splits list.splits if_splits)

lemma sendLoop_transport: "sendLoop T br i c = Returns c' \<Longrightarrow> ok (cl_transport c) \<Longrightarrow> ok (cl_transport c')"
  by (auto simp: sendLoop_def send_taken_def obind_Returns_iff
      split: send_pos.splits branch.splits option.splits list.splits if_splits)

lemma recvLoop_transport: "recvLoop T r i c = Returns c' \<Longrightarrow> ok (cl_transport c) \<Longrightarrow> ok (cl_transport c')"
  by (auto simp: recvLoop_def recv_result_def obind_Returns_iff received_transport
      split: recv_pos.splits option.splits outcome.splits if_splits)

lemma step_transport:
  assumes "step T c c'" "ok (cl_transport c)"
  shows "ok (cl_transport c')"
  using assms(1)
proof cases
  case (recv_loop i r)
  then show ?thesis using recvLoop_transport assms(2) by blast
next
  case (send_loop i br)
  then show ?thesis using sendLoop_transport assms(2) by blast
next
  case (call n r d c1)
  then show ?thesis using connect_transport [OF call(4) assms(2)] by simp
next
  case (call_fail n r d e c1)
  then show ?thesis using connect_transport [OF call_fail(4) assms(2)] by simp
next
  case (send n s d c1)
  then show ?thesis using connect_transport [OF send(3) assms(2)] by simp
next
  case (send_fail n s d e c1)
  then show ?thesis using connect_transport [OF send_fail(3) assms(2)] by simp
next
  case (app_connect d e)
  then show ?thesis using connect_transport [OF app_connect assms(2)] by simp
next
  case (app_send d m)
  then show ?thesis using assms(2) by (auto elim!: SendE dest: connect_transport)
qed (simp_all add: assms(2) quiet_transport)

lemma read_start: "ok t \<Longrightarrow> tConnected T t \<Longrightarrow> \<exists>res. tReadMessage T r t = Returns res \<and> read_ok res"
  using read_up [of t r] by (auto simp: read_ok_def)

lemma step_reads:
  assumes "step T c c'" "ok (cl_transport c)" "reads_ok c"
  shows "reads_ok c'"
proof (rule step_hold [OF assms(1) _ assms(3)])
  show "read_ok res" if "tConnected T (cl_transport c)" "tReadMessage T r (cl_transport c) = Returns res" for r res
    using read_start [OF assms(2) that(1), of r] that(2) by auto
qed

lemma step_client:
  assumes "step T c c'" "reads_ok c" "client_ok c"
  shows "client_ok c'"
  using assms(1)
proof (cases rule: step_cases)
  case quiet
  then show ?thesis using same_ok assms(3) by blast
next
  case (call n r ph c1)
  then have "client_ok c1" "callers c1 n = None"
    using assms(3) same_ok by (auto simp: same_calls_def)
  with call show ?thesis by (simp add: client_ok_def new_caller_def table_new)
next
  case (move n ca ph c1)
  have c1: "client_ok c1" "callers c1 n = Some ca" using move assms(3) same_ok by (auto simp: same_calls_def)
  from move(2) have "caller_ok (ca\<lparr>ca_phase := ph\<rparr>) \<and> (in_table (ca_phase ca) \<longrightarrow> in_table ph)"
    using client_caller [OF c1] caller_idle [of ca]
    by (cases rule: phase_moveE) (auto simp: in_table_def intro: caller_ok_phase)
  then show ?thesis using phase_ok [OF c1] move(4) by blast
next
  case (store n ca sendmsg)
  have ca: "caller_ok ca" using client_caller [OF assms(3)] store by blast
  then have "caller_ok (ca\<lparr>ca_phase := Stored sendmsg\<rparr>)"
    by (intro caller_ok_phase) (auto simp: in_table_def)
  with store show ?thesis
    using assms(3) table_store [of "pendingRequests c" "callers c" n ca "Stored sendmsg"
        "\<lparr>pr_reqmsg = ca_req ca, pr_chan = n\<rparr>" "req_Id sendmsg"]
    by (simp add: client_ok_def Streaming.store_def set_phase_callers in_table_def)
next
  case (timer n ca sendmsg)
  have "client_ok (c\<lparr>timers := timers c @ [req_Id sendmsg]\<rparr>)" using assms(3) by (simp add: client_ok_def)
  then show ?thesis
    using timer client_caller [OF assms(3)] by (auto simp: in_table_def intro!: phase_ok caller_ok_phase)
next
  case (return n ca m ms)
  have ca: "caller_ok ca" using client_caller [OF assms(3)] return by blast
  then have ms: "ms = []" "answer_to ca m" using return by (auto simp: caller_ok_def)
  have T: "table_ok (pendingRequests c) (callers c)" using assms(3) by (simp add: client_ok_def)
  have none: "pr_chan p \<noteq> n" if "pendingRequests c k = Some p" for k p
    using table_entry [OF T that] return by auto
  have ok: "caller_ok (ca\<lparr>ca_phase := Returned m, resultChannel := ms\<rparr>)"
    using ca ms by (simp add: caller_ok_def answer_to_def)
  have "table_ok (pendingRequests c) ((callers c)(n \<mapsto> ca\<lparr>ca_phase := Returned m, resultChannel := ms\<rparr>))"
  proof (rule table_okI)
    fix k p assume p: "pendingRequests c k = Some p"
    then show "\<exists>ca'. ((callers c)(n \<mapsto> ca\<lparr>ca_phase := Returned m, resultChannel := ms\<rparr>)) (pr_chan p) = Some ca' \<and>
        ca_req ca' = pr_reqmsg p \<and> in_table (ca_phase ca') \<and> resultChannel ca' = []"
      using none [OF p] table_entry [OF T p] by simp
  qed (rule table_inj [OF T], assumption+, erule caller_ok_upd [OF T ok])
  then show ?thesis by (simp add: return client_ok_def)
next
  case (message i m c1)
  then have "message_ok m" using reads_message [OF assms(2)] by blast
  then show ?thesis using received_ok [OF assms(3)] message same_ok by fastforce
next
  case (expire ks k ks')
  have "client_ok (c\<lparr>timers := ks @ ks'\<rparr>)" using assms(3) by (simp add: client_ok_def)
  then show ?thesis by (simp add: expire expire_ok)
qed

lemma reachable_ok: "reachable T c \<Longrightarrow> ok (cl_transport c) \<and> reads_ok c \<and> client_ok c"
proof (induction rule: reach.induct)
  case (start c)
  then show ?case by (auto simp: client_init_def InitStreaming_def client_ok_def table_ok_def loops_hold_def down_ok)
next
  case (move c c')
  then show ?case using step_transport step_reads step_client by blast
qed

end

section \<open>Callers with distinct ids are not forgotten\<close>

definition distinct_ids :: "'t client \<Rightarrow> bool" where
  "distinct_ids c = (\<forall>n n' ca ca'. callers c n = Some ca \<longrightarrow> callers c n' = Some ca' \<longrightarrow>
     req_Id (ca_req ca) = req_Id (ca_req ca') \<longrightarrow> n = n')"

definition has_entry :: "(gval \<Rightarrow> pendingRequest option) \<Rightarrow> nat \<Rightarrow> caller \<Rightarrow> bool" where
  "has_entry P n ca = (\<exists>p. P (req_Id (ca_req ca)) = Some p \<and> pr_chan p = n)"

definition alive_caller :: "(gval \<Rightarrow> pendingRequest option) \<Rightarrow> gval list \<Rightarrow> nat \<Rightarrow> caller \<Rightarrow> bool" where
  "alive_caller P tm n ca = (case ca_phase ca of
      Loaded r \<Rightarrow> r = ca_req ca
    | Stored r \<Rightarrow> r = ca_req ca \<and> (resultChannel ca \<noteq> [] \<or> has_entry P n ca)
    | Sending r ch \<Rightarrow> r = ca_req ca \<and> (resultChannel ca \<noteq> [] \<or> has_entry P n ca)
    | Sent r \<Rightarrow> r = ca_req ca \<and> (resultChannel ca \<noteq> [] \<or> has_entry P n ca)
    | Waiting \<Rightarrow> resultChannel ca \<noteq> [] \<or> has_entry P n ca \<and> req_Id (ca_req ca) \<in> set tm
    | _ \<Rightarrow> True)"

definition alive :: "'t client \<Rightarrow> bool" where
  "alive c = ((\<forall>n ca. callers c n = Some ca \<longrightarrow> alive_caller (pendingRequests c) (timers c) n ca) \<and>
     (\<forall>k p. pendingRequests c k = Some p \<longrightarrow> k = req_Id (pr_reqmsg p)))"

lemma aliveI:
  assumes "\<And>n ca. callers c n = Some ca \<Longrightarrow> alive_caller (pendingRequests c) (timers c) n ca"
    and "\<And>k p. pendingRequests c k = Some p \<Longrightarrow> k = req_Id (pr_reqmsg p)"
  shows "alive c"
  unfolding alive_def using assms by blast

lemma alive_key: "alive c \<Longrightarrow> pendingRequests c k = Some p \<Longrightarrow> k = req_Id (pr_reqmsg p)"
  by (simp add: alive_def)

lemma aliveD: "alive c \<Longrightarrow> callers c n = Some ca \<Longrightarrow> alive_caller (pendingRequests c) (timers c) n ca"
  by (simp add: alive_def)

lemma alive_same: "same_calls c c' \<Longrightarrow> alive c \<Longrightarrow> alive c'"
  by (simp add: alive_def same_calls_def)

lemma alive_phase:
  assumes "alive c" "callers c n = Some ca" "alive_caller (pendingRequests c) (timers c) n (ca\<lparr>ca_phase := ph\<rparr>)"
  shows "alive (set_phase n ph c)"
  using assms by (auto simp: alive_def set_phase_callers split: if_splits)

text \<open>A timer at key \<open>k\<close> may go when the entry at \<open>k\<close> goes.\<close>

lemma alive_deliver:
  assumes c: "alive c" "client_ok c" and p: "pendingRequests c k = Some p"
    and tm: "\<And>j. j \<in> set (timers c) \<Longrightarrow> j \<noteq> k \<Longrightarrow> j \<in> set tm"
  shows "alive (deliver (pr_chan p) m (c\<lparr>timers := tm, pendingRequests := (pendingRequests c)(k := None)\<rparr>))"
    (is "alive ?d")
proof -
  have T: "table_ok (pendingRequests c) (callers c)" using c(2) by (simp add: client_ok_def)
  obtain cp where cp: "callers c (pr_chan p) = Some cp" using table_entry [OF T p] by blast
  have C: "callers ?d = (callers c)(pr_chan p \<mapsto> cp\<lparr>resultChannel := resultChannel cp @ [m]\<rparr>)"
    by (simp add: deliver_callers cp)
  show ?thesis
  proof (rule aliveI)
    fix n ca assume n: "callers ?d n = Some ca"
    show "alive_caller (pendingRequests ?d) (timers ?d) n ca"
    proof (cases "n = pr_chan p")
      case True
      then have "ca = cp\<lparr>resultChannel := resultChannel cp @ [m]\<rparr>" using n C by simp
      moreover have "alive_caller (pendingRequests c) (timers c) n cp"
        using aliveD [OF c(1)] cp True by simp
      ultimately show ?thesis by (auto simp: alive_caller_def split: phase.splits)
    next
      case False
      then have ca: "callers c n = Some ca" using n C by simp
      have "has_entry ((pendingRequests c)(k := None)) n ca" "req_Id (ca_req ca) \<noteq> k"
        if "has_entry (pendingRequests c) n ca"
        using that False p by (auto simp: has_entry_def)
      then show ?thesis
        using aliveD [OF c(1) ca] tm by (auto simp: alive_caller_def split: phase.splits)
    qed
  next
    fix j q assume "pendingRequests ?d j = Some q"
    then show "j = req_Id (pr_reqmsg q)" using alive_key [OF c(1)] by (auto split: if_splits)
  qed
qed

lemma alive_received:
  assumes "alive c" "client_ok c" "message_ok m" "received m c = Returns c'"
  shows "alive c'"
proof (cases "IsResultOrError m")
  case True
  from assms(3) this show ?thesis
  proof (cases rule: handleResult_cases [where c = c])
    case (pending i p m')
    then have "c' = deliver (pr_chan p) m' (c\<lparr>timers := timers c, pendingRequests := (pendingRequests c)(i := None)\<rparr>)"
      using assms(4) True by (cases c) (simp add: received_def)
    then show ?thesis by (simp only:) (rule alive_deliver [OF assms(1,2) pending(2)])
  next
    case (other i)
    then have "c' = call_messageHandler m c" using assms(4) True by (simp add: received_def)
    then show ?thesis using assms(1) by (simp add: alive_def)
  qed
next
  case False
  then have "c' = call_messageHandler m c" using assms(4) by (simp add: received_def)
  then show ?thesis using assms(1) by (simp add: alive_def)
qed

lemma alive_expire:
  assumes "alive c" "client_ok c" "timers c = ks @ k # ks'"
  shows "alive (expire k (c\<lparr>timers := ks @ ks'\<rparr>))"
proof (cases "pendingRequests c k")
  case None
  have "alive_caller (pendingRequests c) (ks @ ks') n ca" if "callers c n = Some ca" for n ca
    using aliveD [OF assms(1) that] None assms(3) by (auto simp: alive_caller_def has_entry_def split: phase.splits)
  then show ?thesis
    using assms(1) None by (auto simp: expire_eq alive_def)
next
  case (Some p)
  have "alive (deliver (pr_chan p) (timeout_for (pr_reqmsg p))
      (c\<lparr>timers := ks @ ks', pendingRequests := (pendingRequests c)(k := None)\<rparr>))"
    by (rule alive_deliver [OF assms(1,2) Some]) (auto simp: assms(3))
  then show ?thesis by (simp add: expire_eq Some)
qed

text \<open>Callers keep their requests.\<close>

definition callers_grow :: "'t client \<Rightarrow> 't client \<Rightarrow> bool" where
  "callers_grow c c' = (\<forall>n ca. callers c n = Some ca \<longrightarrow> (\<exists>ca'. callers c' n = Some ca' \<and> ca_req ca' = ca_req ca))"

lemma grow_refl [simp]: "callers c' = callers c \<Longrightarrow> callers_grow c c'"
  by (simp add: callers_grow_def)

lemma grow_phase [simp]: "callers c1 = callers c \<Longrightarrow> callers_grow c (set_phase n ph c1)"
  by (auto simp: callers_grow_def set_phase_callers split: option.split)

lemma grow_deliver [simp]: "callers c1 = callers c \<Longrightarrow> callers_grow c (deliver n m c1)"
  by (auto simp: callers_grow_def deliver_callers split: option.split)

lemma grow_distinct: "callers_grow c c' \<Longrightarrow> distinct_ids c' \<Longrightarrow> distinct_ids c"
  unfolding callers_grow_def distinct_ids_def by metis

lemma grow_received: "received m c = Returns c' \<Longrightarrow> callers_grow c c'"
  by (auto simp: received_def handleResult_def obind_Returns_iff Let_def split: if_splits option.splits)

lemma step_grow:
  assumes "step T c c'"
  shows "callers_grow c c'"
  using assms
proof (cases rule: step_cases)
  case quiet
  then show ?thesis by (simp add: same_calls_def)
next
  case (call n r ph c1)
  then show ?thesis by (auto simp: callers_grow_def new_caller_def same_calls_def)
next
  case (move n ca ph c1)
  then show ?thesis by (simp add: same_calls_def)
next
  case (store n ca sendmsg)
  then show ?thesis by (simp add: Streaming.store_def)
next
  case (return n ca m ms)
  then show ?thesis by (auto simp: callers_grow_def)
next
  case (message i m c1)
  then show ?thesis using grow_received [OF message(3)] by (simp add: callers_grow_def same_calls_def)
next
  case (expire ks k ks')
  then show ?thesis by (simp add: expire_eq split: option.split)
qed simp

text \<open>With distinct ids, the id of a call that has not stored anything is free.\<close>

lemma free_id:
  assumes c: "client_ok c" "alive c" "distinct_ids c" and n: "callers c n = Some ca" "\<not> in_table (ca_phase ca)"
  shows "pendingRequests c (req_Id (ca_req ca)) = None"
proof (rule ccontr)
  assume "pendingRequests c (req_Id (ca_req ca)) \<noteq> None"
  then obtain p where p: "pendingRequests c (req_Id (ca_req ca)) = Some p" by blast
  have T: "table_ok (pendingRequests c) (callers c)" using c(1) by (simp add: client_ok_def)
  obtain cp where cp: "callers c (pr_chan p) = Some cp" "ca_req cp = pr_reqmsg p" "in_table (ca_phase cp)"
    using table_entry [OF T p] by blast
  have "req_Id (ca_req cp) = req_Id (ca_req ca)" using alive_key [OF c(2) p] cp(2) by simp
  then have "pr_chan p = n" using c(3) cp(1) n(1) unfolding distinct_ids_def by blast
  then show False using cp n by simp
qed

lemma alive_store:
  assumes c: "client_ok c" "alive c" "distinct_ids c" and n: "callers c n = Some ca" "ca_phase ca = Loaded sendmsg"
  shows "alive (set_phase n (Stored sendmsg) (store n (ca_req ca) sendmsg c))" (is "alive ?d")
proof -
  have eq: "sendmsg = ca_req ca" using aliveD [OF c(2) n(1)] n(2) by (simp add: alive_caller_def)
  have P: "pendingRequests ?d = (pendingRequests c)(req_Id (ca_req ca) \<mapsto> \<lparr>pr_reqmsg = ca_req ca, pr_chan = n\<rparr>)"
    by (simp add: store_def eq)
  have C: "callers ?d = (callers c)(n \<mapsto> ca\<lparr>ca_phase := Stored sendmsg\<rparr>)"
    by (simp add: set_phase_callers store_def n(1))
  show ?thesis
  proof (rule aliveI)
    fix j cj assume j: "callers ?d j = Some cj"
    show "alive_caller (pendingRequests ?d) (timers ?d) j cj"
    proof (cases "j = n")
      case True
      have "cj = ca\<lparr>ca_phase := Stored sendmsg\<rparr>" using j C True by simp
      then show ?thesis by (simp add: Streaming.store_def True alive_caller_def has_entry_def eq)
    next
      case False
      then have cj: "callers c j = Some cj" using j C by simp
      then have "req_Id (ca_req cj) \<noteq> req_Id (ca_req ca)"
        using c(3) n(1) False unfolding distinct_ids_def by blast
      then have "has_entry (pendingRequests ?d) j cj \<longleftrightarrow> has_entry (pendingRequests c) j cj"
        by (simp add: eq has_entry_def)
      then show ?thesis
        using aliveD [OF c(2) cj] by (auto simp: alive_caller_def simp del: store_frame(1) split: phase.splits)
    qed
  next
    fix k p assume "pendingRequests ?d k = Some p"
    then show "k = req_Id (pr_reqmsg p)" using alive_key [OF c(2)] by (auto simp: eq split: if_splits)
  qed
qed

lemma alive_timer:
  assumes c: "alive c" and n: "callers c n = Some ca" "ca_phase ca = Sent sendmsg"
  shows "alive (set_phase n Waiting (c\<lparr>timers := timers c @ [req_Id sendmsg]\<rparr>))" (is "alive ?d")
proof (rule aliveI)
  fix j cj assume j: "callers ?d j = Some cj"
  show "alive_caller (pendingRequests ?d) (timers ?d) j cj"
  proof (cases "j = n")
    case True
    then show ?thesis
      using j n aliveD [OF c n(1)] by (auto simp: set_phase_callers alive_caller_def has_entry_def)
  next
    case False
    then have "callers c j = Some cj" using j n(1) by (simp add: set_phase_callers)
    from aliveD [OF c this] show ?thesis by (auto simp: alive_caller_def split: phase.splits)
  qed
qed (use alive_key [OF c] in simp)

lemma alive_new:
  "alive c \<Longrightarrow> callers c n = None \<Longrightarrow> ph = Started \<or> (\<exists>e. ph = Failed e) \<Longrightarrow> alive (new_caller n r ph c)"
  by (auto simp: alive_def new_caller_def alive_caller_def split: if_splits)

context transport
begin

lemma step_alive:
  assumes "step T c c'" "reads_ok c" "client_ok c" "alive c" "distinct_ids c"
  shows "alive c'"
  using assms(1)
proof (cases rule: step_cases)
  case quiet
  then show ?thesis using alive_same assms(4) by blast
next
  case (call n r ph c1)
  then have "alive c1" "callers c1 n = None"
    using assms(4) alive_same by (auto simp: same_calls_def)
  then show ?thesis using call by (simp add: alive_new)
next
  case (move n ca ph c1)
  have c1: "alive c1" "callers c1 n = Some ca" using move assms(4) alive_same by (auto simp: same_calls_def)
  from move(2) have "alive_caller (pendingRequests c1) (timers c1) n (ca\<lparr>ca_phase := ph\<rparr>)"
  proof (cases rule: phase_moveE)
    case (load u s)
    have "pendingRequests c (req_Id (ca_req ca)) = None"
      using load move(1) by (intro free_id [OF assms(3-5)]) (auto simp: in_table_def)
    then have "s = ca_req ca" using load by (simp add: choose_sendmsg_def)
    then show ?thesis by (simp add: load alive_caller_def)
  qed (use aliveD [OF c1] in \<open>auto simp: alive_caller_def has_entry_def\<close>)
  then show ?thesis using alive_phase [OF c1] move(4) by simp
next
  case (store n ca sendmsg)
  then show ?thesis using alive_store [OF assms(3-5)] by simp
next
  case (timer n ca sendmsg)
  then show ?thesis using alive_timer [OF assms(4)] by simp
next
  case (return n ca m ms)
  then show ?thesis using assms(4) by (auto simp: alive_def alive_caller_def has_entry_def split: if_splits)
next
  case (message i m c1)
  then have "message_ok m" using reads_message [OF assms(2)] by blast
  then have "alive c1" using alive_received [OF assms(4,3)] message(3) by blast
  then show ?thesis using alive_same message(4) by blast
next
  case (expire ks k ks')
  then show ?thesis using alive_expire [OF assms(4,3)] by simp
qed

lemma reachable_alive: "reachable T c \<Longrightarrow> distinct_ids c \<Longrightarrow> alive c"
proof (induction rule: reach.induct)
  case (start c)
  then show ?case by (auto simp: client_init_def InitStreaming_def alive_def)
next
  case (move c c')
  then have "distinct_ids c" using grow_distinct step_grow by blast
  then show ?case using move reachable_ok [OF move.hyps(1)] by (blast intro: step_alive)
qed

text \<open>Firing its timer answers a waiting caller.\<close>

lemma waiting_timer:
  assumes "reachable T c" "distinct_ids c" "callers c n = Some ca" "ca_phase ca = Waiting" "resultChannel ca = []"
  shows "\<exists>c'. step T c c' \<and> callers c' n = Some (ca\<lparr>resultChannel := [timeout_for (ca_req ca)]\<rparr>)"
proof -
  have cl: "client_ok c" using reachable_ok [OF assms(1)] by blast
  have "alive_caller (pendingRequests c) (timers c) n ca"
    using reachable_alive [OF assms(1,2)] assms(3) by (rule aliveD)
  then obtain p where p: "pendingRequests c (req_Id (ca_req ca)) = Some p" "pr_chan p = n"
    and tm: "req_Id (ca_req ca) \<in> set (timers c)"
    using assms(4,5) by (auto simp: alive_caller_def has_entry_def)
  obtain ks ks' where ks: "timers c = ks @ req_Id (ca_req ca) # ks'" using tm by (meson split_list)
  have req: "pr_reqmsg p = ca_req ca"
    using table_entry [of "pendingRequests c" "callers c", OF _ p(1)] cl assms(3) p(2) by (auto simp: client_ok_def)
  have "step T c (Streaming.expire (req_Id (ca_req ca)) (c\<lparr>timers := ks @ ks'\<rparr>))"
    by (rule step.expire [OF ks])
  moreover have "callers (Streaming.expire (req_Id (ca_req ca)) (c\<lparr>timers := ks @ ks'\<rparr>)) n =
      Some (ca\<lparr>resultChannel := [timeout_for (ca_req ca)]\<rparr>)"
    using p req assms(3,5) by (simp add: expire_eq deliver_callers)
  ultimately show ?thesis by blast
qed

end

section \<open>A call that is never answered\<close>

text \<open>A waiting call with no entry in the table stays so for ever.\<close>

definition stranded :: "nat \<Rightarrow> 't client \<Rightarrow> bool" where
  "stranded n c = ((\<exists>ca. callers c n = Some ca \<and> ca_phase ca = Waiting \<and> resultChannel ca = []) \<and>
     (\<forall>k p. pendingRequests c k = Some p \<longrightarrow> pr_chan p \<noteq> n))"

definition forgotten :: "('t, 'd, 'r, 'x) Transport \<Rightarrow> 't client \<Rightarrow> nat \<Rightarrow> bool" where
  "forgotten T c n = (\<forall>c'. (step T)\<^sup>*\<^sup>* c c' \<longrightarrow>
     (\<exists>ca. callers c' n = Some ca \<and> ca_phase ca = Waiting \<and> resultChannel ca = []))"

lemma stranded_same: "same_calls c c' \<Longrightarrow> stranded n c \<Longrightarrow> stranded n c'"
  by (simp add: stranded_def same_calls_def)

lemma stranded_phase:
  "stranded n c \<Longrightarrow> m \<noteq> n \<Longrightarrow> stranded n (set_phase m ph c)"
  by (auto simp: stranded_def set_phase_callers split: option.split)

lemma stranded_deliver:
  "stranded n c \<Longrightarrow> pendingRequests c k = Some p \<Longrightarrow>
   stranded n (deliver (pr_chan p) m (c\<lparr>pendingRequests := (pendingRequests c)(k := None)\<rparr>))"
  by (auto simp: stranded_def deliver_callers split: option.split)

lemma stranded_Waiting: "stranded n c \<Longrightarrow> phase_of c n = Some Waiting"
  by (auto simp: stranded_def phase_of_def)

lemma stranded_handler: "stranded n c \<Longrightarrow> stranded n (call_messageHandler m c)"
  by (simp add: stranded_def)

lemma stranded_received:
  assumes "stranded n c" "received m c = Returns c'"
  shows "stranded n c'"
proof (cases "IsResultOrError m")
  case True
  then have h: "handleResult m c = Returns c'" using assms(2) by (simp add: received_def)
  then obtain i where i: "MustId m = Returns i" by (auto simp: handleResult_def obind_Returns_iff)
  show ?thesis
  proof (cases "pendingRequests c i")
    case None
    then show ?thesis using h i stranded_handler [OF assms(1)] by (auto simp: handleResult_def)
  next
    case (Some p)
    then obtain m' where "c' = deliver (pr_chan p) m' (c\<lparr>pendingRequests := (pendingRequests c)(i := None)\<rparr>)"
      using h i by (auto simp: handleResult_def Let_def obind_Returns_iff split: if_splits)
    then show ?thesis using stranded_deliver [OF assms(1) Some] by simp
  qed
qed (use assms stranded_handler in \<open>auto simp: received_def\<close>)

lemma step_stranded:
  assumes "step T c c'" "stranded n c"
  shows "stranded n c'"
  using assms(1)
proof (cases rule: step_cases)
  case quiet
  then show ?thesis using stranded_same assms(2) by blast
next
  case (call m r ph c1)
  then have "stranded n c1" "m \<noteq> n" using assms(2) by (auto simp: stranded_def same_calls_def)
  then show ?thesis by (simp add: call(5) stranded_def new_caller_def)
next
  case (move m ca ph c1)
  then have "m \<noteq> n" using assms(2) by (auto simp: stranded_def phase_move_def)
  then show ?thesis using stranded_phase stranded_same [OF move(3) assms(2)] move(4) by blast
next
  case (store m ca sendmsg)
  then have "m \<noteq> n" using assms(2) by (auto simp: stranded_def)
  moreover from this have "stranded n (Streaming.store m (ca_req ca) sendmsg c)"
    using assms(2) by (auto simp: stranded_def)
  ultimately show ?thesis by (simp add: store(3) stranded_phase)
next
  case (timer m ca sendmsg)
  then have "m \<noteq> n" using assms(2) by (auto simp: stranded_def)
  moreover have "stranded n (c\<lparr>timers := timers c @ [req_Id sendmsg]\<rparr>)"
    using assms(2) by (simp add: stranded_def)
  ultimately show ?thesis by (simp add: timer(3) stranded_phase)
next
  case (return m ca x xs)
  then have "m \<noteq> n" using assms(2) by (auto simp: stranded_def)
  then show ?thesis using assms(2) by (simp add: return(4) stranded_def)
next
  case (message i m c1)
  then show ?thesis using stranded_received [OF assms(2)] stranded_same by blast
next
  case (expire ks k ks')
  have "stranded n (c\<lparr>timers := ks @ ks'\<rparr>)" using assms(2) by (simp add: stranded_def)
  then show ?thesis
    unfolding expire expire_eq
    using stranded_deliver [of n "c\<lparr>timers := ks @ ks'\<rparr>" k] by (auto split: option.split)
qed

lemma stranded_forgotten: "stranded n c \<Longrightarrow> forgotten T c n"
proof -
  assume c: "stranded n c"
  have "stranded n c'" if "(step T)\<^sup>*\<^sup>* c c'" for c'
    using stable_steps [OF that, of "stranded n"] c step_stranded by blast
  then show "forgotten T c n" unfolding forgotten_def stranded_def by blast
qed

end
