(* ===== verification/Streaming_Spec.thy ===== *)
theory Streaming_Spec
  imports Streaming_Laws
begin

text \<open>
  The streaming client against its specification, a board of calls: a call is asked once,
  answered at most once by a message that carries its id, and taken back by its caller or
  refused with an error. The client simulates the board, whatever its goroutines and the
  network do.
\<close>

section \<open>The board of calls\<close>

datatype call_state =
    Asked gval
  | Answered gval Message
  | Taken gval Message
  | Refused gval

type_synonym board = "nat \<Rightarrow> call_state option"

inductive board_step :: "board \<Rightarrow> board \<Rightarrow> bool" where
  ask: "b n = None \<Longrightarrow> board_step b (b(n \<mapsto> Asked i))"
| fail: "b n = None \<Longrightarrow> board_step b (b(n \<mapsto> Refused i))"
| answer: "b n = Some (Asked i) \<Longrightarrow> MustId m = Returns i \<Longrightarrow> IsResultOrError m \<Longrightarrow>
    board_step b (b(n \<mapsto> Answered i m))"
| take_back: "b n = Some (Answered i m) \<Longrightarrow> board_step b (b(n \<mapsto> Taken i m))"
| refuse: "b n = Some (Asked i) \<or> b n = Some (Answered i m) \<Longrightarrow> board_step b (b(n \<mapsto> Refused i))"

definition board_init :: "board \<Rightarrow> bool" where
  "board_init b = (b = (\<lambda>n. None))"

inductive_cases board_stepE: "board_step b b'"

lemma board_answer:
  "reach board_init board_step b \<Longrightarrow> b n = Some (Answered i m) \<or> b n = Some (Taken i m) \<Longrightarrow>
   MustId m = Returns i \<and> IsResultOrError m"
proof (induction arbitrary: n i m rule: reach.induct)
  case (move b b')
  from move.hyps(2) move.prems show ?case
    by (cases rule: board_step.cases) (use move.IH in \<open>auto split: if_splits\<close>)
qed (simp add: board_init_def)

section \<open>The client as a board\<close>

definition call_state_of :: "caller \<Rightarrow> call_state" where
  "call_state_of ca = (let i = req_Id (ca_req ca) in
     case ca_phase ca of
       Failed e \<Rightarrow> Refused i
     | Returned m \<Rightarrow> Taken i m
     | _ \<Rightarrow> (case resultChannel ca of [] \<Rightarrow> Asked i | m # _ \<Rightarrow> Answered i m))"

definition board_of :: "'t client \<Rightarrow> board" where
  "board_of c n = map_option call_state_of (callers c n)"

lemma board_of_same: "callers c' = callers c \<Longrightarrow> board_of c' = board_of c"
  by (simp add: board_of_def fun_eq_iff)

lemma board_of_upd: "callers c' = (callers c)(n \<mapsto> ca) \<Longrightarrow> board_of c' = (board_of c)(n \<mapsto> call_state_of ca)"
  by (auto simp: board_of_def fun_eq_iff)

text \<open>Phases before the return do not show on the board.\<close>

definition under_way :: "phase \<Rightarrow> bool" where
  "under_way ph = (case ph of Failed _ \<Rightarrow> False | Returned _ \<Rightarrow> False | _ \<Rightarrow> True)"

lemma board_phase:
  assumes "callers c1 = callers c" "callers c n = Some ca" "under_way (ca_phase ca)" "under_way ph"
  shows "board_of (set_phase n ph c1) = board_of c"
proof -
  have "call_state_of (ca\<lparr>ca_phase := ph\<rparr>) = call_state_of ca"
    using assms(3,4) by (simp add: call_state_of_def under_way_def Let_def split: phase.splits)
  then have "board_of (set_phase n ph c1) = (board_of c)(n \<mapsto> call_state_of ca)"
    using assms(1,2) board_of_upd [of "set_phase n ph c1" c n "ca\<lparr>ca_phase := ph\<rparr>"] by (simp add: set_phase_callers)
  then show ?thesis using assms(2) by (auto simp: board_of_def fun_eq_iff)
qed

lemma board_deliver:
  assumes c: "client_ok c" and p: "pendingRequests c k = Some p"
    and m: "MustId m = Returns (req_Id (pr_reqmsg p))" "IsResultOrError m"
    and d: "callers d = callers c"
  shows "board_of (deliver (pr_chan p) m d) = board_of c \<or> board_step (board_of c) (board_of (deliver (pr_chan p) m d))"
proof -
  obtain ca where ca: "callers c (pr_chan p) = Some ca" "ca_req ca = pr_reqmsg p" "resultChannel ca = []" "in_table (ca_phase ca)"
    using table_entry [of "pendingRequests c" "callers c", OF _ p] c by (auto simp: client_ok_def)
  let ?ca = "ca\<lparr>resultChannel := [m]\<rparr>"
  have upd: "board_of (deliver (pr_chan p) m d) = (board_of c)(pr_chan p \<mapsto> call_state_of ?ca)"
    using ca d by (intro board_of_upd) (simp add: deliver_callers)
  show ?thesis
  proof (cases "under_way (ca_phase ca)")
    case True
    then have "call_state_of ca = Asked (req_Id (pr_reqmsg p))" "call_state_of ?ca = Answered (req_Id (pr_reqmsg p)) m"
      using ca by (auto simp: call_state_of_def under_way_def Let_def split: phase.splits)
    then show ?thesis
      using ca m upd board_step.answer [of "board_of c" "pr_chan p" "req_Id (pr_reqmsg p)" m] by (simp add: board_of_def)
  next
    case False
    then have "call_state_of ?ca = call_state_of ca"
      using ca(4) by (auto simp: call_state_of_def under_way_def in_table_def Let_def split: phase.splits)
    then show ?thesis using upd ca(1) by (auto simp: board_of_def fun_eq_iff)
  qed
qed

lemma board_received:
  assumes "client_ok c" "message_ok m" "received m c = Returns c'"
  shows "board_of c' = board_of c \<or> board_step (board_of c) (board_of c')"
proof (cases "IsResultOrError m")
  case True
  from assms(2) this show ?thesis
  proof (cases rule: handleResult_cases [where c = c])
    case (pending i p m')
    then have "c' = deliver (pr_chan p) m' (c\<lparr>pendingRequests := (pendingRequests c)(i := None)\<rparr>)"
      using assms(3) True by (simp add: received_def)
    then show ?thesis by (simp only:) (rule board_deliver [OF assms(1) pending(2-4)], simp)
  next
    case (other i)
    then have "c' = call_messageHandler m c" using assms(3) True by (simp add: received_def)
    then show ?thesis by (intro disjI1 board_of_same) simp
  qed
next
  case False
  then have "c' = call_messageHandler m c" using assms(3) by (simp add: received_def)
  then show ?thesis by (intro disjI1 board_of_same) simp
qed

lemma board_expire:
  assumes "client_ok c" "callers d = callers c" "pendingRequests d = pendingRequests c"
  shows "board_of (expire k d) = board_of c \<or> board_step (board_of c) (board_of (expire k d))"
proof (cases "pendingRequests d k")
  case None
  then show ?thesis using assms(2) by (intro disjI1 board_of_same) (simp add: expire_eq)
next
  case (Some p)
  have "pendingRequests c k = Some p" using Some assms(3) by simp
  from board_deliver [OF assms(1) this timeout_answers(1,2), of "d\<lparr>pendingRequests := (pendingRequests d)(k := None)\<rparr>"]
  show ?thesis using Some assms(2) by (simp add: expire_eq)
qed

lemma board_new:
  assumes "callers c1 = callers c" "callers c n = None"
  shows "ph = Started \<or> (\<exists>e. ph = Failed e) \<Longrightarrow> board_step (board_of c) (board_of (new_caller n r ph c1))"
proof -
  assume ph: "ph = Started \<or> (\<exists>e. ph = Failed e)"
  have "board_of (new_caller n r ph c1) = (board_of c)(n \<mapsto> call_state_of \<lparr>ca_req = r, ca_phase = ph, resultChannel = []\<rparr>)"
    using assms(1) by (intro board_of_upd) (simp add: new_caller_def)
  moreover have "board_of c n = None" using assms(2) by (simp add: board_of_def)
  ultimately show ?thesis
    using ph by (auto simp: call_state_of_def Let_def intro: board_step.ask board_step.fail)
qed

lemma board_send_fail:
  assumes "callers c1 = callers c" "callers c n = Some ca" "ca_phase ca = Stored s"
  shows "board_step (board_of c) (board_of (set_phase n (Failed e) c1))"
proof -
  let ?i = "req_Id (ca_req ca)"
  have "board_of (set_phase n (Failed e) c1) = (board_of c)(n \<mapsto> Refused ?i)"
    using assms board_of_upd [of "set_phase n (Failed e) c1" c n "ca\<lparr>ca_phase := Failed e\<rparr>"]
    by (simp add: set_phase_callers call_state_of_def)
  moreover have "board_of c n = Some (Asked ?i) \<or> (\<exists>m. board_of c n = Some (Answered ?i m))"
    using assms(2,3) by (cases "resultChannel ca") (auto simp: board_of_def call_state_of_def)
  ultimately show ?thesis by (metis board_step.refuse)
qed

context transport
begin

lemma step_board:
  assumes "step T c c'" "reads_ok c" "client_ok c"
  shows "board_of c' = board_of c \<or> board_step (board_of c) (board_of c')"
  using assms(1)
proof (cases rule: step_cases)
  case quiet
  then show ?thesis by (intro disjI1 board_of_same) (simp add: same_calls_def)
next
  case (call n r ph c1)
  then show ?thesis using board_new [of c1 c n ph r] by (simp add: same_calls_def)
next
  case (move n ca ph c1)
  have c1: "callers c1 = callers c" using move(3) by (rule same_callsD)
  from move(2) show ?thesis
  proof (cases rule: phase_moveE)
    case (fail s e)
    then show ?thesis using board_send_fail [OF c1 move(1)] move(4) by simp
  qed (use board_phase [OF c1 move(1)] move(4) in \<open>simp_all add: under_way_def\<close>)
next
  case (store n ca sendmsg)
  then show ?thesis
    using board_phase [of "Streaming.store n (ca_req ca) sendmsg c" c n ca] by (simp add: under_way_def)
next
  case (timer n ca sendmsg)
  have "callers (c\<lparr>timers := timers c @ [req_Id sendmsg]\<rparr>) = callers c" by simp
  from board_phase [OF this timer(1)] show ?thesis using timer by (simp add: under_way_def)
next
  case (return n ca m ms)
  have "board_of c' = (board_of c)(n \<mapsto> call_state_of (ca\<lparr>ca_phase := Returned m, resultChannel := ms\<rparr>))"
    unfolding return by (rule board_of_upd) simp
  then have "board_of c' = (board_of c)(n \<mapsto> Taken (req_Id (ca_req ca)) m)"
    by (simp add: call_state_of_def)
  moreover have "board_of c n = Some (Answered (req_Id (ca_req ca)) m)"
    using return by (simp add: board_of_def call_state_of_def)
  ultimately show ?thesis using board_step.take_back by simp
next
  case (message i m c1)
  then have "message_ok m" using reads_message [OF assms(2)] by blast
  moreover have "board_of c' = board_of c1" using message(4) by (intro board_of_same) (simp add: same_calls_def)
  ultimately show ?thesis using board_received [OF assms(3)] message(3) by metis
next
  case (expire ks k ks')
  then show ?thesis using board_expire [OF assms(3), of "c\<lparr>timers := ks @ ks'\<rparr>" k] by simp
qed

lemma client_simulates: "simulation (client_init T) (step T) board_init board_step board_of"
proof
  show "board_init (board_of c)" if "client_init T c" for c
    using that by (auto simp: client_init_def InitStreaming_def board_of_def board_init_def)
  show "board_of c' = board_of c \<or> board_step (board_of c) (board_of c')" if "reachable T c" "step T c c'" for c c'
    using that reachable_ok [OF that(1)] step_board by blast
qed

end

interpretation ws_board: simulation "client_init (ws_transport ff)" "step (ws_transport ff)" board_init board_step board_of
  by (rule ws.client_simulates)

interpretation h2_board: simulation "client_init (h2_transport ff)" "step (h2_transport ff)" board_init board_step board_of
  by (rule h2.client_simulates)

end
