(* ===== verification/Streaming_Props.thy ===== *)
theory Streaming_Props
  imports Streaming_Spec
begin

text \<open>
  What the streaming client promises to the callers of \<open>Call\<close>, over both transports: at most
  one answer, carrying the id of the call, as the board of calls specifies; an answer for every
  waiting call whose id no other call uses; a receive loop that never panics. And, as runs of
  the model, what goes wrong when two calls use one id, when an id is used again, and when the
  connection fails between the bookkeeping of a call and its send.
\<close>

section \<open>Runs over a connected websocket\<close>

definition a_request :: "gval \<Rightarrow> RequestMessage" where
  "a_request i = \<lparr>kind = MKRequest, traceId = [], req_Id = i, req_Method = ''get'',
     req_Params = [], req_paramsAreList = True\<rparr>"

text \<open>A connected client; the fields that a run without errors changes.\<close>

definition up :: "(gval \<Rightarrow> pendingRequest option) \<Rightarrow> Message list \<Rightarrow> (nat \<Rightarrow> caller option) \<Rightarrow> gval list \<Rightarrow>
    Message list \<Rightarrow> wsTransport client" where
  "up P q C tm w = \<lparr>cl_transport = \<lparr>ws = Some 0\<rparr>, pendingRequests = P, contexts = [False], cancelFunc = Some 0,
     sendChannel = Some 0, send_chans = (\<lambda>k. [])(0 := q), closeChannel = Some 0, close_chans = (\<lambda>k. []),
     sendLoops = [\<lparr>sl_ctx = 0, sl_pos = SendTop\<rparr>], recvLoops = [RecvTop], messageHandler = False, handled = [],
     connectedHandler = False, connectCalls = 0, closeHandler = False, closeCalls = 0, callers = C, outgoing = [],
     waiters = (\<lambda>n. None), timers = tm, written = w\<rparr>"

definition at_phase :: "RequestMessage \<Rightarrow> phase \<Rightarrow> Message list \<Rightarrow> caller" where
  "at_phase r ph ms = \<lparr>ca_req = r, ca_phase = ph, resultChannel = ms\<rparr>"

lemma a_request_simps [simp]:
  "req_Id (a_request i) = i" "message_ok (MRequest (a_request i)) \<longleftrightarrow> i \<noteq> VNil"
  by (simp_all add: a_request_def message_ok_def kind_ok_def msg_kind_def)

lemmas run_defs = up_def at_phase_def ws_transport_def wsConnected_def wsConnect_def Connect_def Connected_def
  set_phase_def new_caller_def phase_of_def new_connection_def

lemma no_messages: "(\<lambda>k. [])(n := []) = (\<lambda>k. [])"
  by (simp add: fun_eq_iff)

lemma up_dial:
  assumes "r = a_request i" "i \<noteq> VNil"
  shows "step (hears d (ws_transport ff)) (InitStreaming \<lparr>ws = None\<rparr>) (up Map.empty [] [n \<mapsto> at_phase r Started []] [] [])"
proof -
  let ?T = "hears d (ws_transport ff)"
  let ?c = "InitStreaming \<lparr>ws = None\<rparr> :: wsTransport client"
  have "step ?T ?c (new_caller n r Started (snd (Connect ?T (Inr 0) ?c)))"
    using assms by (intro step.call [where d = "Inr 0"]) (simp_all add: InitStreaming_def run_defs)
  moreover have "new_caller n r Started (snd (Connect ?T (Inr 0) ?c)) = up Map.empty [] [n \<mapsto> at_phase r Started []] [] []"
    by (simp add: InitStreaming_def run_defs no_messages)
  ultimately show ?thesis by simp
qed

lemma ws_client_init: "client_init (ws_transport ff) (InitStreaming \<lparr>ws = None\<rparr>)"
  unfolding client_init_def by (intro exI [of _ "\<lparr>ws = None\<rparr>"]) (simp add: run_defs)

lemma run_dial:
  "r = a_request i \<Longrightarrow> i \<noteq> VNil \<Longrightarrow> reachable (ws_transport ff) (up Map.empty [] [n \<mapsto> at_phase r Started []] [] [])"
  by (rule reach.move, rule reach.start, rule ws_client_init, rule hears_step, rule up_dial)

text \<open>The steps of such a run, also when the reads are answered by a network \<open>d\<close>.\<close>

lemma up_call: "C n = None \<Longrightarrow> r = a_request i \<Longrightarrow> i \<noteq> VNil \<Longrightarrow>
   step (hears d (ws_transport ff)) (up P q C tm w) (up P q (C(n \<mapsto> at_phase r Started [])) tm w)"
  using step.call [of "up P q C tm w" n r "hears d (ws_transport ff)" "Inr 0" "up P q C tm w"] by (simp add: run_defs)

lemma up_load: "C n = Some (at_phase r Started []) \<Longrightarrow> P (req_Id r) = None \<Longrightarrow> P (VString u) = None \<Longrightarrow>
   step (hears d (ws_transport ff)) (up P q C tm w) (up P q (C(n \<mapsto> at_phase r (Loaded r) [])) tm w)"
  using step.load [of "up P q C tm w" n "at_phase r Started []" u r "hears d (ws_transport ff)"]
  by (simp add: run_defs choose_sendmsg_def)

lemma up_store: "C n = Some (at_phase r (Loaded s) []) \<Longrightarrow>
   step (hears d (ws_transport ff)) (up P q C tm w)
     (up (P(req_Id s \<mapsto> \<lparr>pr_reqmsg = r, pr_chan = n\<rparr>)) q (C(n \<mapsto> at_phase r (Stored s) [])) tm w)"
  using step.store [of "up P q C tm w" n "at_phase r (Loaded s) []" s "hears d (ws_transport ff)"]
  by (simp add: run_defs store_def)

text \<open>The send of a request: \<open>Connect\<close>, the channel, the send on it.\<close>

lemma up_send:
  assumes "C n = Some (at_phase r (Stored s) ms)" "length q < 100"
  shows "(step (hears d (ws_transport ff)))\<^sup>*\<^sup>* (up P q C tm w) (up P (q @ [MRequest s]) (C(n \<mapsto> at_phase r (Sent s) ms)) tm w)"
proof -
  let ?T = "hears d (ws_transport ff)"
  let ?c1 = "up P q (C(n \<mapsto> at_phase r (Sending s PutReady) ms)) tm w"
  let ?c2 = "up P q (C(n \<mapsto> at_phase r (Sending s (PutOn (Some 0))) ms)) tm w"
  have "step ?T (up P q C tm w) ?c1"
    using step.send [of "up P q C tm w" n s ?T "Inr 0" "up P q C tm w"] assms(1) by (simp add: run_defs)
  moreover have "step ?T ?c1 ?c2"
    using step.send_eval [of ?c1 n s ?T] by (simp add: run_defs)
  moreover have "step ?T ?c2 (up P (q @ [MRequest s]) (C(n \<mapsto> at_phase r (Sent s) ms)) tm w)"
    using step.send_put [of ?c2 n s 0 "up P (q @ [MRequest s]) (C(n \<mapsto> at_phase r (Sending s (PutOn (Some 0))) ms)) tm w" ?T]
      assms(2) by (simp add: run_defs put_def)
  ultimately show ?thesis by (meson converse_rtranclp_into_rtranclp r_into_rtranclp)
qed

lemma up_timer: "C n = Some (at_phase r (Sent s) ms) \<Longrightarrow>
   step (hears d (ws_transport ff)) (up P q C tm w) (up P q (C(n \<mapsto> at_phase r Waiting ms)) (tm @ [req_Id s]) w)"
  using step.timer [of "up P q C tm w" n s "hears d (ws_transport ff)"] by (simp add: run_defs)

lemma up_return: "C n = Some (at_phase r Waiting (m # ms)) \<Longrightarrow>
   step (hears d (ws_transport ff)) (up P q C tm w) (up P q (C(n \<mapsto> at_phase r (Returned m) ms)) tm w)"
  using step.return [of "up P q C tm w" n "at_phase r Waiting (m # ms)" m ms "hears d (ws_transport ff)"]
  by (simp add: run_defs)

lemma up_expire: "P k = Some \<lparr>pr_reqmsg = r, pr_chan = n\<rparr> \<Longrightarrow> C n = Some (at_phase r ph []) \<Longrightarrow>
   step (hears d (ws_transport ff)) (up P q C (k # tm) w) (up (P(k := None)) q (C(n \<mapsto> at_phase r ph [timeout_for r])) tm w)"
  using step.expire [of "up P q C (k # tm) w" "[]" k tm "hears d (ws_transport ff)"]
  by (simp add: run_defs expire_eq deliver_def)

lemma up_read:
  assumes x: "d x = WsText doc" "fst (DecodeMessage doc) = Returns (Inr m)"
    and m: "IsResultOrError m" "MustId m = Returns (req_Id r)"
    and n: "P (req_Id r) = Some \<lparr>pr_reqmsg = r, pr_chan = n\<rparr>" "C n = Some (at_phase r ph [])"
  shows "(step (hears d (ws_transport ff)))\<^sup>*\<^sup>* (up P q C tm w) (up (P(req_Id r := None)) q (C(n \<mapsto> at_phase r ph [m])) tm w)"
proof -
  let ?T = "hears d (ws_transport ff)"
  let ?c1 = "at_recv 0 (Reading (Some m, True, None)) (up P q C tm w)"
  have "step ?T (up P q C tm w) ?c1"
    using step.recv_loop [of 0 "up P q C tm w" ?T x] x
    by (simp add: run_defs recvLoop_def wsReadMessage_def)
  moreover have "recvLoop ?T x 0 ?c1 = Returns (up (P(req_Id r := None)) q (C(n \<mapsto> at_phase r ph [m])) tm w)"
    using m n by (simp add: run_defs recvLoop_def recv_result_def at_recv_def received_def handleResult_def deliver_def)
  then have "step ?T ?c1 (up (P(req_Id r := None)) q (C(n \<mapsto> at_phase r ph [m])) tm w)"
    by (rule step.recv_loop [rotated]) (simp add: at_recv_def up_def)
  ultimately show ?thesis by (meson converse_rtranclp_into_rtranclp r_into_rtranclp)
qed

text \<open>The send loop takes the first message of the channel and writes it.\<close>

lemma up_write:
  assumes "MessageBytes ff m = Inr j"
  shows "(step (hears d (ws_transport ff)))\<^sup>*\<^sup>* (up P (m # q) C tm w) (up P q C tm (w @ [m]))"
proof -
  let ?T = "hears d (ws_transport ff)"
  let ?c1 = "at_send 0 (Selecting (Some 0)) (up P (m # q) C tm w)"
  have "step ?T (up P (m # q) C tm w) ?c1"
    using step.send_loop [of 0 "up P (m # q) C tm w" ?T CtxDone] by (simp add: run_defs sendLoop_def)
  moreover have "sendLoop ?T (TakeMsg None) 0 ?c1 = Returns (up P q C tm (w @ [m]))"
    using assms by (simp add: run_defs sendLoop_def send_taken_def at_send_def wsWriteMessage_def)
  then have "step ?T ?c1 (up P q C tm (w @ [m]))"
    by (rule step.send_loop [rotated]) (simp add: at_send_def up_def)
  ultimately show ?thesis by (meson converse_rtranclp_into_rtranclp r_into_rtranclp)
qed

lemma heard_run: "reachable T c \<Longrightarrow> (step (hears d T))\<^sup>*\<^sup>* c c' \<Longrightarrow> reachable T c'"
  by (rotate_tac, induction rule: rtranclp_induct) (auto intro: reach.move hears_step)

lemmas run_step = heard_run [OF _ r_into_rtranclp]

lemma run_call:
  "reachable (ws_transport ff) (up P q C tm w) \<Longrightarrow> C n = None \<Longrightarrow> r = a_request i \<Longrightarrow> i \<noteq> VNil \<Longrightarrow>
   reachable (ws_transport ff) (up P q (C(n \<mapsto> at_phase r Started [])) tm w)"
  by (erule run_step) (rule up_call)

lemma run_load:
  "reachable (ws_transport ff) (up P q C tm w) \<Longrightarrow> C n = Some (at_phase r Started []) \<Longrightarrow>
   P (req_Id r) = None \<Longrightarrow> P (VString u) = None \<Longrightarrow>
   reachable (ws_transport ff) (up P q (C(n \<mapsto> at_phase r (Loaded r) [])) tm w)"
  by (erule run_step) (rule up_load)

lemma run_store:
  "reachable (ws_transport ff) (up P q C tm w) \<Longrightarrow> C n = Some (at_phase r (Loaded s) []) \<Longrightarrow>
   reachable (ws_transport ff)
     (up (P(req_Id s \<mapsto> \<lparr>pr_reqmsg = r, pr_chan = n\<rparr>)) q (C(n \<mapsto> at_phase r (Stored s) [])) tm w)"
  by (erule run_step) (rule up_store)

lemma run_send:
  "reachable (ws_transport ff) (up P q C tm w) \<Longrightarrow> C n = Some (at_phase r (Stored s) ms) \<Longrightarrow> length q < 100 \<Longrightarrow>
   reachable (ws_transport ff) (up P (q @ [MRequest s]) (C(n \<mapsto> at_phase r (Sent s) ms)) tm w)"
  by (erule heard_run) (rule up_send)

lemma run_timer:
  "reachable (ws_transport ff) (up P q C tm w) \<Longrightarrow> C n = Some (at_phase r (Sent s) ms) \<Longrightarrow>
   reachable (ws_transport ff) (up P q (C(n \<mapsto> at_phase r Waiting ms)) (tm @ [req_Id s]) w)"
  by (erule run_step) (rule up_timer)

lemma run_return:
  "reachable (ws_transport ff) (up P q C tm w) \<Longrightarrow> C n = Some (at_phase r Waiting (m # ms)) \<Longrightarrow>
   reachable (ws_transport ff) (up P q (C(n \<mapsto> at_phase r (Returned m) ms)) tm w)"
  by (erule run_step) (rule up_return)

lemma run_expire:
  "reachable (ws_transport ff) (up P q C (k # tm) w) \<Longrightarrow>
   P k = Some \<lparr>pr_reqmsg = r, pr_chan = n\<rparr> \<Longrightarrow> C n = Some (at_phase r ph []) \<Longrightarrow>
   reachable (ws_transport ff) (up (P(k := None)) q (C(n \<mapsto> at_phase r ph [timeout_for r])) tm w)"
  by (erule run_step) (rule up_expire)

lemma run_read:
  assumes "reachable (ws_transport ff) (up P q C tm w)" and d: "fst (DecodeMessage d) = Returns (Inr m)"
    and m: "IsResultOrError m" "MustId m = Returns (req_Id r)"
    and n: "P (req_Id r) = Some \<lparr>pr_reqmsg = r, pr_chan = n\<rparr>" "C n = Some (at_phase r ph [])"
  shows "reachable (ws_transport ff) (up (P(req_Id r := None)) q (C(n \<mapsto> at_phase r ph [m])) tm w)"
  by (rule heard_run [OF assms(1) up_read [where d = "\<lambda>_. WsText d" and x = "()" and doc = d]]) (use d m n in simp_all)

text \<open>One whole call, and its result as the server sends it.\<close>

definition a_result :: Message where
  "a_result = MResult (rawResultMessage (VInt 1) (VBool True))"

lemma read_result:
  "fst (DecodeMessage [Inr (JObj [(''id'', JNum ''1''), (''result'', JBool True)])]) = Returns (Inr a_result)"
proof -
  have one: "ParseInt ''1'' = Some 1" by code_simp
  let ?un = "empty_union\<lparr>un_Id := Some (JNum ''1''), un_Result := Some (JBool True)\<rparr>"
  have "decode_union (JObj [(''id'', JNum ''1''), (''result'', JBool True)]) = Inr ?un"
    by (simp add: union_steps raw_field_def)
  then show ?thesis
    by (simp add: DecodeMessage_def message_of_union_def empty_union_def decodeId_def one a_result_def rawResultMessage_def)
qed

lemma a_result_simps [simp]: "IsResultOrError a_result" "MustId a_result = Returns (VInt 1)"
  by (simp_all add: a_result_def rawResultMessage_def MustId_def IsResultOrError_def IsResult_def msg_kind_def)

abbreviation call_1 :: RequestMessage where "call_1 \<equiv> a_request (VInt 1)"

lemma run_sent:
  "reachable (ws_transport ff) (up [VInt 1 \<mapsto> \<lparr>pr_reqmsg = call_1, pr_chan = 0\<rparr>] [MRequest call_1]
     [0 \<mapsto> at_phase call_1 (Sent call_1) []] [] [])"
proof -
  have 1: "reachable (ws_transport ff) (up Map.empty [] [0 \<mapsto> at_phase call_1 Started []] [] [])"
    by (rule run_dial [OF refl]) simp
  from run_load [OF 1, where n = 0 and r = call_1]
  have 2: "reachable (ws_transport ff) (up Map.empty [] [0 \<mapsto> at_phase call_1 (Loaded call_1) []] [] [])" by simp
  from run_store [OF 2, of 0 call_1 call_1]
  have 3: "reachable (ws_transport ff) (up [VInt 1 \<mapsto> \<lparr>pr_reqmsg = call_1, pr_chan = 0\<rparr>] []
      [0 \<mapsto> at_phase call_1 (Stored call_1) []] [] [])" by simp
  from run_send [OF 3, of 0 call_1 call_1 "[]"] show ?thesis by simp
qed

lemma run_waiting:
  "reachable (ws_transport ff) (up [VInt 1 \<mapsto> \<lparr>pr_reqmsg = call_1, pr_chan = 0\<rparr>] [MRequest call_1]
     [0 \<mapsto> at_phase call_1 Waiting []] [VInt 1] [])"
  using run_timer [OF run_sent, of 0 call_1 call_1 "[]" ff] by simp

lemma run_answered:
  "reachable (ws_transport ff) (up Map.empty [MRequest call_1] [0 \<mapsto> at_phase call_1 Waiting [a_result]] [VInt 1] [])"
  using run_read [OF run_waiting read_result, of call_1 0 Waiting ff] by simp

section \<open>One answer\<close>

text \<open>Every call has at most one answer, waiting or taken, and it carries the id of the call.\<close>

definition answered_once :: "'t client \<Rightarrow> bool" where
  "answered_once c = (\<forall>n ca. callers c n = Some ca \<longrightarrow>
     (\<forall>m \<in> set (resultChannel ca). answer_to ca m) \<and>
     (case ca_phase ca of Returned m \<Rightarrow> answer_to ca m \<and> resultChannel ca = [] | _ \<Rightarrow> length (resultChannel ca) \<le> 1))"

lemma client_ok_answered: "client_ok c \<Longrightarrow> answered_once c"
  unfolding answered_once_def
proof (intro allI impI)
  fix n ca assume c: "client_ok c" "callers c n = Some ca"
  then have "caller_ok ca" using client_caller by blast
  then show "(\<forall>m \<in> set (resultChannel ca). answer_to ca m) \<and>
     (case ca_phase ca of Returned m \<Rightarrow> answer_to ca m \<and> resultChannel ca = [] | _ \<Rightarrow> length (resultChannel ca) \<le> 1)"
    by (auto simp: caller_ok_def in_table_def split: phase.splits)
qed

text \<open>C4: whatever the network and the interleaving of the client's goroutines do, a call
  over a websocket or an HTTP/2 stream gets at most one answer, a result or an error that carries the
  call's own id, also when the message was sent under another id.\<close>

theorem one_answer:
  "(\<forall>c. reachable (ws_transport ff) c \<longrightarrow> answered_once c) \<and>
   (\<forall>c. reachable (h2_transport ff) c \<longrightarrow> answered_once c)"
  by (intro conjI allI impI client_ok_answered) (blast dest: ws.reachable_ok h2.reachable_ok)+

theorem one_answer_witness:
  "answered_once (up Map.empty [MRequest call_1] [0 \<mapsto> at_phase call_1 Waiting [a_result]] [VInt 1] [])"
  using one_answer [of "\<lambda>q. ''0''"] run_answered by blast

text \<open>C5: the client implements the board of calls: its reachable states, seen as a
  board, are reachable in the system in which a call is asked once, then answered by a message with
  its id or refused, and taken once.\<close>

theorem answers_refine:
  "(\<forall>c. reachable (ws_transport ff) c \<longrightarrow> reach board_init board_step (board_of c)) \<and>
   (\<forall>c. reachable (h2_transport ff) c \<longrightarrow> reach board_init board_step (board_of c))"
  using ws_board.reach_abs h2_board.reach_abs by blast

theorem answers_refine_witness:
  "reach board_init board_step
     (board_of (up Map.empty [MRequest call_1] [0 \<mapsto> at_phase call_1 Waiting [a_result]] [VInt 1] []))"
  using answers_refine [of "\<lambda>q. ''0''"] run_answered by blast

section \<open>No lost calls\<close>

text \<open>Whatever the network does, the next move of a loop ends without a panic; the loops of replaced connections
  are among them.\<close>

definition loops_run :: "('t, 'd, 'r, 'x) Transport \<Rightarrow> 't client \<Rightarrow> bool" where
  "loops_run T c = ((\<forall>r i. i < length (recvLoops c) \<longrightarrow> no_panic (recvLoop T r i c)) \<and>
     (\<forall>br i. i < length (sendLoops c) \<longrightarrow> no_panic (sendLoop T br i c)))"

text \<open>A waiting call can be answered: the client has a step that puts an answer in its channel.\<close>

definition answerable :: "('t, 'd, 'r, 'x) Transport \<Rightarrow> 't client \<Rightarrow> nat \<Rightarrow> bool" where
  "answerable T c n = (case callers c n of
      None \<Rightarrow> True
    | Some ca \<Rightarrow> ca_phase ca = Waiting \<and> resultChannel ca = [] \<longrightarrow>
        (\<exists>c'. step T c c' \<and> callers c' n = Some (ca\<lparr>resultChannel := [timeout_for (ca_req ca)]\<rparr>)))"

lemma received_returns: "client_ok c \<Longrightarrow> message_ok m \<Longrightarrow> \<exists>c'. received m c = Returns c'"
proof (cases "IsResultOrError m")
  case True
  assume "message_ok m"
  from this True show ?thesis
    by (cases rule: handleResult_cases [where c = c]) (simp_all add: received_def True)
qed (simp add: received_def)

context transport
begin

lemma recvLoop_ok:
  assumes "reachable T c" "i < length (recvLoops c)"
  shows "no_panic (recvLoop T r i c)"
proof (cases "recvLoops c ! i")
  case RecvTop
  then show ?thesis
    using read_start [of "cl_transport c" r] reachable_ok [OF assms(1)] by (auto simp: recvLoop_def Connected_def)
next
  case (Reading res)
  then have "read_ok res" using reachable_ok [OF assms(1)] holdD assms(2) by blast
  then show ?thesis
    using received_returns reachable_ok [OF assms(1)]
    by (cases res; cases "fst res") (fastforce simp: Reading recvLoop_def recv_result_def read_ok_def split: option.split)+
qed (simp add: recvLoop_def)

lemma sendLoop_ok:
  assumes "reachable T c"
  shows "no_panic (sendLoop T br i c)"
proof -
  have "no_panic (send_taken T x i m d)" if "cl_transport d = cl_transport c" for x m d
    using write_up [of "cl_transport c" x m] reachable_ok [OF assms] that
    by (auto simp: send_taken_def Connected_def split: option.split)
  then show ?thesis
    by (auto simp: sendLoop_def split: send_pos.split branch.split option.split list.split)
qed

lemma reachable_loops: "reachable T c \<Longrightarrow> loops_run T c"
  by (simp add: loops_run_def recvLoop_ok sendLoop_ok)

lemma reachable_answerable: "reachable T c \<Longrightarrow> distinct_ids c \<Longrightarrow> answerable T c n"
  using waiting_timer [of c n] by (auto simp: answerable_def split: option.split)

end



text \<open>C7: as long as no two calls use the same id, every call that waits without an
  answer still has its entry in the table and its timer: the client has a step that answers it.\<close>

theorem waiting_answered:
  "(\<forall>c n. reachable (ws_transport ff) c \<and> distinct_ids c \<longrightarrow> answerable (ws_transport ff) c n) \<and>
   (\<forall>c n. reachable (h2_transport ff) c \<and> distinct_ids c \<longrightarrow> answerable (h2_transport ff) c n)"
  using ws.reachable_answerable h2.reachable_answerable by blast

theorem waiting_answered_witness:
  "answerable (ws_transport (\<lambda>q. ''0''))
     (up [VInt 1 \<mapsto> \<lparr>pr_reqmsg = call_1, pr_chan = 0\<rparr>] [MRequest call_1] [0 \<mapsto> at_phase call_1 Waiting []] [VInt 1] []) 0"
  using waiting_answered [of "\<lambda>q. ''0''"] run_waiting [of "\<lambda>q. ''0''"] by (auto simp: distinct_ids_def up_def split: if_splits)

section \<open>Calls that share an id\<close>

text \<open>Two calls with the same id, whose requests both look for the id before either stores it.\<close>

lemma run_race:
  "reachable (ws_transport ff) (up [VInt 1 \<mapsto> \<lparr>pr_reqmsg = call_1, pr_chan = 1\<rparr>] [MRequest call_1]
     [0 \<mapsto> at_phase call_1 Waiting [], 1 \<mapsto> at_phase call_1 (Stored call_1) []] [VInt 1] [])"
proof -
  have 1: "reachable (ws_transport ff) (up Map.empty [] [0 \<mapsto> at_phase call_1 Started []] [] [])"
    by (rule run_dial [OF refl]) simp
  from run_call [OF 1, of 1 call_1 "VInt 1"]
  have 2: "reachable (ws_transport ff) (up Map.empty []
      [0 \<mapsto> at_phase call_1 Started [], 1 \<mapsto> at_phase call_1 Started []] [] [])" by simp
  from run_load [OF 2, where n = 0 and r = call_1]
  have 3: "reachable (ws_transport ff) (up Map.empty []
      [1 \<mapsto> at_phase call_1 Started [], 0 \<mapsto> at_phase call_1 (Loaded call_1) []] [] [])" by (simp add: fun_upd_twist)
  from run_load [OF 3, where n = 1 and r = call_1]
  have 4: "reachable (ws_transport ff) (up Map.empty []
      [0 \<mapsto> at_phase call_1 (Loaded call_1) [], 1 \<mapsto> at_phase call_1 (Loaded call_1) []] [] [])" by (simp add: fun_upd_twist)
  from run_store [OF 4, of 0 call_1 call_1]
  have 5: "reachable (ws_transport ff) (up [VInt 1 \<mapsto> \<lparr>pr_reqmsg = call_1, pr_chan = 0\<rparr>] []
      [1 \<mapsto> at_phase call_1 (Loaded call_1) [], 0 \<mapsto> at_phase call_1 (Stored call_1) []] [] [])" by (simp add: fun_upd_twist)
  from run_store [OF 5, of 1 call_1 call_1]
  have 6: "reachable (ws_transport ff) (up [VInt 1 \<mapsto> \<lparr>pr_reqmsg = call_1, pr_chan = 1\<rparr>] []
      [0 \<mapsto> at_phase call_1 (Stored call_1) [], 1 \<mapsto> at_phase call_1 (Stored call_1) []] [] [])" by (simp add: fun_upd_twist)
  from run_send [OF 6, of 0 call_1 call_1 "[]"]
  have 7: "reachable (ws_transport ff) (up [VInt 1 \<mapsto> \<lparr>pr_reqmsg = call_1, pr_chan = 1\<rparr>] [MRequest call_1]
      [1 \<mapsto> at_phase call_1 (Stored call_1) [], 0 \<mapsto> at_phase call_1 (Sent call_1) []] [] [])" by (simp add: fun_upd_twist)
  from run_timer [OF 7, of 0 call_1 call_1 "[]"] show ?thesis by (simp add: fun_upd_twist)
qed

text \<open>C22: two concurrent calls with the same id can strand the first of them: it waits
  in every later state, its timer included, because \<open>Load\<close> and \<open>Store\<close> on the table of pending requests
  are two steps, and the second call replaces the first one's entry.\<close>

theorem call_forgotten:
  "\<exists>c. reachable (ws_transport ff) c \<and> forgotten (ws_transport ff) c 0"
proof (intro exI conjI)
  show "reachable (ws_transport ff) (up [VInt 1 \<mapsto> \<lparr>pr_reqmsg = call_1, pr_chan = 1\<rparr>] [MRequest call_1]
      [0 \<mapsto> at_phase call_1 Waiting [], 1 \<mapsto> at_phase call_1 (Stored call_1) []] [VInt 1] [])"
    by (rule run_race)
  show "forgotten (ws_transport ff) (up [VInt 1 \<mapsto> \<lparr>pr_reqmsg = call_1, pr_chan = 1\<rparr>] [MRequest call_1]
      [0 \<mapsto> at_phase call_1 Waiting [], 1 \<mapsto> at_phase call_1 (Stored call_1) []] [VInt 1] []) 0"
    by (rule stranded_forgotten) (simp add: stranded_def up_def at_phase_def)
qed

section \<open>An id used again, and a send that fails\<close>

text \<open>A call that uses the id of an earlier, finished call can be answered with a
  timeout before its own timer is even started: the timer of the earlier call is not stopped by the
  answer, and removes whatever entry has the id when it fires.\<close>

lemma early_timeout:
  "\<exists>c ca. reachable (ws_transport ff) c \<and> callers c 1 = Some ca \<and> ca_phase ca = Sent (ca_req ca) \<and>
     resultChannel ca = [timeout_for (ca_req ca)]"
proof -
  let ?done = "at_phase call_1 (Returned a_result) []"
  from run_return [OF run_answered, where n = 0 and r = call_1]
  have 1: "reachable (ws_transport ff) (up Map.empty [MRequest call_1] [0 \<mapsto> ?done] [VInt 1] [])" by simp
  from run_call [OF 1, of 1 call_1 "VInt 1"]
  have 2: "reachable (ws_transport ff) (up Map.empty [MRequest call_1]
      [0 \<mapsto> ?done, 1 \<mapsto> at_phase call_1 Started []] [VInt 1] [])" by simp
  from run_load [OF 2, where n = 1 and r = call_1]
  have 3: "reachable (ws_transport ff) (up Map.empty [MRequest call_1]
      [0 \<mapsto> ?done, 1 \<mapsto> at_phase call_1 (Loaded call_1) []] [VInt 1] [])" by simp
  from run_store [OF 3, of 1 call_1 call_1]
  have 4: "reachable (ws_transport ff) (up [VInt 1 \<mapsto> \<lparr>pr_reqmsg = call_1, pr_chan = 1\<rparr>] [MRequest call_1]
      [0 \<mapsto> ?done, 1 \<mapsto> at_phase call_1 (Stored call_1) []] [VInt 1] [])" by simp
  from run_send [OF 4, of 1 call_1 call_1 "[]"]
  have 5: "reachable (ws_transport ff) (up [VInt 1 \<mapsto> \<lparr>pr_reqmsg = call_1, pr_chan = 1\<rparr>]
      [MRequest call_1, MRequest call_1] [0 \<mapsto> ?done, 1 \<mapsto> at_phase call_1 (Sent call_1) []] [VInt 1] [])" by simp
  from run_expire [OF 5, of call_1 1 "Sent call_1"]
  have "reachable (ws_transport ff) (up Map.empty [MRequest call_1, MRequest call_1]
      [0 \<mapsto> ?done, 1 \<mapsto> at_phase call_1 (Sent call_1) [timeout_for call_1]] [] [])"
    (is "reachable _ ?c") by simp
  moreover have "callers ?c 1 = Some (at_phase call_1 (Sent call_1) [timeout_for call_1])" by (simp add: up_def)
  ultimately show ?thesis by (force simp: at_phase_def)
qed

text \<open>When the connection is lost after the request was stored and cannot be made
  again, the call returns the error but its entry stays in the table of pending requests, and no timer
  will remove it.\<close>

lemma failed_call_leaks:
  "\<exists>c ca p. reachable (ws_transport ff) c \<and> callers c 0 = Some ca \<and>
     ca_phase ca = Failed TransportConnectFailed \<and>
     pendingRequests c (req_Id (ca_req ca)) = Some p \<and> pr_chan p = 0 \<and> timers c = []"
proof -
  let ?T = "ws_transport ff"
  have 1: "reachable ?T (up Map.empty [] [0 \<mapsto> at_phase call_1 Started []] [] [])"
    by (rule run_dial [OF refl]) simp
  from run_load [OF 1, where n = 0 and r = call_1]
  have 2: "reachable ?T (up Map.empty [] [0 \<mapsto> at_phase call_1 (Loaded call_1) []] [] [])" by simp
  from run_store [OF 2, of 0 call_1 call_1]
  have 3: "reachable ?T (up [VInt 1 \<mapsto> \<lparr>pr_reqmsg = call_1, pr_chan = 0\<rparr>] []
      [0 \<mapsto> at_phase call_1 (Stored call_1) []] [] [])" (is "reachable ?T ?c") by simp
  have closed: "reachable ?T (Close ?T ?c)" using 3 step.close by (rule reach.move)
  have "step ?T (Close ?T ?c) (set_phase 0 (Failed TransportConnectFailed) (Close ?T ?c))"
    by (rule step.send_fail [where sendmsg = call_1 and d = "Inl NetOp"])
      (simp_all add: run_defs Close_def Reset_def put_close_def cancel_context_def wsClose_def)
  with closed have "reachable ?T (set_phase 0 (Failed TransportConnectFailed) (Close ?T ?c))" (is "reachable _ ?d")
    by (rule reach.move)
  moreover have "callers ?d 0 = Some (at_phase call_1 (Failed TransportConnectFailed) [])"
      "pendingRequests ?d (VInt 1) = Some \<lparr>pr_reqmsg = call_1, pr_chan = 0\<rparr>" "timers ?d = []"
    by (simp_all add: set_phase_callers) (simp_all add: up_def at_phase_def)
  ultimately show ?thesis by (force simp: at_phase_def)
qed

end
