(* ===== verification/Streaming_Conn.thy ===== *)
theory Streaming_Conn
  imports Streaming_Props
begin

text \<open>
  The life of a connection of the streaming client: the context, the send channel and the close
  channel that \<open>Connect\<close> makes, \<open>Reset\<close> ends and \<open>Wait\<close> reads. The fields that say a connection is there
  agree in every reachable state; the error a connection ends with is read by at most one caller of \<open>Wait\<close>,
  and by one that waits alone; and the goroutines of a connection outlive it.
\<close>

section \<open>The connection part of the state\<close>

definition same_conn :: "'t client \<Rightarrow> 't client \<Rightarrow> bool" where
  "same_conn c c' = (length (contexts c') = length (contexts c) \<and> cancelFunc c' = cancelFunc c \<and>
     sendChannel c' = sendChannel c \<and> closeChannel c' = closeChannel c \<and> close_chans c' = close_chans c \<and>
     waiters c' = waiters c \<and> cl_transport c' = cl_transport c)"

lemma conn_refl [simp]: "same_conn c c"
  by (simp add: same_conn_def)

text \<open>The operations that leave the connection alone.\<close>

lemma conn_simps [simp]:
  "same_conn c (at_send i p d) = same_conn c d" "same_conn c (at_recv i q d) = same_conn c d"
  "same_conn c (set_phase n ph d) = same_conn c d" "same_conn c (new_caller n r ph d) = same_conn c d"
  "same_conn c (store n r s d) = same_conn c d" "same_conn c (call_messageHandler m d) = same_conn c d"
  "same_conn c (deliver n m d) = same_conn c d" "same_conn c (d\<lparr>pendingRequests := P\<rparr>) = same_conn c d"
  "same_conn c (d\<lparr>timers := tm\<rparr>) = same_conn c d" "same_conn c (d\<lparr>outgoing := os\<rparr>) = same_conn c d"
  "same_conn c (d\<lparr>callers := C\<rparr>) = same_conn c d" "same_conn c (d\<lparr>send_chans := sc\<rparr>) = same_conn c d"
  "same_conn c (d\<lparr>written := w\<rparr>) = same_conn c d" "same_conn c (d\<lparr>contexts := (contexts d)[i := b]\<rparr>) = same_conn c d"
  by (auto simp: same_conn_def at_send_def at_recv_def set_phase_def new_caller_def store_def call_messageHandler_def
      deliver_def split: option.split)

lemma conn_expire [simp]: "same_conn c (expire k d) = same_conn c d"
  by (simp add: expire_eq split: option.split)

lemma conn_received: "received m c = Returns c' \<Longrightarrow> same_conn c c'"
  unfolding received_def handleResult_def
  by (auto simp: obind_Returns_iff Let_def split: if_splits option.splits)

lemma conn_quiet:
  "put m k c = Some c' \<Longrightarrow> same_conn c c'" "OnMessage c = Inr c' \<Longrightarrow> same_conn c c'"
  "OnConnected c = Inr c' \<Longrightarrow> same_conn c c'" "OnCloseClient c = Inr c' \<Longrightarrow> same_conn c c'"
  by (auto simp: put_def OnMessage_def OnConnected_def OnCloseClient_def same_conn_def split: if_splits)

lemma same_conn_trans: "same_conn c c1 \<Longrightarrow> same_conn c1 c' \<Longrightarrow> same_conn c c'"
  by (simp add: same_conn_def)

lemma same_conn_eq: "same_conn c1 c2 \<Longrightarrow> same_conn c1 c \<longleftrightarrow> same_conn c2 c"
  by (auto simp: same_conn_def)

text \<open>What a step does to the connection: nothing, a new one, its end, a \<open>Wait\<close> or its return. The state the
  operation is applied to may differ from the one before the step in other fields.\<close>

definition opens :: "('t, 'd, 'r, 'x) Transport \<Rightarrow> 't client \<Rightarrow> 't client \<Rightarrow> bool" where
  "opens T c c' = (\<not> Connected T c \<and> (\<exists>t. tConnected T t \<and> same_conn (new_connection (c\<lparr>cl_transport := t\<rparr>)) c'))"

definition ends :: "('t, 'd, 'r, 'x) Transport \<Rightarrow> 't client \<Rightarrow> 't client \<Rightarrow> bool" where
  "ends T c c' = (\<exists>e d. same_conn c d \<and> same_conn (Reset T e d) c')"

lemma ends_simps [simp]:
  "ends T c (at_send i p d) = ends T c d" "ends T c (at_recv i q d) = ends T c d"
  by (simp_all add: ends_def)

lemma ends_Reset: "same_conn c d \<Longrightarrow> ends T c (Reset T e d)"
  unfolding ends_def by (intro exI [of _ e] exI [of _ d]) simp

lemma ends_Close: "same_conn c d \<Longrightarrow> same_conn c (Close T d) \<or> ends T c (Close T d)"
  by (simp add: Close_def ends_Reset)

lemma ends_error:
  assumes "same_conn c d"
  shows "ends T c (handleError T e d)"
proof -
  have "same_conn (Reset T (Some e) d) (handleError T e d)"
    by (simp add: handleError_def Let_def same_conn_def)
  with assms show ?thesis unfolding ends_def by blast
qed

context transport
begin

lemma conn_connect:
  assumes "Connect T d c = (e, c1)" "same_conn c1 c'"
  shows "same_conn c c' \<or> opens T c c'"
proof (cases "tConnected T (cl_transport c)")
  case True
  then show ?thesis using assms by (simp add: Connect_def)
next
  case False
  obtain eo t where dial: "tConnect T d (cl_transport c) = (eo, t)" by (cases "tConnect T d (cl_transport c)")
  show ?thesis
  proof (cases eo)
    case None
    then have "c1 = new_connection (c\<lparr>cl_transport := t\<rparr>)" "tConnected T t"
      using assms(1) False dial connect_up by (auto simp: Connect_def)
    then show ?thesis using False assms(2) by (auto simp: opens_def Connected_def)
  next
    case (Some x)
    then have "c1 = c" using assms(1) False dial connect_fail by (auto simp: Connect_def)
    then show ?thesis using assms(2) by simp
  qed
qed

lemma conn_send_taken:
  assumes "send_taken T x i m d = Returns c'" "same_conn c d"
  shows "same_conn c c' \<or> ends T c c'"
  using assms ends_error [where T = T, OF assms(2)]
  by (auto simp: send_taken_def obind_Returns_iff split: if_splits option.splits)

lemma conn_sendLoop:
  assumes "sendLoop T br i c = Returns c'"
  shows "same_conn c c' \<or> ends T c c'"
proof (cases "sl_pos (sendLoops c ! i)")
  case (Selecting ch)
  show ?thesis
  proof (cases br)
    case CtxDone
    then show ?thesis
      using assms Selecting ends_Close [where T = T and c = c and d = c, OF conn_refl] by (auto simp: sendLoop_def split: if_splits)
  next
    case (TakeMsg x)
    then show ?thesis
      using assms Selecting by (auto simp: sendLoop_def dest: conn_send_taken [where c = c] split: option.splits list.splits)
  qed
qed (use assms in \<open>auto simp: sendLoop_def\<close>)

lemma conn_recvLoop:
  assumes "recvLoop T r i c = Returns c'"
  shows "same_conn c c' \<or> ends T c c'"
proof (cases "recvLoops c ! i")
  case (Reading res)
  obtain m readed e where res: "res = (m, readed, e)" by (cases res) auto
  show ?thesis
  proof (cases e)
    case None
    then show ?thesis
      using assms Reading res by (auto simp: recvLoop_def recv_result_def conn_received split: if_splits option.splits outcome.splits)
  next
    case (Some x)
    then show ?thesis
      using assms Reading res ends_error [where T = T and c = c and d = c and e = x, OF conn_refl] by (auto simp: recvLoop_def recv_result_def)
  qed
qed (use assms in \<open>auto simp: recvLoop_def obind_Returns_iff split: if_splits\<close>)

lemma conn_cases [consumes 1, case_names quiet opens ends waits wakes]:
  assumes "step T c c'"
  obtains (quiet) "same_conn c c'" | (opens) "opens T c c'" | (ends) "ends T c c'"
  | (waits) n where "waiters c n = None" "c' = Wait n c" | (wakes) n where "wake n c = Some c'"
proof -
  have dialled: thesis if "Connect T d c = (e, c1)" "same_conn c1 c'" for d e c1
    using conn_connect [OF that] quiet opens by blast
  from assms show ?thesis
  proof cases
    case (call n r d c1)
    show ?thesis by (rule dialled [OF call(4)]) (simp add: call(1))
  next
    case (call_fail n r d e c1)
    show ?thesis by (rule dialled [OF call_fail(4)]) (simp add: call_fail(1))
  next
    case (send n s d c1)
    show ?thesis by (rule dialled [OF send(3)]) (simp add: send(1))
  next
    case (send_fail n s d e c1)
    show ?thesis by (rule dialled [OF send_fail(3)]) (simp add: send_fail(1))
  next
    case (app_connect d e)
    show ?thesis by (rule dialled [OF app_connect]) simp
  next
    case (app_send d m)
    then obtain c1 where c1: "Connect T d c = (None, c1)" "c' = c1\<lparr>outgoing := outgoing c1 @ [(m, PutReady)]\<rparr>" by (rule SendE)
    show ?thesis by (rule dialled [OF c1(1)]) (simp add: c1(2))
  next
    case (send_put n s k c1)
    show ?thesis by (rule quiet) (simp add: send_put(1) conn_quiet(1) [OF send_put(3)])
  next
    case (app_put xs m k ys c1)
    show ?thesis by (rule quiet) (simp add: app_put(1) conn_quiet(1) [OF app_put(3)])
  next
    case (send_loop i br)
    then show ?thesis using conn_sendLoop quiet ends by blast
  next
    case (recv_loop i r)
    then show ?thesis using conn_recvLoop quiet ends by blast
  next
    case close
    then show ?thesis using ends_Close [where T = T and c = c and d = c, OF conn_refl] quiet ends by auto
  next
    case (reset e)
    show ?thesis by (rule ends) (simp add: reset ends_Reset)
  next
    case (wait n)
    then show ?thesis using waits by blast
  next
    case (woken n)
    then show ?thesis using wakes by blast
  qed (rule quiet, simp add: conn_quiet)+
qed

end

section \<open>The fields agree\<close>

text \<open>A client is connected exactly when it has a cancel function, a send channel and a close channel, and these are
  the ones of the last connection.\<close>

definition conn_sync :: "('t, 'd, 'r, 'x) Transport \<Rightarrow> 't client \<Rightarrow> bool" where
  "conn_sync T c = (cancelFunc c = sendChannel c \<and> closeChannel c = sendChannel c \<and>
     sendChannel c = (if Connected T c then Some (length (contexts c) - 1) else None) \<and>
     (Connected T c \<longrightarrow> contexts c \<noteq> []))"

text \<open>What is known of the error of a connection: not there yet, waiting in the channel, or read by one waiter.\<close>

definition got :: "'t client \<Rightarrow> nat \<Rightarrow> nat \<Rightarrow> bool" where
  "got c k n = (\<exists>e. waiters c n = Some (WaitGot k e))"

definition fate :: "bool \<Rightarrow> bool \<Rightarrow> goerr option list \<Rightarrow> (nat \<Rightarrow> bool) \<Rightarrow> bool" where
  "fate made current ch readers = (length ch \<le> 1 \<and> (\<forall>n. readers n \<longrightarrow> ch = []) \<and>
     (\<forall>n n'. readers n \<longrightarrow> readers n' \<longrightarrow> n = n') \<and>
     (\<not> made \<or> current \<longrightarrow> ch = [] \<and> (\<forall>n. \<not> readers n)) \<and>
     (made \<and> \<not> current \<longrightarrow> ch \<noteq> [] \<or> (\<exists>n. readers n)))"

definition fate_ok :: "'t client \<Rightarrow> nat \<Rightarrow> bool" where
  "fate_ok c k = fate (k < length (contexts c)) (closeChannel c = Some k) (close_chans c k) (got c k)"

definition waits_ok :: "'t client \<Rightarrow> bool" where
  "waits_ok c = ((\<forall>k. fate_ok c k) \<and> (\<forall>n k. waiters c n = Some (WaitOn k) \<longrightarrow> k < length (contexts c)))"

lemma same_conn_sync: "same_conn c c' \<Longrightarrow> conn_sync T c' = conn_sync T c"
  by (auto simp: same_conn_def conn_sync_def Connected_def)

lemma same_conn_waits: "same_conn c c' \<Longrightarrow> waits_ok c' = waits_ok c"
  by (simp add: same_conn_def waits_ok_def fate_ok_def got_def [abs_def])

lemma new_connection_fields [simp]:
  "length (contexts (new_connection c)) = Suc (length (contexts c))" "cancelFunc (new_connection c) = Some (length (contexts c))"
  "sendChannel (new_connection c) = Some (length (contexts c))" "closeChannel (new_connection c) = Some (length (contexts c))"
  "close_chans (new_connection c) = close_chans c" "waiters (new_connection c) = waiters c"
  by (simp_all add: new_connection_def Let_def)

lemma Reset_fields [simp]:
  "length (contexts (Reset T e c)) = length (contexts c)" "cancelFunc (Reset T e c) = None"
  "sendChannel (Reset T e c) = None" "closeChannel (Reset T e c) = None" "waiters (Reset T e c) = waiters c"
  "close_chans (Reset T e c) = (case closeChannel c of None \<Rightarrow> close_chans c
     | Some k \<Rightarrow> (close_chans c)(k := close_chans c k @ [e]))"
  by (simp_all add: Reset_def put_close_def cancel_context_def Let_def split: option.split)

lemma Reset_down [simp]: "cl_transport (Reset T e c) = tClose T (cl_transport c)"
  by (simp add: Reset_def put_close_def cancel_context_def Let_def split: option.split)

lemma wake_cases:
  assumes "wake n c = Some c'"
  obtains k e es where "waiters c n = Some (WaitOn k)" "close_chans c k = e # es"
    "c' = c\<lparr>close_chans := (close_chans c)(k := es), waiters := (waiters c)(n \<mapsto> WaitGot k e)\<rparr>"
  using assms by (auto simp: wake_def split: option.splits waiter.splits list.splits)

text \<open>A new connection starts with nothing in its channel; the end of a connection puts one error there.\<close>

lemma got_same [simp]:
  "got (new_connection c) k = got c k" "got (Reset T e c) k = got c k" "got (c\<lparr>cl_transport := t\<rparr>) k = got c k"
  by (auto simp: got_def fun_eq_iff)

lemma fate_new: "fate False False ch g \<Longrightarrow> fate True True ch g"
  by (simp add: fate_def)

lemma fate_end: "fate True True ch g \<Longrightarrow> fate True False (ch @ [e]) g"
  by (simp add: fate_def)

lemma fate_read: "fate made current (e # es) g \<Longrightarrow> fate made current es (\<lambda>m. m = n)"
  by (auto simp: fate_def)

lemma waits_new: "waits_ok c \<Longrightarrow> closeChannel c = None \<Longrightarrow> waits_ok (new_connection (c\<lparr>cl_transport := t\<rparr>))"
  unfolding waits_ok_def
proof (intro conjI allI impI)
  fix k assume c: "(\<forall>k. fate_ok c k) \<and> (\<forall>n k. waiters c n = Some (WaitOn k) \<longrightarrow> k < length (contexts c))"
    "closeChannel c = None"
  then have "fate (k < length (contexts c)) False (close_chans c k) (got c k)" by (auto simp: fate_ok_def)
  then show "fate_ok (new_connection (c\<lparr>cl_transport := t\<rparr>)) k"
    using fate_new by (cases "k = length (contexts c)") (auto simp: fate_ok_def less_Suc_eq)
qed (auto simp: less_Suc_eq)

lemma waits_Reset:
  assumes "waits_ok c" "\<And>k. closeChannel c = Some k \<Longrightarrow> k < length (contexts c)"
  shows "waits_ok (Reset T e c)"
proof (cases "closeChannel c")
  case (Some k)
  then have "fate True True (close_chans c k) (got c k)"
    using assms unfolding waits_ok_def fate_ok_def by metis
  then have "fate_ok (Reset T e c) k" using fate_end assms(2) Some by (simp add: fate_ok_def)
  moreover have "fate_ok (Reset T e c) j" if "j \<noteq> k" for j
    using assms(1) that Some unfolding waits_ok_def fate_ok_def by simp metis
  ultimately have "fate_ok (Reset T e c) j" for j by (cases "j = k") auto
  then show ?thesis using assms(1) by (simp add: waits_ok_def)
qed (use assms(1) in \<open>simp add: waits_ok_def fate_ok_def\<close>)

lemma got_Wait: "waiters c n = None \<Longrightarrow> got (Wait n c) k = got c k"
  by (auto simp: Wait_def got_def fun_eq_iff split: option.split)

lemma waits_Wait:
  assumes "waits_ok c" "waiters c n = None" "\<And>k. closeChannel c = Some k \<Longrightarrow> k < length (contexts c)"
  shows "waits_ok (Wait n c)"
proof -
  have "fate_ok (Wait n c) k = fate_ok c k" for k
    using got_Wait [OF assms(2)] by (simp add: fate_ok_def) (simp add: Wait_def)
  then show ?thesis using assms by (auto simp: waits_ok_def Wait_def split: option.splits)
qed

lemma waits_wake:
  assumes "waits_ok c" "wake n c = Some c'"
  shows "waits_ok c'"
  using assms(2)
proof (cases rule: wake_cases)
  case (1 k e es)
  have k: "fate_ok c k" using assms(1) by (simp add: waits_ok_def)
  have "got c k = (\<lambda>m. False)" using k 1(2) by (auto simp: fate_ok_def fate_def fun_eq_iff)
  then have "got c' k = (\<lambda>m. m = n)" unfolding 1(3) by (auto simp: got_def fun_eq_iff)
  then have "fate_ok c' k" using k fate_read [of _ _ e es] 1(2) by (simp add: fate_ok_def 1(3))
  moreover have "fate_ok c' j" if "j \<noteq> k" for j
  proof -
    have "got c' j = got c j" using that 1(1) unfolding 1(3) by (auto simp: got_def fun_eq_iff)
    then show ?thesis using assms(1) that by (simp add: waits_ok_def fate_ok_def 1(3))
  qed
  ultimately have "fate_ok c' j" for j by (cases "j = k") auto
  then show ?thesis using assms(1) by (auto simp: waits_ok_def 1(3))
qed

lemma sync_open: "conn_sync T c \<Longrightarrow> closeChannel c = Some k \<Longrightarrow> k < length (contexts c)"
  by (auto simp: conn_sync_def split: if_splits)

context transport
begin

lemma step_sync:
  assumes "step T c c'" "conn_sync T c"
  shows "conn_sync T c'"
  using assms(1)
proof (cases rule: conn_cases)
  case quiet
  then show ?thesis using same_conn_sync assms(2) by blast
next
  case opens
  then obtain t where t: "tConnected T t" "same_conn (new_connection (c\<lparr>cl_transport := t\<rparr>)) c'" by (auto simp: opens_def)
  then have "conn_sync T (new_connection (c\<lparr>cl_transport := t\<rparr>))"
    by (auto simp: conn_sync_def Connected_def new_connection_def Let_def)
  then show ?thesis using same_conn_sync [OF t(2)] by blast
next
  case ends
  then obtain e d where d: "same_conn (Reset T e d) c'" by (auto simp: ends_def)
  have "conn_sync T (Reset T e d)" by (simp add: conn_sync_def Connected_def close_down)
  then show ?thesis using same_conn_sync [OF d] by blast
next
  case (waits n)
  then show ?thesis using assms(2) by (simp add: conn_sync_def Connected_def Wait_def)
next
  case (wakes n)
  then show ?thesis
    by (cases rule: wake_cases) (use assms(2) in \<open>simp add: conn_sync_def Connected_def\<close>)
qed

lemma step_waits:
  assumes "step T c c'" "conn_sync T c" "waits_ok c"
  shows "waits_ok c'"
  using assms(1)
proof (cases rule: conn_cases)
  case quiet
  then show ?thesis using same_conn_waits assms(3) by blast
next
  case opens
  then obtain t where "\<not> Connected T c" "same_conn (new_connection (c\<lparr>cl_transport := t\<rparr>)) c'" by (auto simp: opens_def)
  then show ?thesis
    using waits_new [OF assms(3), of t] same_conn_waits assms(2) by (auto simp: conn_sync_def)
next
  case ends
  then obtain e d where d: "same_conn c d" "same_conn (Reset T e d) c'" by (auto simp: ends_def)
  have "closeChannel d = closeChannel c" "length (contexts d) = length (contexts c)"
    using d(1) by (simp_all add: same_conn_def)
  then have "waits_ok (Reset T e d)"
    using same_conn_waits [OF d(1)] assms(3) sync_open [OF assms(2)] by (intro waits_Reset) auto
  then show ?thesis using same_conn_waits [OF d(2)] by blast
next
  case (waits n)
  then show ?thesis using waits_Wait [OF assms(3)] sync_open [OF assms(2)] by blast
next
  case (wakes n)
  then show ?thesis using waits_wake assms(3) by blast
qed

lemma reachable_conn: "reachable T c \<Longrightarrow> conn_sync T c \<and> waits_ok c"
proof (induction rule: reach.induct)
  case (start c)
  then show ?case
    by (auto simp: client_init_def InitStreaming_def conn_sync_def Connected_def waits_ok_def fate_ok_def fate_def got_def)
next
  case (move c c')
  then show ?case using step_sync step_waits by blast
qed

end

section \<open>Properties\<close>

text \<open>A client connected once, and a run in which two callers wait for the end of its connection.\<close>

definition connected_client :: "wsTransport client" where
  "connected_client = new_connection (InitStreaming \<lparr>ws = Some 0\<rparr>)"

lemma run_connected: "reachable (ws_transport ff) connected_client"
proof -
  let ?c = "InitStreaming \<lparr>ws = None\<rparr> :: wsTransport client"
  have "client_init (ws_transport ff) ?c"
    unfolding client_init_def by (intro exI [of _ "\<lparr>ws = None\<rparr>"]) (simp add: ws_transport_def wsConnected_def)
  then have "reachable (ws_transport ff) ?c" by (rule reach.start)
  moreover have "Connect (ws_transport ff) (Inr 0) ?c = (None, connected_client)"
    by (simp add: Connect_def ws_transport_def wsConnected_def wsConnect_def InitStreaming_def connected_client_def)
  then have "step (ws_transport ff) ?c connected_client" by (rule step.app_connect)
  ultimately show ?thesis by (rule reach.move)
qed



text \<open>\<open>Wait\<close> on a connection returns to at most one caller; a caller that waits for a connection that has ended, and
  whose error nobody has read, can return.\<close>

definition wait_once :: "'t client \<Rightarrow> bool" where
  "wait_once c = ((\<forall>k n n'. got c k n \<and> got c k n' \<longrightarrow> n = n') \<and>
     (\<forall>n k. waiters c n = Some (WaitOn k) \<and> closeChannel c \<noteq> Some k \<longrightarrow> (\<exists>m. got c k m) \<or> wake n c \<noteq> None))"

lemma waits_once: "waits_ok c \<Longrightarrow> wait_once c"
proof -
  assume "waits_ok c"
  then have c: "fate (k < length (contexts c)) (closeChannel c = Some k) (close_chans c k) (got c k)"
      "waiters c n = Some (WaitOn k) \<Longrightarrow> k < length (contexts c)" for n k
    by (auto simp: waits_ok_def fate_ok_def)
  have "n = n'" if "got c k n" "got c k n'" for k n n' using c(1) [of k] that by (auto simp: fate_def)
  moreover have "(\<exists>m. got c k m) \<or> wake n c \<noteq> None"
    if "waiters c n = Some (WaitOn k)" "closeChannel c \<noteq> Some k" for n k
  proof -
    have "fate True False (close_chans c k) (got c k)" using c(1) [of k] c(2) [OF that(1)] that(2) by simp
    then have "close_chans c k \<noteq> [] \<or> (\<exists>m. got c k m)" unfolding fate_def by blast
    then show ?thesis using that(1) by (cases "close_chans c k") (simp_all add: wake_def)
  qed
  ultimately show ?thesis unfolding wait_once_def by blast
qed



text \<open>A second caller of \<open>Wait\<close> on a connection whose error has been read waits for ever.\<close>

lemma second_waiter:
  assumes "reachable (ws_transport ff) c" "got c k m" "waiters c n = Some (WaitOn k)"
    and "step (ws_transport ff) c c'"
  shows "waiters c' n = Some (WaitOn k) \<and> got c' k m"
proof -
  have ok: "waits_ok c" using ws.reachable_conn assms(1) by blast
  from assms(4) show ?thesis
  proof (cases rule: ws.conn_cases)
    case opens
    then show ?thesis using assms(2,3) by (auto simp: opens_def same_conn_def got_def)
  next
    case ends
    then show ?thesis using assms(2,3) by (auto simp: ends_def same_conn_def got_def)
  next
    case (wakes j)
    from wakes show ?thesis
    proof (cases rule: wake_cases)
      case (1 k' e es)
      have "close_chans c k = []" using ok assms(2) by (auto simp: waits_ok_def fate_ok_def fate_def)
      then have "k' \<noteq> k" using 1(2) by auto
      then have "j \<noteq> n" "j \<noteq> m" using 1(1) assms(2,3) by (auto simp: got_def)
      then show ?thesis using 1(3) assms(2,3) by (simp add: got_def)
    qed
  qed (use assms(2,3) in \<open>auto simp: same_conn_def got_def Wait_def\<close>)
qed

text \<open>A caller of \<open>Wait\<close> that can only wait: it is on the channel in every later state.\<close>

definition waits_forever :: "('t, 'd, 'r, 'x) Transport \<Rightarrow> 't client \<Rightarrow> nat \<Rightarrow> bool" where
  "waits_forever T c n = (\<exists>k. closeChannel c \<noteq> Some k \<and> (\<forall>c'. (step T)\<^sup>*\<^sup>* c c' \<longrightarrow> waiters c' n = Some (WaitOn k)))"

lemma second_waits:
  assumes "reachable (ws_transport ff) c" "got c k m" "waiters c n = Some (WaitOn k)"
  shows "waits_forever (ws_transport ff) c n"
proof -
  have "reachable (ws_transport ff) c' \<and> got c' k m \<and> waiters c' n = Some (WaitOn k)"
    if "(step (ws_transport ff))\<^sup>*\<^sup>* c c'" for c'
    using that
  proof (induction rule: rtranclp_induct)
    case (step c1 c2)
    then show ?case using second_waiter [of ff c1 k m n c2] by (blast intro: reach.move)
  qed (use assms in blast)
  moreover have "closeChannel c \<noteq> Some k"
    using ws.reachable_conn [OF assms(1)] assms(2) by (auto simp: waits_ok_def fate_ok_def fate_def)
  ultimately show ?thesis unfolding waits_forever_def by blast
qed

text \<open>The run: two callers wait, the client is closed, the first one returns.\<close>

definition two_waiters :: "wsTransport client" where
  "two_waiters = Close (ws_transport (\<lambda>q. [])) (Wait 1 (Wait 0 connected_client))"

definition one_returned :: "wsTransport client" where
  "one_returned = the (wake 0 two_waiters)"

lemma connected_fields [simp]:
  "closeChannel connected_client = Some 0" "close_chans connected_client = (\<lambda>k. [])"
  "waiters connected_client = (\<lambda>n. None)" "cl_transport connected_client = \<lparr>ws = Some 0\<rparr>"
  "contexts connected_client = [False]" "cancelFunc connected_client = Some 0"
  "sendLoops connected_client = [\<lparr>sl_ctx = 0, sl_pos = SendTop\<rparr>]" "connectedHandler connected_client = False"
  by (simp_all add: connected_client_def InitStreaming_def new_connection_def)

lemma two_waiters_fields:
  "waiters two_waiters = [0 \<mapsto> WaitOn 0, 1 \<mapsto> WaitOn 0]" "close_chans two_waiters 0 = [None]"
  by (simp_all add: two_waiters_def Close_def Connected_def ws_transport_def wsConnected_def Wait_def)

lemma run_two_waiters: "reachable (ws_transport ff) two_waiters"
proof -
  let ?T = "ws_transport ff"
  have eq: "two_waiters = Close ?T (Wait 1 (Wait 0 connected_client))"
    by (simp add: two_waiters_def Close_def Connected_def Reset_def ws_transport_def)
  have "step ?T connected_client (Wait 0 connected_client)" by (rule step.wait) simp
  moreover have "step ?T (Wait 0 connected_client) (Wait 1 (Wait 0 connected_client))"
    by (rule step.wait) (simp add: Wait_def)
  ultimately show ?thesis
    unfolding eq using run_connected [of ff] step.close by (blast intro: reach.move)
qed

lemma one_returned_eq: "wake 0 two_waiters = Some one_returned"
  by (simp add: one_returned_def wake_def two_waiters_fields)

text \<open>Two callers that wait for one connection are not both told of its end: the first
  takes the error from the channel, which is not closed, and the second waits for ever.\<close>

lemma second_wait_hangs:
  "\<exists>c. reachable (ws_transport ff) c \<and> got c 0 0 \<and> waits_forever (ws_transport ff) c 1"
proof (intro exI conjI)
  show r: "reachable (ws_transport ff) one_returned"
    using reach.move [OF run_two_waiters step.woken] one_returned_eq by blast
  show g: "got one_returned 0 0"
    by (simp add: one_returned_def wake_def two_waiters_fields got_def)
  have "waiters one_returned 1 = Some (WaitOn 0)"
    by (simp add: one_returned_def wake_def two_waiters_fields)
  then show "waits_forever (ws_transport ff) one_returned 1" using second_waits [OF r g] by blast
qed

text \<open>The run: a client is closed and connected again while the send loop of the first connection is in \<open>select\<close>.\<close>

definition reconnected :: "wsTransport client" where
  "reconnected = snd (Connect (ws_transport (\<lambda>q. [])) (Inr 1)
     (Close (ws_transport (\<lambda>q. [])) (at_send 0 (Selecting (Some 0)) connected_client)))"

text \<open>C23: a send loop outlives its connection, and closes the next one: when the client has
  connected again, the loop of the ended connection, which is told that its context is done, calls \<open>Close\<close> on the
  client, whose new connection nobody asked to end.\<close>

theorem stale_loop_closes:
  "\<exists>c j. reachable (ws_transport ff) c \<and> Connected (ws_transport ff) c \<and> cancelFunc c = Some j \<and> \<not> contexts c ! j \<and>
     sl_ctx (sendLoops c ! 0) \<noteq> j \<and>
     (\<exists>c'. sendLoop (ws_transport ff) CtxDone 0 c = Returns c' \<and> step (ws_transport ff) c c' \<and>
        \<not> Connected (ws_transport ff) c' \<and> contexts c' ! j)"
proof -
  let ?T = "ws_transport ff"
  let ?s = "at_send 0 (Selecting (Some 0)) connected_client"
  have con: "Connected ?T connected_client" by (simp add: Connected_def ws_transport_def wsConnected_def)
  have chan: "sendChannel connected_client = Some 0" by (simp add: connected_client_def InitStreaming_def)
  have "step ?T connected_client ?s"
    by (rule step.send_loop [where i = 0 and br = CtxDone]) (simp_all add: sendLoop_def con chan)
  then have 1: "reachable ?T (Close ?T ?s)"
    using reach.move [OF reach.move [OF run_connected] step.close] by blast
  have rec: "Connect ?T (Inr 1) (Close ?T ?s) = (None, reconnected)"
    by (simp add: reconnected_def Connect_def Close_def Connected_def Reset_def ws_transport_def wsConnected_def wsConnect_def
        wsClose_def put_close_def cancel_context_def at_send_def)
  have 2: "reachable ?T reconnected" by (rule reach.move [OF 1 step.app_connect [OF rec]])
  have f: "contexts reconnected = [True, False]" "cancelFunc reconnected = Some 1"
      "sendLoops reconnected = [\<lparr>sl_ctx = 0, sl_pos = Selecting (Some 0)\<rparr>, \<lparr>sl_ctx = 1, sl_pos = SendTop\<rparr>]"
      "Connected ?T reconnected"
    by (simp_all add: reconnected_def Connect_def Close_def Connected_def Reset_def ws_transport_def wsConnected_def wsConnect_def
        wsClose_def put_close_def cancel_context_def at_send_def new_connection_def)
  let ?c' = "at_send 0 SendEnded (Close ?T reconnected)"
  have run: "sendLoop ?T CtxDone 0 reconnected = Returns ?c'" by (simp add: sendLoop_def f)
  moreover have "step ?T reconnected ?c'" by (rule step.send_loop [OF _ run]) (simp add: f)
  moreover have "\<not> Connected ?T ?c'" "contexts ?c' ! 1"
    using f(4) by (simp_all add: Close_def Connected_def ws.close_down)
      (simp add: Reset_def put_close_def cancel_context_def f at_send_def Let_def split: option.split)
  ultimately show ?thesis using 2 f by (intro exI [of _ reconnected] exI [of _ 1]) auto
qed

end
