(* ===== verification/Streaming_Answers.thy ===== *)
theory Streaming_Answers
  imports Streaming_Laws
begin

text \<open>
  Where the answers of the streaming client come from. What the client has written only grows, its receive loops
  hold messages that reads gave, and, when no two calls use one id, every answer of a call is a timeout or such a
  message, unchanged.
\<close>

section \<open>The client\<close>

text \<open>What a client has written only grows.\<close>

lemma written_frame [simp]:
  "written (new_connection c) = written c" "written (Reset T e c) = written c" "written (Close T c) = written c"
  "written (handleError T err c) = written c" "written (call_messageHandler m c) = written c"
  "written (deliver n m c) = written c" "written (set_phase n ph c) = written c" "written (expire k c) = written c"
  "written (store n r s c) = written c" "written (new_caller n r ph c) = written c" "written (Wait n c) = written c"
  "written (at_send i sp c) = written c" "written (at_recv i rp c) = written c"
  by (simp_all add: new_connection_def Reset_def put_close_def cancel_context_def Close_def handleError_def
      call_messageHandler_def deliver_def set_phase_def expire_eq store_def new_caller_def Wait_def at_send_def at_recv_def
      Let_def split: option.split)

lemma written_ops:
  "Connect T d c = (e, c') \<Longrightarrow> written c' = written c" "put m k c = Some c' \<Longrightarrow> written c' = written c"
  "wake n c = Some c' \<Longrightarrow> written c' = written c" "OnMessage c = Inr c' \<Longrightarrow> written c' = written c"
  "OnConnected c = Inr c' \<Longrightarrow> written c' = written c" "OnCloseClient c = Inr c' \<Longrightarrow> written c' = written c"
  "received m c = Returns c' \<Longrightarrow> written c' = written c"
  by (auto simp: Connect_def put_def wake_def OnMessage_def OnConnected_def OnCloseClient_def received_def handleResult_def
      obind_Returns_iff Let_def split: option.splits waiter.splits list.splits if_splits prod.splits)

lemma written_sent: "Send T d m c = (None, c') \<Longrightarrow> written c' = written c"
  by (auto elim!: SendE dest: written_ops(1))

lemma written_recv: "recvLoop T r i c = Returns c' \<Longrightarrow> written c' = written c"
  by (auto simp: recvLoop_def recv_result_def obind_Returns_iff written_ops
      split: recv_pos.splits option.splits outcome.splits if_splits prod.splits)

lemma written_send: "sendLoop T br i c = Returns c' \<Longrightarrow> \<exists>xs. written c' = written c @ xs"
  by (auto simp: sendLoop_def send_taken_def obind_Returns_iff
      split: send_pos.splits branch.splits option.splits list.splits if_splits)

lemma step_writes: "step T c c' \<Longrightarrow> \<exists>xs. written c' = written c @ xs"
  by (erule step.cases) (auto simp: written_ops written_sent dest: written_recv written_send)

text \<open>The messages a read can give; the answers of the calls are timeouts or such messages, when no two calls use
  one id.\<close>

definition reads_from :: "Message set \<Rightarrow> Message option \<times> bool \<times> goerr option \<Rightarrow> bool" where
  "reads_from M res = (set_option (fst res) \<subseteq> M)"

definition got :: "Message set \<Rightarrow> caller \<Rightarrow> bool" where
  "got M ca = (\<forall>m. m \<in> set (resultChannel ca) \<or> ca_phase ca = Returned m \<longrightarrow> m = timeout_for (ca_req ca) \<or> m \<in> M)"

definition all_got :: "Message set \<Rightarrow> (nat \<Rightarrow> caller option) \<Rightarrow> bool" where
  "all_got M C = (\<forall>n ca. C n = Some ca \<longrightarrow> got M ca)"

lemma all_got_phase: "all_got M (callers c) \<Longrightarrow> (\<And>m. ph \<noteq> Returned m) \<Longrightarrow> all_got M (callers (set_phase n ph c))"
  by (auto simp: all_got_def got_def set_phase_callers split: option.splits if_splits)

lemma all_got_deliver:
  assumes "all_got M (callers c)" "\<And>ca. callers c n = Some ca \<Longrightarrow> m = timeout_for (ca_req ca) \<or> m \<in> M"
  shows "all_got M (callers (deliver n m c))"
  using assms unfolding all_got_def got_def by (auto simp: deliver_callers split: option.splits if_splits)

lemma got_mono:
  "M \<subseteq> N \<Longrightarrow> all_got M C \<Longrightarrow> all_got N C" "M \<subseteq> N \<Longrightarrow> loops_hold (reads_from M) c \<Longrightarrow> loops_hold (reads_from N) c"
  by (fastforce simp: all_got_def got_def) (fastforce simp: loops_hold_def reads_from_def)

lemma received_got:
  assumes "all_got M (callers c)" "alive c" "message_ok m" "m \<in> M" "received m c = Returns c'"
  shows "all_got M (callers c')"
proof (cases "IsResultOrError m")
  case True
  from assms(3) True show ?thesis
  proof (cases rule: handleResult_cases [where c = c])
    case (other i)
    then show ?thesis using assms(1,5) True by (auto simp: received_def)
  next
    case (pending i p m')
    have "i = req_Id (pr_reqmsg p)" using alive_key [OF assms(2) pending(2)] .
    then have "m' = m" using pending(6) by blast
    moreover have "c' = deliver (pr_chan p) m' (c\<lparr>pendingRequests := (pendingRequests c)(i := None)\<rparr>)"
      using pending(5) assms(5) True by (simp add: received_def)
    ultimately show ?thesis using assms(1,4) by (auto intro: all_got_deliver)
  qed
next
  case False
  then show ?thesis using assms(1,5) by (auto simp: received_def)
qed

lemma expire_got:
  assumes "all_got M (callers c)" "client_ok c"
  shows "all_got M (callers (expire k c))"
proof (cases "pendingRequests c k")
  case (Some p)
  have "table_ok (pendingRequests c) (callers c)" using assms(2) by (simp add: client_ok_def)
  from table_entry [OF this Some]
  have "ca_req ca = pr_reqmsg p" if "callers c (pr_chan p) = Some ca" for ca using that by auto
  then show ?thesis using assms(1) by (auto simp: expire_eq Some intro: all_got_deliver)
qed (simp add: expire_eq assms(1))

lemma step_got:
  assumes "step T c c'" "reads_ok c" "client_ok c" "alive c" "loops_hold (reads_from M) c" "all_got M (callers c)"
  shows "all_got M (callers c')"
  using assms(1)
proof (cases rule: step_cases)
  case quiet
  then show ?thesis using assms(6) by (simp add: same_calls_def)
next
  case (call n r ph c1)
  then show ?thesis using assms(6) by (auto simp: all_got_def got_def new_caller_def same_calls_def)
next
  case (move n ca ph c1)
  have "ph \<noteq> Returned m" for m using move(2) by (cases rule: phase_moveE) auto
  then show ?thesis using all_got_phase [of M c1] assms(6) move(3,4) by (simp add: same_calls_def)
next
  case (store n ca sendmsg)
  show ?thesis unfolding store(3) using assms(6) by (intro all_got_phase) simp_all
next
  case (timer n ca sendmsg)
  show ?thesis unfolding timer(3) using assms(6) by (intro all_got_phase) simp_all
next
  case (return n ca m ms)
  have "got M ca" using assms(6) return(1) by (simp add: all_got_def)
  then have "got M (ca\<lparr>ca_phase := Returned m, resultChannel := ms\<rparr>)" by (auto simp: got_def return(3))
  then show ?thesis using assms(6) by (auto simp: return(4) all_got_def)
next
  case (message i m c1)
  have "m \<in> M" using holdD [OF assms(5) message(1,2)] by (simp add: reads_from_def)
  then have "all_got M (callers c1)"
    using received_got [OF assms(6,4) reads_message [OF assms(2) message(1,2)]] message(3) by blast
  then show ?thesis using message(4) by (simp add: same_calls_def)
next
  case (expire ks k ks')
  show ?thesis unfolding expire(2) using assms(3,6) by (intro expire_got) (simp_all add: client_ok_def)
qed

end
