(* ===== verification/Http.thy ===== *)
theory Http
  imports Transport
begin

text \<open>
  What the servers and clients use of \<^verbatim>\<open>net/http\<close>: header tables, requests, responses and the
  response writer. A header table is an association list under canonical keys. The response
  writer keeps the live header table and what was sent: \<open>WriteHeader\<close> sends a copy of the table,
  so that a later change of the table is not sent. The headers \<^verbatim>\<open>net/http\<close> adds by itself
  (\<^verbatim>\<open>Date\<close>, a sniffed \<^verbatim>\<open>Content-Type\<close>, \<^verbatim>\<open>Content-Length\<close>) are not modelled.
\<close>

section \<open>Headers\<close>

type_synonym header = "(string \<times> string list) list"

text \<open>\<open>CanonicalHeaderKey\<close>: a key with a character that is no token character is left alone.\<close>

definition is_token_char :: "char \<Rightarrow> bool" where
  "is_token_char c = (is_digit c \<or> (CHR ''a'' \<le> c \<and> c \<le> CHR ''z'') \<or> (CHR ''A'' \<le> c \<and> c \<le> CHR ''Z'') \<or>
     c \<in> set ''!#$%&*+-.^_`|~'' \<or> c = CHR 0x27)"

definition upper :: "char \<Rightarrow> char" where
  "upper c = (if CHR ''a'' \<le> c \<and> c \<le> CHR ''z'' then char_of (of_char c - 32 :: nat) else c)"

fun canon_from :: "bool \<Rightarrow> string \<Rightarrow> string" where
  "canon_from up [] = []"
| "canon_from up (c # cs) = (if up then upper c else lower c) # canon_from (c = CHR ''-'') cs"

definition CanonicalHeaderKey :: "string \<Rightarrow> string" where
  "CanonicalHeaderKey k = (if list_all is_token_char k then canon_from True k else k)"

definition header_values :: "string \<Rightarrow> header \<Rightarrow> string list" where
  "header_values k h = (case map_of h (CanonicalHeaderKey k) of None \<Rightarrow> [] | Some vs \<Rightarrow> vs)"

definition header_get :: "string \<Rightarrow> header \<Rightarrow> string" where
  "header_get k h = (case header_values k h of [] \<Rightarrow> [] | v # _ \<Rightarrow> v)"

definition header_add :: "string \<Rightarrow> string \<Rightarrow> header \<Rightarrow> header" where
  "header_add k v h = map_put (CanonicalHeaderKey k) (header_values k h @ [v]) h"

definition header_set :: "string \<Rightarrow> string \<Rightarrow> header \<Rightarrow> header" where
  "header_set k v h = map_put (CanonicalHeaderKey k) [v] h"

text \<open>The nested loop over the entries of a table that adds each to another.\<close>

definition header_add_all :: "header \<Rightarrow> header \<Rightarrow> header" where
  "header_add_all src h = fold (\<lambda>(k, vs). fold (\<lambda>v. header_add k v) vs) src h"

lemma header_values_add: "header_values k (header_add k v h) = header_values k h @ [v]"
  by (simp add: header_values_def header_add_def)

lemma header_values_set: "header_values k (header_set k v h) = [v]"
  by (simp add: header_values_def header_set_def)

text \<open>\<open>strings.Cut\<close> at the first occurrence of a character.\<close>

fun cut_at :: "char \<Rightarrow> string \<Rightarrow> (string \<times> string) option" where
  "cut_at c [] = None"
| "cut_at c (x # xs) = (if x = c then Some ([], xs) else map_option (\<lambda>(a, b). (x # a, b)) (cut_at c xs))"

lemma cut_at_Some: "cut_at c s = Some (a, b) \<longleftrightarrow> s = a @ c # b \<and> c \<notin> set a"
proof (induction s arbitrary: a)
  case (Cons x s)
  then show ?case by (cases a) auto
qed simp

lemma cut_at_None: "cut_at c s = None \<longleftrightarrow> c \<notin> set s"
  by (induction s) auto

section \<open>Requests and responses\<close>

record http_request =
  hr_method :: string
  hr_proto :: nat
  hr_header :: header
  hr_body :: "goerr + string"
  hr_context :: go_context

record response =
  rs_status :: int
  rs_header :: header
  rs_body :: "goerr + string"

text \<open>What \<open>Client.Do\<close> gives, the error of building the request included.\<close>

datatype http_result =
    NewRequestError string
  | DoTimeout
  | DoError string
  | Responded response

record ResponseWriter =
  rw_header :: header
  rw_sent :: "(int \<times> header) option"
  rw_body :: string

definition new_writer :: ResponseWriter where
  "new_writer = \<lparr>rw_header = [], rw_sent = None, rw_body = []\<rparr>"

text \<open>A status that is no status panics; an informational one is sent ahead and does not count.\<close>

definition WriteHeader :: "int \<Rightarrow> ResponseWriter \<Rightarrow> ResponseWriter run" where
  "WriteHeader code w =
     (if rw_sent w \<noteq> None then Returns w
      else if code < 100 \<or> 999 < code then Panics (PValue ''invalid WriteHeader code'')
      else if code \<le> 199 \<and> code \<noteq> 101 then Returns w
      else Returns (w\<lparr>rw_sent := Some (code, rw_header w)\<rparr>))"

definition WriteBody :: "string \<Rightarrow> ResponseWriter \<Rightarrow> ResponseWriter run" where
  "WriteBody data w = obind (if rw_sent w = None then WriteHeader 200 w else Returns w)
     (\<lambda>w'. Returns (w'\<lparr>rw_body := rw_body w' @ data\<rparr>))"

definition add_headers :: "header \<Rightarrow> ResponseWriter \<Rightarrow> ResponseWriter" where
  "add_headers h w = w\<lparr>rw_header := header_add_all h (rw_header w)\<rparr>"

definition set_header :: "string \<Rightarrow> string \<Rightarrow> ResponseWriter \<Rightarrow> ResponseWriter" where
  "set_header k v w = w\<lparr>rw_header := header_set k v (rw_header w)\<rparr>"

text \<open>The response on the wire when the handler has returned.\<close>

definition sent_response :: "ResponseWriter \<Rightarrow> response" where
  "sent_response w = (case rw_sent w of
      Some (code, h) \<Rightarrow> \<lparr>rs_status = code, rs_header = h, rs_body = Inr (rw_body w)\<rparr>
    | None \<Rightarrow> \<lparr>rs_status = 200, rs_header = rw_header w, rs_body = Inr (rw_body w)\<rparr>)"

definition ErrorResponse :: "int \<Rightarrow> string \<Rightarrow> ResponseWriter \<Rightarrow> ResponseWriter run" where
  "ErrorResponse status message w = obind (WriteHeader status w) (WriteBody message)"

lemma WriteHeader_fresh:
  "rw_sent w = None \<Longrightarrow> 200 \<le> code \<Longrightarrow> code \<le> 999 \<Longrightarrow>
   WriteHeader code w = Returns (w\<lparr>rw_sent := Some (code, rw_header w)\<rparr>)"
  by (simp add: WriteHeader_def)

lemma WriteBody_sent: "rw_sent w \<noteq> None \<Longrightarrow> WriteBody data w = Returns (w\<lparr>rw_body := rw_body w @ data\<rparr>)"
  by (auto simp: WriteBody_def)

lemmas writer_simps = WriteHeader_fresh WriteBody_sent set_header_def sent_response_def

end
