(* ===== verification/Json_Text.thy ===== *)
theory Json_Text
  imports Parse
begin

text \<open>
  The text of JSON documents: what \<open>json.Marshal\<close> writes for a tree, and the documents a
  \<open>json.Decoder\<close> finds in a text. Texts are byte strings. As in \<open>encoding/json\<close>, the letters
  that HTML gives a meaning are escaped, bytes that are not UTF-8 are replaced by U+FFFD in both
  directions, and documents nest at most 10000 deep.
\<close>

section \<open>UTF-8\<close>

definition byte_val :: "char \<Rightarrow> nat" where
  "byte_val c = of_char c"

definition cont :: "nat \<Rightarrow> nat \<Rightarrow> char \<Rightarrow> bool" where
  "cont lo hi c = (lo \<le> byte_val c \<and> byte_val c \<le> hi)"

text \<open>The length of the well formed sequence of more than one byte at the front, as \<open>utf8.DecodeRune\<close>
  sees it.\<close>

fun rune_size :: "string \<Rightarrow> nat option" where
  "rune_size (a # b # s) =
     (let x = byte_val a; c = (\<lambda>i. i < length s \<and> cont 128 191 (s ! i)) in
      if 194 \<le> x \<and> x \<le> 223 \<and> cont 128 191 b then Some 2
      else if 224 \<le> x \<and> x \<le> 239 \<and> cont (if x = 224 then 160 else 128) (if x = 237 then 159 else 191) b \<and> c 0 then Some 3
      else if 240 \<le> x \<and> x \<le> 244 \<and> cont (if x = 240 then 144 else 128) (if x = 244 then 143 else 191) b \<and> c 0 \<and> c 1
        then Some 4
      else None)"
| "rune_size _ = None"

definition enc_rune :: "nat \<Rightarrow> string" where
  "enc_rune r =
     (if r < 128 then [byte r]
      else if r < 2048 then [byte (192 + r div 64), byte (128 + r mod 64)]
      else if r < 65536 then [byte (224 + r div 4096), byte (128 + r div 64 mod 64), byte (128 + r mod 64)]
      else [byte (240 + r div 262144), byte (128 + r div 4096 mod 64), byte (128 + r div 64 mod 64), byte (128 + r mod 64)])"

definition rune_error :: string where
  "rune_error = enc_rune 65533"

lemma rune_size_range: "rune_size s = Some k \<Longrightarrow> 2 \<le> k \<and> k \<le> 4 \<and> k \<le> length s"
  by (cases s rule: rune_size.cases) (auto simp: Let_def Suc_le_eq split: if_splits)

lemma rune_size_prefix: "rune_size s = Some k \<Longrightarrow> rune_size (take k s @ t) = Some k"
  by (cases s rule: rune_size.cases) (auto simp: Let_def nth_append split: if_splits)

section \<open>Strings\<close>

definition hex_digit :: "nat \<Rightarrow> char" where
  "hex_digit n = ''0123456789abcdef'' ! n"

definition u_escape :: "nat \<Rightarrow> string" where
  "u_escape n = [CHR 0x5C, CHR ''u'', hex_digit (n div 4096), hex_digit (n div 256 mod 16),
     hex_digit (n div 16 mod 16), hex_digit (n mod 16)]"

definition esc_ascii :: "char \<Rightarrow> string" where
  "esc_ascii c =
     (if c = CHR 0x22 \<or> c = CHR 0x5C then [CHR 0x5C, c]
      else if c = CHR 0x0A then [CHR 0x5C, CHR ''n'']
      else if c = CHR 0x0D then [CHR 0x5C, CHR ''r'']
      else if c = CHR 0x09 then [CHR 0x5C, CHR ''t'']
      else if byte_val c < 32 \<or> c \<in> set ''<>&'' then u_escape (byte_val c)
      else [c])"

function esc :: "string \<Rightarrow> string" where
  "esc [] = []"
| "esc (c # cs) =
     (if byte_val c < 128 then esc_ascii c @ esc cs
      else case rune_size (c # cs) of
        None \<Rightarrow> u_escape 65533 @ esc cs
      | Some k \<Rightarrow>
          (let r = take k (c # cs) in
           if r = enc_rune 8232 then u_escape 8232 else if r = enc_rune 8233 then u_escape 8233 else r)
          @ esc (drop (k - 1) cs))"
  by pat_completeness auto
termination by (relation "measure length") auto

text \<open>The body of a string literal up to its closing quote: the string and the rest of the text.\<close>

definition hex4 :: "string \<Rightarrow> (nat \<times> string) option" where
  "hex4 s = (case s of a # b # c # d # r \<Rightarrow>
      (case (hex_val a, hex_val b, hex_val c, hex_val d) of
         (Some w, Some x, Some y, Some z) \<Rightarrow> Some (4096 * w + 256 * x + 16 * y + z, r)
       | _ \<Rightarrow> None)
    | _ \<Rightarrow> None)"

text \<open>A second escape that makes a surrogate pair with \<open>r\<close>.\<close>

definition low_half :: "nat \<Rightarrow> string \<Rightarrow> (nat \<times> string) option" where
  "low_half r s = (case s of a # b # t \<Rightarrow>
      (if a = CHR 0x5C \<and> b = CHR ''u'' then
         (case hex4 t of Some (l, u) \<Rightarrow>
            (if r < 56320 \<and> 56320 \<le> l \<and> l < 57344 then Some ((r - 55296) * 1024 + (l - 56320) + 65536, u) else None)
          | None \<Rightarrow> None)
       else None)
    | _ \<Rightarrow> None)"

definition simple_escape :: "char \<Rightarrow> char option" where
  "simple_escape c = map_of [(CHR 0x22, CHR 0x22), (CHR 0x5C, CHR 0x5C), (CHR ''/'', CHR ''/''),
     (CHR ''b'', CHR 0x08), (CHR ''f'', CHR 0x0C), (CHR ''n'', CHR 0x0A), (CHR ''r'', CHR 0x0D), (CHR ''t'', CHR 0x09)] c"

lemma hex4_length: "hex4 s = Some (n, r) \<Longrightarrow> length r < length s"
  by (auto simp: hex4_def split: list.splits option.splits)

lemma low_half_length: "low_half r s = Some (n, t) \<Longrightarrow> length t < length s"
  by (auto simp: low_half_def split: list.splits if_splits option.splits dest: hex4_length)

text \<open>One character of the body, and the rest.\<close>

definition escaped :: "string \<Rightarrow> (string \<times> string) option" where
  "escaped s = (case s of
      [] \<Rightarrow> None
    | e # t \<Rightarrow>
        (if e = CHR ''u'' then
           (case hex4 t of
              None \<Rightarrow> None
            | Some (r, u) \<Rightarrow>
                (if 55296 \<le> r \<and> r < 57344 then
                   (case low_half r u of Some (q, v) \<Rightarrow> Some (enc_rune q, v) | None \<Rightarrow> Some (rune_error, u))
                 else Some (enc_rune r, u)))
         else map_option (\<lambda>c. ([c], t)) (simple_escape e)))"

definition plain_char :: "string \<Rightarrow> (string \<times> string) option" where
  "plain_char s =
     (if byte_val (hd s) < 32 then None
      else if byte_val (hd s) < 128 then Some ([hd s], tl s)
      else case rune_size s of
        None \<Rightarrow> Some (rune_error, tl s)
      | Some k \<Rightarrow> Some (take k s, drop k s))"

definition next_char :: "char \<Rightarrow> string \<Rightarrow> (string \<times> string) option" where
  "next_char c s = (if c = CHR 0x5C then escaped s else plain_char (c # s))"

lemma escaped_length: "escaped s = Some (c, t) \<Longrightarrow> length t < length s"
  by (auto simp: escaped_def split: list.splits if_splits option.splits prod.splits
      dest!: hex4_length low_half_length)

lemma next_char_length: "next_char c s = Some (x, t) \<Longrightarrow> length t \<le> length s"
  by (auto simp: next_char_def plain_char_def split: if_splits option.splits dest: rune_size_range escaped_length)

function unquote :: "string \<Rightarrow> (string \<times> string) option" where
  "unquote [] = None"
| "unquote (c # s) =
     (if c = CHR 0x22 then Some ([], s)
      else case next_char c s of
        None \<Rightarrow> None
      | Some (x, t) \<Rightarrow> (case unquote t of None \<Rightarrow> None | Some (y, r) \<Rightarrow> Some (x @ y, r)))"
  by pat_completeness auto
termination
  by (relation "measure length") (auto dest: next_char_length)

lemma unquote_length: "unquote s = Some (x, r) \<Longrightarrow> length r < length s"
  by (induction s arbitrary: x rule: unquote.induct)
    (fastforce split: if_splits option.splits prod.splits dest: next_char_length)+

text \<open>Well formed strings, and their way through the escapes.\<close>

function utf8 :: "string \<Rightarrow> bool" where
  "utf8 [] = True"
| "utf8 (c # cs) =
     (if byte_val c < 128 then utf8 cs
      else case rune_size (c # cs) of None \<Rightarrow> False | Some k \<Rightarrow> utf8 (drop (k - 1) cs))"
  by pat_completeness auto
termination by (relation "measure length") auto

lemma code_ascii: "byte_val c < 128 \<Longrightarrow> enc_rune (byte_val c) = [c]"
  by (simp add: enc_rune_def byte_val_def byte_def)

lemma hex_val_digit: "n < 16 \<Longrightarrow> hex_val (hex_digit n) = Some n"
proof -
  have "\<forall>n < 16. hex_val (hex_digit n) = Some n" by code_simp
  then show "n < 16 \<Longrightarrow> hex_val (hex_digit n) = Some n" by blast
qed

lemma base16: "4096 * (n div 4096) + 256 * (n div 256 mod 16) + 16 * (n div 16 mod 16) + n mod 16 = (n :: nat)"
proof -
  have "n div 256 = n div 16 div 16" "n div 4096 = n div 256 div 16" by (simp_all add: div_mult2_eq [symmetric])
  then show ?thesis
    using div_mult_mod_eq [of n 16] div_mult_mod_eq [of "n div 16" 16] div_mult_mod_eq [of "n div 256" 16]
    by linarith
qed

lemma hex4_escape: "n < 65536 \<Longrightarrow> hex4 (drop 2 (u_escape n) @ r) = Some (n, r)"
  by (simp add: u_escape_def hex4_def hex_val_digit base16)

lemma next_u_escape:
  assumes "n < 55296 \<or> 57344 \<le> n" "n < 65536"
  shows "unquote (u_escape n @ r) = (case unquote r of None \<Rightarrow> None | Some (y, t) \<Rightarrow> Some (enc_rune n @ y, t))"
proof -
  have "hex4 (drop 2 (u_escape n) @ r) = Some (n, r)" using assms(2) by (rule hex4_escape)
  then show ?thesis using assms(1) by (auto simp: u_escape_def next_char_def escaped_def)
qed

lemma unquote_esc_ascii:
  assumes "byte_val c < 128"
  shows "unquote (esc_ascii c @ r) = (case unquote r of None \<Rightarrow> None | Some (y, t) \<Rightarrow> Some (c # y, t))"
proof (cases "c \<in> {CHR 0x22, CHR 0x5C, CHR 0x0A, CHR 0x0D, CHR 0x09}")
  case True
  then show ?thesis
    by (elim insertE emptyE) (simp_all add: esc_ascii_def next_char_def escaped_def simple_escape_def split: option.split)
next
  case False
  have "unquote (u_escape (byte_val c) @ r) = (case unquote r of None \<Rightarrow> None | Some (y, t) \<Rightarrow> Some (c # y, t))"
    using next_u_escape [of "byte_val c" r] assms code_ascii [OF assms] by (simp split: option.split)
  moreover have "unquote (c # r) = (case unquote r of None \<Rightarrow> None | Some (y, t) \<Rightarrow> Some (c # y, t))"
    if "\<not> byte_val c < 32"
    using that assms False by (simp add: next_char_def plain_char_def split: option.split)
  ultimately show ?thesis using False by (simp add: esc_ascii_def)
qed

lemma unquote_plain:
  assumes "rune_size (c # cs) = Some k" "\<not> byte_val c < 128"
  shows "unquote (take k (c # cs) @ r) =
    (case unquote r of None \<Rightarrow> None | Some (y, t) \<Rightarrow> Some (take k (c # cs) @ y, t))"
proof -
  define u where "u = take k (c # cs)"
  have u: "length u = k" "u = c # tl u"
    using rune_size_range [OF assms(1)] by (cases k; simp add: u_def)+
  have "rune_size (u @ r) = Some k" unfolding u_def by (rule rune_size_prefix) (rule assms)
  moreover have "hd (u @ r) = c" using u(2) by (metis hd_append2 list.distinct(1) list.sel(1))
  ultimately have "plain_char (u @ r) = Some (u, r)"
    using assms(2) u(1) by (simp add: plain_char_def)
  then have "next_char c (tl u @ r) = Some (u, r)"
    using assms(2) u(2) by (auto simp: next_char_def byte_val_def) (metis append_Cons)
  moreover have "c \<noteq> CHR 0x22" using assms(2) by (auto simp: byte_val_def)
  ultimately have "unquote (c # tl u @ r) = (case unquote r of None \<Rightarrow> None | Some (y, t) \<Rightarrow> Some (u @ y, t))"
    by (simp split: option.split)
  then show ?thesis using u(2) by (metis append_Cons u_def)
qed

lemma unquote_esc: "utf8 s \<Longrightarrow> unquote (esc s @ CHR 0x22 # r) = Some (s, r)"
proof (induction s rule: utf8.induct)
  case (2 c cs)
  show ?case
  proof (cases "byte_val c < 128")
    case True
    then show ?thesis using 2 by (simp add: unquote_esc_ascii)
  next
    case False
    then obtain k where k: "rune_size (c # cs) = Some k" "utf8 (drop (k - 1) cs)"
      using 2(3) by (auto split: option.splits)
    then have IH: "unquote (esc (drop (k - 1) cs) @ CHR 0x22 # r) = Some (drop (k - 1) cs, r)"
      using 2(2) False by simp
    have "take k (c # cs) @ drop (k - 1) cs = c # cs"
      using rune_size_range [OF k(1)] by (cases k) simp_all
    moreover have "unquote ((let r = take k (c # cs) in
         if r = enc_rune 8232 then u_escape 8232 else if r = enc_rune 8233 then u_escape 8233 else r)
         @ esc (drop (k - 1) cs) @ CHR 0x22 # r) = Some (take k (c # cs) @ drop (k - 1) cs, r)"
      using next_u_escape [of 8232] next_u_escape [of 8233] unquote_plain [OF k(1) False] IH
      by (simp add: Let_def)
    ultimately show ?thesis using False k(1) by simp
  qed
qed simp

section \<open>Numbers\<close>

definition scan_int :: "string \<Rightarrow> (string \<times> string) option" where
  "scan_int s = (case s of
      [] \<Rightarrow> None
    | c # r \<Rightarrow> (if c = CHR ''0'' then Some ([c], r)
        else if is_digit c then Some (c # takeWhile is_digit r, dropWhile is_digit r) else None))"

definition scan_frac :: "string \<Rightarrow> (string \<times> string) option" where
  "scan_frac s = (case s of
      [] \<Rightarrow> Some ([], [])
    | c # r \<Rightarrow> (if c \<noteq> CHR ''.'' then Some ([], s)
        else if takeWhile is_digit r = [] then None else Some (c # takeWhile is_digit r, dropWhile is_digit r)))"

definition scan_exp :: "string \<Rightarrow> (string \<times> string) option" where
  "scan_exp s = (case s of
      [] \<Rightarrow> Some ([], [])
    | c # r \<Rightarrow> (if c \<noteq> CHR ''e'' \<and> c \<noteq> CHR ''E'' then Some ([], s)
        else let sg = (if r \<noteq> [] \<and> hd r \<in> set ''+-'' then [hd r] else []); t = drop (length sg) r in
          (if takeWhile is_digit t = [] then None else Some (c # sg @ takeWhile is_digit t, dropWhile is_digit t))))"

text \<open>The number at the front of a text and the rest.\<close>

definition scan_number :: "string \<Rightarrow> (string \<times> string) option" where
  "scan_number s = (let sg = (if s \<noteq> [] \<and> hd s = CHR ''-'' then [hd s] else []) in
     case scan_int (drop (length sg) s) of
       None \<Rightarrow> None
     | Some (i, t) \<Rightarrow> (case scan_frac t of
         None \<Rightarrow> None
       | Some (f, u) \<Rightarrow> (case scan_exp u of
           None \<Rightarrow> None
         | Some (e, v) \<Rightarrow> Some (sg @ i @ f @ e, v))))"

definition follows :: "string \<Rightarrow> bool" where
  "follows r = (r = [] \<or> \<not> is_digit (hd r) \<and> hd r \<notin> set ''.eE'')"

lemma digits_before:
  "follows r \<Longrightarrow> takeWhile is_digit (x @ r) = takeWhile is_digit x \<and> dropWhile is_digit (x @ r) = dropWhile is_digit x @ r"
  by (induction x) (cases r; auto simp: follows_def)+

lemma scan_exp_valid:
  assumes "skip_exp x = Some []" "follows r"
  shows "scan_exp (x @ r) = Some (x, r)"
proof (cases x)
  case Nil
  then show ?thesis using assms(2) by (cases r) (auto simp: scan_exp_def follows_def)
next
  case (Cons c y)
  then obtain d t where y: "y = d # t" "c = CHR ''e'' \<or> c = CHR ''E''"
      "if d = CHR ''+'' \<or> d = CHR ''-'' then t \<noteq> [] \<and> dropWhile is_digit t = [] else dropWhile is_digit (d # t) = []"
    using assms(1) by (auto simp: skip_exp_def split: list.splits if_splits)
  then show ?thesis
    using digits_before [OF assms(2), of t] digits_before [OF assms(2), of y] Cons
    by (auto simp: scan_exp_def Let_def dropWhile_eq_Nil_conv split: if_splits)
qed

lemma scan_frac_valid:
  assumes "skip_exp (skip_frac x) = Some []" "follows r"
  shows "\<exists>f. scan_frac (x @ r) = Some (f, skip_frac x @ r) \<and> x = f @ skip_frac x"
proof (cases "\<exists>d t. x = CHR ''.'' # d # t \<and> is_digit d")
  case True
  then obtain d t where "x = CHR ''.'' # d # t" "is_digit d" by blast
  then show ?thesis
    using digits_before [OF assms(2), of "d # t"] by (auto simp: scan_frac_def skip_frac_def)
next
  case False
  then have x: "skip_frac x = x" by (auto simp: skip_frac_def split: list.split)
  with assms(1) have "x = [] \<or> hd x \<in> set ''eE''"
    by (auto simp: skip_exp_def split: list.splits if_splits)
  then show ?thesis
    using x assms(2) by (cases x; cases r) (auto simp: scan_frac_def follows_def)
qed

lemma scan_number_valid:
  assumes "valid_number n" "follows r"
  shows "scan_number (n @ r) = Some (n, r)"
proof -
  obtain sg c t where n: "n = sg @ c # t" "sg = [] \<or> sg = ''-''" "is_digit c"
      "skip_exp (skip_frac (if c = CHR ''0'' then t else dropWhile is_digit t)) = Some []"
  proof (cases n)
    case (Cons a s)
    then show ?thesis
      using assms(1) that [of "''-''"] that [of "[]"] by (auto simp: valid_number_def split: if_splits list.splits)
  qed (use assms(1) in \<open>simp add: valid_number_def\<close>)
  let ?u = "if c = CHR ''0'' then t else dropWhile is_digit t"
  have i: "scan_int (c # t @ r) = Some (if c = CHR ''0'' then [c] else c # takeWhile is_digit t, ?u @ r)"
    using n(3) digits_before [OF assms(2), of t] by (simp add: scan_int_def)
  obtain f where f: "scan_frac (?u @ r) = Some (f, skip_frac ?u @ r)" "?u = f @ skip_frac ?u"
    using scan_frac_valid [OF n(4) assms(2)] by blast
  have e: "scan_exp (skip_frac ?u @ r) = Some (skip_frac ?u, r)"
    by (rule scan_exp_valid) (rule n assms)+
  have "c \<noteq> CHR ''-''" using n(3) by (auto simp: is_digit_def)
  moreover have "(if c = CHR ''0'' then [c] else c # takeWhile is_digit t) @ ?u = c # t" by simp
  ultimately show ?thesis
    using n(1,2) i f e by (auto simp: scan_number_def Let_def)
qed

section \<open>Documents\<close>

definition skip_ws :: "string \<Rightarrow> string" where
  "skip_ws s = dropWhile (\<lambda>c. c \<in> set [CHR '' '', CHR 0x09, CHR 0x0A, CHR 0x0D]) s"

text \<open>The rest of the text after a given character.\<close>

definition expect :: "char \<Rightarrow> string \<Rightarrow> string option" where
  "expect c s = (case skip_ws s of [] \<Rightarrow> None | c' # r \<Rightarrow> if c' = c then Some r else None)"

definition literal :: "string \<Rightarrow> json \<Rightarrow> string \<Rightarrow> (json \<times> string) option" where
  "literal w j s = (if take (length w) s = w then Some (j, drop (length w) s) else None)"

definition parse_scalar :: "string \<Rightarrow> (json \<times> string) option" where
  "parse_scalar s =
     (if hd s = CHR 0x22 then map_option (\<lambda>(x, r). (JStr x, r)) (unquote (tl s))
      else if hd s = CHR ''t'' then literal ''true'' (JBool True) s
      else if hd s = CHR ''f'' then literal ''false'' (JBool False) s
      else if hd s = CHR ''n'' then literal ''null'' JNull s
      else map_option (\<lambda>(x, r). (JNum x, r)) (scan_number s))"

text \<open>\<open>d\<close> is the depth still allowed, and \<open>n\<close> fuel, of which twice the length of the text and one more is
  enough (\<open>parse_fuel\<close>). \<open>parse_elems\<close> and \<open>parse_members\<close> read to the closing bracket.\<close>

fun parse_value :: "nat \<Rightarrow> nat \<Rightarrow> string \<Rightarrow> (json \<times> string) option"
and parse_elems :: "nat \<Rightarrow> nat \<Rightarrow> string \<Rightarrow> (json list \<times> string) option"
and parse_members :: "nat \<Rightarrow> nat \<Rightarrow> string \<Rightarrow> ((string \<times> json) list \<times> string) option" where
  "parse_value 0 d s = None"
| "parse_value (Suc n) d s = (case skip_ws s of
     [] \<Rightarrow> None
   | c # r \<Rightarrow>
       (if c = CHR ''['' then
          (if d = 0 then None
           else case expect (CHR '']'') r of
             Some t \<Rightarrow> Some (JArr [], t)
           | None \<Rightarrow> map_option (\<lambda>(js, t). (JArr js, t)) (parse_elems n (d - 1) r))
        else if c = CHR ''{'' then
          (if d = 0 then None
           else case expect (CHR ''}'') r of
             Some t \<Rightarrow> Some (JObj [], t)
           | None \<Rightarrow> map_option (\<lambda>(kvs, t). (JObj kvs, t)) (parse_members n (d - 1) r))
        else parse_scalar (c # r)))"
| "parse_elems 0 d s = None"
| "parse_elems (Suc n) d s = (case parse_value n d s of
     None \<Rightarrow> None
   | Some (j, t) \<Rightarrow> (case expect (CHR '','') t of
       Some u \<Rightarrow> map_option (\<lambda>(js, r). (j # js, r)) (parse_elems n d u)
     | None \<Rightarrow> map_option (\<lambda>r. ([j], r)) (expect (CHR '']'') t)))"
| "parse_members 0 d s = None"
| "parse_members (Suc n) d s = (case expect (CHR 0x22) s of
     None \<Rightarrow> None
   | Some q \<Rightarrow> (case unquote q of
       None \<Rightarrow> None
     | Some (k, q') \<Rightarrow> (case expect (CHR '':'') q' of
         None \<Rightarrow> None
       | Some v \<Rightarrow> (case parse_value n d v of
           None \<Rightarrow> None
         | Some (j, t) \<Rightarrow> (case expect (CHR '','') t of
             Some u \<Rightarrow> map_option (\<lambda>(kvs, r). ((k, j) # kvs, r)) (parse_members n d u)
           | None \<Rightarrow> map_option (\<lambda>r. ([(k, j)], r)) (expect (CHR ''}'') t))))))"

text \<open>Every parser consumes a part of the text.\<close>

lemma skip_ws_length: "length (skip_ws s) \<le> length s"
  by (simp add: skip_ws_def length_dropWhile_le)

lemma expect_length: "expect c s = Some r \<Longrightarrow> length r < length s"
  using skip_ws_length [of s] by (auto simp: expect_def split: list.splits if_splits)

lemma scan_int_length: "scan_int s = Some (x, r) \<Longrightarrow> length r < length s"
  by (auto simp: scan_int_def less_Suc_eq_le length_dropWhile_le split: list.splits if_splits)

lemma scan_frac_length: "scan_frac s = Some (x, r) \<Longrightarrow> length r \<le> length s"
  by (auto simp: scan_frac_def le_SucI length_dropWhile_le split: list.splits if_splits)

lemma scan_exp_length: "scan_exp s = Some (x, r) \<Longrightarrow> length r \<le> length s"
  by (auto simp: scan_exp_def Let_def split: list.splits if_splits intro: order_trans [OF length_dropWhile_le])

lemma scan_number_length: "scan_number s = Some (x, r) \<Longrightarrow> length r < length s"
  by (auto simp: scan_number_def Let_def split: option.splits if_splits
      dest!: scan_int_length scan_frac_length scan_exp_length) arith

lemma parse_scalar_length: "s \<noteq> [] \<Longrightarrow> parse_scalar s = Some (j, r) \<Longrightarrow> length r < length s"
  by (auto simp: parse_scalar_def literal_def neq_Nil_conv split: if_splits
      dest!: unquote_length dest: scan_number_length)

lemma parse_length:
  "parse_value n d s = Some (j, r) \<Longrightarrow> length r < length s"
  "parse_elems n d s = Some (js, r) \<Longrightarrow> length r < length s"
  "parse_members n d s = Some (kvs, r) \<Longrightarrow> length r < length s"
proof (induction n d s and n d s and n d s arbitrary: j r and js r and kvs r
    rule: parse_value_parse_elems_parse_members.induct)
  case (2 n d s)
  show ?case
  proof (cases "skip_ws s")
    case (Cons c t)
    then have "length t < length s" using skip_ws_length [of s] by simp
    moreover have "length r \<le> length t"
      using 2 Cons parse_scalar_length [of "c # t" j r]
      by (auto split: if_splits option.splits dest!: expect_length) (blast intro: less_imp_le)+
    ultimately show ?thesis by simp
  qed (use 2 in simp)
next
  case (4 n d s)
  then show ?case by (fastforce split: option.splits prod.splits dest: expect_length)
next
  case (6 n d s)
  then show ?case by (fastforce split: option.splits prod.splits dest: expect_length unquote_length)
qed simp_all

text \<open>More fuel than enough changes nothing.\<close>

lemma parse_fuel:
  "2 * length s < n \<Longrightarrow> 2 * length s < m \<Longrightarrow> parse_value n d s = parse_value m d s"
  "2 * length s + 1 < n \<Longrightarrow> 2 * length s + 1 < m \<Longrightarrow> parse_elems n d s = parse_elems m d s"
  "2 * length s + 1 < n \<Longrightarrow> 2 * length s + 1 < m \<Longrightarrow> parse_members n d s = parse_members m d s"
proof (induction n arbitrary: m d s)
  case (Suc n)
  {
    case 1
    then obtain k where k: "m = Suc k" by (cases m) auto
    show ?case
    proof (cases "skip_ws s")
      case (Cons c t)
      then have "length t < length s" using skip_ws_length [of s] by simp
      then have "parse_elems n e t = parse_elems k e t" "parse_members n e t = parse_members k e t" for e
        using 1 k by (auto intro: Suc.IH)
      then show ?thesis using k Cons by (simp split: option.split)
    qed (use k in simp)
  next
    case 2
    then obtain k where k: "m = Suc k" by (cases m) auto
    have "parse_value n d s = parse_value k d s" using 2 k by (intro Suc.IH) auto
    moreover have "parse_elems n d u = parse_elems k d u"
      if "parse_value k d s = Some (j, t)" "expect c t = Some u" for j t u c
      using 2 k parse_length(1) [OF that(1)] expect_length [OF that(2)] by (intro Suc.IH) auto
    ultimately show ?case using k by (auto split: option.split prod.split)
  next
    case 3
    then obtain k where k: "m = Suc k" by (cases m) auto
    have v: "parse_value n d v = parse_value k d v"
      if "expect c s = Some q" "unquote q = Some (x, q')" "expect c' q' = Some v" for c q x q' c' v
      using 3 k expect_length [OF that(1)] unquote_length [OF that(2)] expect_length [OF that(3)]
      by (intro Suc.IH) auto
    have "parse_members n d u = parse_members k d u"
      if "expect c s = Some q" "unquote q = Some (x, q')" "expect c' q' = Some v"
        "parse_value k d v = Some (j, t)" "expect c'' t = Some u" for c q x q' c' v j t u c''
      using 3 k expect_length [OF that(1)] unquote_length [OF that(2)] expect_length [OF that(3)]
        parse_length(1) [OF that(4)] expect_length [OF that(5)]
      by (intro Suc.IH) auto
    with v show ?case using k by (auto split: option.split prod.split)
  }
qed simp_all

section \<open>The stream of documents\<close>

definition max_depth :: nat where
  "max_depth = 10000"

text \<open>What the successive \<open>Decode\<close> calls on a text find.\<close>

function json_scan :: "string \<Rightarrow> decoder" where
  "json_scan s =
     (if skip_ws s = [] then []
      else case parse_value (2 * length s + 1) max_depth s of
        None \<Rightarrow> [Inl ''invalid character'']
      | Some (j, r) \<Rightarrow> Inr j # json_scan r)"
  by pat_completeness auto
termination by (relation "measure length") (auto simp del: parse_value.simps dest: parse_length)

declare json_scan.simps [simp del]

section \<open>Printing\<close>

definition quoted :: "string \<Rightarrow> string" where
  "quoted s = CHR 0x22 # esc s @ [CHR 0x22]"

fun json_print :: "json \<Rightarrow> string"
and print_elems :: "json list \<Rightarrow> string"
and print_members :: "(string \<times> json) list \<Rightarrow> string" where
  "json_print JNull = ''null''"
| "json_print (JBool b) = (if b then ''true'' else ''false'')"
| "json_print (JNum n) = n"
| "json_print (JStr s) = quoted s"
| "json_print (JArr js) = ''['' @ print_elems js @ '']''"
| "json_print (JObj kvs) = ''{'' @ print_members kvs @ ''}''"
| "print_elems [] = []"
| "print_elems (j # js) = json_print j @ (if js = [] then [] else '','' @ print_elems js)"
| "print_members [] = []"
| "print_members ((k, j) # kvs) = quoted k @ '':'' @ json_print j @ (if kvs = [] then [] else '','' @ print_members kvs)"

text \<open>The documents that survive the trip: strings are UTF-8, numbers are JSON numbers, and the depth is
  at most \<open>d\<close>.\<close>

fun text_ok :: "nat \<Rightarrow> json \<Rightarrow> bool"
and texts_ok :: "nat \<Rightarrow> json list \<Rightarrow> bool"
and members_ok :: "nat \<Rightarrow> (string \<times> json) list \<Rightarrow> bool" where
  "text_ok d JNull = True"
| "text_ok d (JBool b) = True"
| "text_ok d (JNum n) = valid_number n"
| "text_ok d (JStr s) = utf8 s"
| "text_ok d (JArr js) = (0 < d \<and> texts_ok (d - 1) js)"
| "text_ok d (JObj kvs) = (0 < d \<and> members_ok (d - 1) kvs)"
| "texts_ok d [] = True"
| "texts_ok d (j # js) = (text_ok d j \<and> texts_ok d js)"
| "members_ok d [] = True"
| "members_ok d ((k, j) # kvs) = (utf8 k \<and> text_ok d j \<and> members_ok d kvs)"

lemma skip_ws_id [simp]: "c \<notin> set [CHR '' '', CHR 0x09, CHR 0x0A, CHR 0x0D] \<Longrightarrow> skip_ws (c # s) = c # s"
  by (simp add: skip_ws_def)

lemma expect_id [simp]: "c \<notin> set [CHR '' '', CHR 0x09, CHR 0x0A, CHR 0x0D] \<Longrightarrow>
    expect c' (c # s) = (if c = c' then Some s else None)"
  by (simp add: expect_def)

definition number_start :: "char \<Rightarrow> bool" where
  "number_start c = (is_digit c \<or> c = CHR ''-'')"

lemma valid_number_start: "valid_number n \<Longrightarrow> \<exists>c s. n = c # s \<and> number_start c"
  by (cases n) (auto simp: valid_number_def number_start_def split: if_splits list.splits)

lemma number_start_plain: "number_start c \<Longrightarrow> c \<notin> set [CHR '' '', CHR 0x09, CHR 0x0A, CHR 0x0D, CHR ''['', CHR ''{'', CHR 0x22,
    CHR ''t'', CHR ''f'', CHR ''n'', CHR '']'', CHR ''}'', CHR '','', CHR '':'']"
  by (auto simp: number_start_def is_digit_def)

lemma parse_number:
  assumes "valid_number x" "follows r"
  shows "parse_value (Suc n) d (x @ r) = Some (JNum x, r)"
proof -
  obtain c s where x: "x = c # s" "number_start c" using valid_number_start [OF assms(1)] by blast
  then show ?thesis
    using scan_number_valid [OF assms] number_start_plain [OF x(2)] by (simp add: parse_scalar_def)
qed

lemma print_first: "text_ok d j \<Longrightarrow> \<exists>c s. json_print j = c # s \<and>
    c \<notin> set [CHR '' '', CHR 0x09, CHR 0x0A, CHR 0x0D, CHR '']'', CHR ''}'']"
  using valid_number_start number_start_plain by (cases j) (fastforce simp: quoted_def)+

lemma follows_simps [simp]: "follows []"
  "c \<in> set [CHR '','', CHR '']'', CHR ''}'', CHR 0x0A] \<Longrightarrow> follows (c # s)"
  by (auto simp: follows_def is_digit_def)

lemma parse_print:
  "text_ok d j \<Longrightarrow> 2 * length (json_print j) < n \<Longrightarrow> follows r \<Longrightarrow>
     parse_value n d (json_print j @ r) = Some (j, r)"
  "texts_ok d js \<Longrightarrow> js \<noteq> [] \<Longrightarrow> 2 * length (print_elems js) + 1 < n \<Longrightarrow>
     parse_elems n d (print_elems js @ CHR '']'' # r) = Some (js, r)"
  "members_ok d kvs \<Longrightarrow> kvs \<noteq> [] \<Longrightarrow> 2 * length (print_members kvs) + 1 < n \<Longrightarrow>
     parse_members n d (print_members kvs @ CHR ''}'' # r) = Some (kvs, r)"
proof (induction d j and d js and d kvs arbitrary: n r and n r and n r rule: text_ok_texts_ok_members_ok.induct)
  case (1 d)
  then obtain m where "n = Suc m" by (cases n) auto
  then show ?case by (simp add: parse_scalar_def literal_def)
next
  case (2 d b)
  then obtain m where "n = Suc m" by (cases n) auto
  then show ?case by (simp add: parse_scalar_def literal_def)
next
  case (3 d x)
  then obtain m where "n = Suc m" by (cases n) auto
  then show ?case using 3 parse_number by (simp del: parse_value.simps)
next
  case (4 d s)
  then obtain m where "n = Suc m" by (cases n) auto
  then show ?case using 4 by (simp add: quoted_def parse_scalar_def unquote_esc)
next
  case (5 d js)
  then obtain m where m: "n = Suc m" by (cases n) auto
  show ?case
  proof (cases js)
    case (Cons j js')
    then obtain c s where "print_elems js = c # s" "c \<notin> set [CHR '' '', CHR 0x09, CHR 0x0A, CHR 0x0D, CHR '']'', CHR ''}'']"
      using 5 print_first [of "d - 1" j] by auto
    then show ?thesis using 5 m Cons by simp
  qed (use 5 m in simp)
next
  case (6 d kvs)
  then obtain m where m: "n = Suc m" by (cases n) auto
  show ?case
  proof (cases kvs)
    case (Cons kj kvs')
    then obtain s where "print_members kvs = CHR 0x22 # s" by (cases kj) (simp add: quoted_def)
    then show ?thesis using 6 m Cons by simp
  qed (use 6 m in simp)
next
  case (8 d j js)
  then obtain m where m: "n = Suc m" by (cases n) auto
  show ?case using 8 m by (cases js) (simp_all del: parse_value.simps)
next
  case (10 d k j kvs)
  then obtain m where m: "n = Suc m" by (cases n) auto
  show ?case using 10 m by (cases kvs) (simp_all add: quoted_def unquote_esc del: parse_value.simps)
qed simp_all

section \<open>What is written is read\<close>

lemma json_scan_print:
  assumes "text_ok max_depth j" "follows r"
  shows "json_scan (json_print j @ r) = Inr j # json_scan r"
proof -
  have "skip_ws (json_print j @ r) \<noteq> []"
    using print_first [OF assms(1)] by auto
  moreover have "parse_value (2 * length (json_print j @ r) + 1) max_depth (json_print j @ r) = Some (j, r)"
    using assms by (intro parse_print) simp_all
  ultimately show ?thesis by (subst json_scan.simps) (simp del: parse_value.simps)
qed

lemma json_scan_one: "text_ok max_depth j \<Longrightarrow> json_scan (json_print j) = [Inr j]"
  using json_scan_print [of j "[]"] by (simp add: json_scan.simps [of "[]"] skip_ws_def)

text \<open>Documents written one to a line, as the HTTP/2 connections do.\<close>

definition newline :: string where
  "newline = [CHR 0x0A]"

lemma json_scan_newline: "json_scan (newline @ t) = json_scan t"
proof -
  have ws: "skip_ws (newline @ t) = skip_ws t" by (simp add: newline_def skip_ws_def)
  have "parse_value (2 * length (newline @ t) + 1) max_depth (newline @ t) =
      parse_value (2 * length (newline @ t) + 1) max_depth t"
    using ws by simp
  also have "\<dots> = parse_value (2 * length t + 1) max_depth t" by (rule parse_fuel) simp_all
  finally show ?thesis
    by (subst (1 2) json_scan.simps) (simp only: ws)
qed

lemma json_scan_stream:
  "list_all (text_ok max_depth) js \<Longrightarrow> json_scan (concat (map (\<lambda>j. json_print j @ newline) js)) = map Inr js"
proof (induction js)
  case Nil
  then show ?case by (simp add: json_scan.simps skip_ws_def)
next
  case (Cons j js)
  have "follows (newline @ t)" for t by (simp add: newline_def)
  then show ?case
    using Cons by (simp add: json_scan_print json_scan_newline)
qed

end
