(* ===== verification/Wire.thy ===== *)
theory Wire
  imports Json_Text Wired
begin

text \<open>
  Messages as texts: \<open>MessageBytes\<close> with the printer of \<open>Json_Text\<close>, \<open>ParseBytes\<close> with its scanner, and the
  stream of lines of an HTTP/2 connection.
\<close>

definition MessageText :: "(rat \<Rightarrow> string) \<Rightarrow> Message \<Rightarrow> marshal_err + string" where
  "MessageText ff m = sbind (MessageBytes ff m) (\<lambda>j. Inr (json_print j))"

text \<open>A message that can be sent: its content has a JSON form, whose strings are UTF-8 and which is not
  nested too deep.\<close>

definition sendable :: "(rat \<Rightarrow> string) \<Rightarrow> Message \<Rightarrow> bool" where
  "sendable ff m = (wire_message m \<and> (case MessageBytes ff m of Inl e \<Rightarrow> False | Inr j \<Rightarrow> text_ok max_depth j))"

lemma sendable_json:
  assumes "sendable ff m"
  shows "\<exists>j. MessageBytes ff m = Inr j \<and> text_ok max_depth j \<and> message_of_json j = Returns (Inr m)"
proof -
  have "wire_message m" using assms by (simp add: sendable_def)
  then obtain j where "MessageBytes ff m = Inr j" "message_of_json j = Returns (Inr m)"
    using roundtrips [of _ ff] by (cases m) blast+
  then show ?thesis using assms by (simp add: sendable_def)
qed

lemma sendable_text:
  assumes "sendable ff m"
  shows "\<exists>t. MessageText ff m = Inr t \<and> ParseBytes json_scan t = Returns (Inr m)"
  using sendable_json [OF assms] by (auto simp: MessageText_def ParseBytes_def json_scan_one message_of_json_def)

lemma sendable_parse:
  assumes "sendable ff m"
  shows "\<exists>j. MessageBytes ff m = Inr j \<and> ParseBytes json_scan (json_print j) = Returns (Inr m)"
  using sendable_json [OF assms] by (auto simp: ParseBytes_def json_scan_one message_of_json_def)

text \<open>A message of values of any Go type that JSON can express, and that can be sent in the form its reader gets.\<close>

definition travels :: "(rat \<Rightarrow> string) \<Rightarrow> Message \<Rightarrow> bool" where
  "travels ff m = (expressible ff (msg_value m) \<and> sendable ff (wired_message ff m))"

lemma travels_json:
  assumes "travels ff m"
  shows "\<exists>j. MessageBytes ff m = Inr j \<and> text_ok max_depth j \<and> message_of_json j = Returns (Inr (wired_message ff m))"
  using sendable_json [of ff "wired_message ff m"] wired_bytes [of ff m] assms by (simp add: travels_def)

lemma travels_text:
  assumes "travels ff m"
  shows "\<exists>t. MessageText ff m = Inr t \<and> ParseBytes json_scan t = Returns (Inr (wired_message ff m))"
  using travels_json [OF assms] by (auto simp: MessageText_def ParseBytes_def json_scan_one message_of_json_def)

lemma travels_parse:
  assumes "travels ff m"
  shows "\<exists>j. MessageBytes ff m = Inr j \<and> ParseBytes json_scan (json_print j) = Returns (Inr (wired_message ff m))"
  using travels_json [OF assms] by (auto simp: ParseBytes_def json_scan_one message_of_json_def)

lemma sendable_wired [simp]: "sendable ff m \<Longrightarrow> wired_message ff m = m"
  using wired_same [of m ff] by (simp add: sendable_def)

lemma sendable_travels [simp]: "sendable ff m \<Longrightarrow> travels ff m"
  using wired_same [of m ff] by (simp add: sendable_def travels_def)

text \<open>C2: a message of values of any Go type that JSON can express is written as a text without error, and that
  text is read back as \<open>wired_message\<close> of it: its kind, method, trace id and the list or object form of its params
  are the same, its numbers are \<open>json.Number\<close>s; a message of JSON values only, such as one that was read before,
  is read back as exactly itself.\<close>

theorem text_roundtrip:
  "travels ff m \<Longrightarrow> \<exists>t. MessageText ff m = Inr t \<and> ParseBytes json_scan t = Returns (Inr (wired_message ff m)) \<and>
    (sendable ff m \<longrightarrow> wired_message ff m = m)"
  using travels_text by auto

theorem text_roundtrip_witness:
  "\<exists>t. MessageText (\<lambda>q. ''0'') (MRequest \<lparr>kind = 0, traceId = ''t1'', req_Id = VInt64 99, req_Method = ''abc::def'',
        req_Params = [VMap [(''n'', VInt 5)], VStrs [''<hello>'']], req_paramsAreList = True\<rparr>) = Inr t \<and>
     ParseBytes json_scan t = Returns (Inr (MRequest \<lparr>kind = 0, traceId = ''t1'', req_Id = VInt 99,
        req_Method = ''abc::def'', req_Params = [VMap [(''n'', VNumber ''5'')], VList [VString ''<hello>'']],
        req_paramsAreList = True\<rparr>))"
proof -
  let ?m = "MRequest \<lparr>kind = 0, traceId = ''t1'', req_Id = VInt64 99, req_Method = ''abc::def'',
        req_Params = [VMap [(''n'', VInt 5)], VStrs [''<hello>'']], req_paramsAreList = True\<rparr>"
  let ?w = "MRequest \<lparr>kind = 0, traceId = ''t1'', req_Id = VInt 99, req_Method = ''abc::def'',
        req_Params = [VMap [(''n'', VNumber ''5'')], VList [VString ''<hello>'']], req_paramsAreList = True\<rparr>"
  have n: "show_int 99 = ''99''" "show_int 5 = ''5''" "valid_number ''99''" "valid_number ''5''" by code_simp+
  have c: "expressible (\<lambda>q. ''0'') (msg_value ?m)" and w: "wired_message (\<lambda>q. ''0'') ?m = ?w"
    by (simp_all add: msg_value_def wired_message_def wire_params_def params_read_def is_VList_def wired_id_def n)
  have "sendable (\<lambda>q. ''0'') ?w" using n
    by (simp add: sendable_def wire_message_def kind_ok_def msg_kind_def kinds wire_id_def in_int64_def int64_min_def
        int64_max_def wire_params_ok_def is_VList_def MessageBytes_def Interface_def marshal_template_def
        wire_params_def omit_empty_def max_depth_def byte_val_def)
  then have "travels (\<lambda>q. ''0'') ?m" using c by (simp only: travels_def w)
  from text_roundtrip [OF this] show ?thesis by (simp only: w) blast
qed

section \<open>A stream\<close>

text \<open>What \<open>WriteMessage\<close> of the HTTP/2 transport and the send loop of its server write for a message.\<close>

definition h2_frame :: "(rat \<Rightarrow> string) \<Rightarrow> Message \<Rightarrow> marshal_err + string" where
  "h2_frame ff m = sbind (MessageText ff m) (\<lambda>t. Inr (t @ newline))"

text \<open>The bytes of the messages up to the first that fails.\<close>

fun h2_written :: "(rat \<Rightarrow> string) \<Rightarrow> Message list \<Rightarrow> string" where
  "h2_written ff [] = []"
| "h2_written ff (m # ms) = (case h2_frame ff m of Inl e \<Rightarrow> [] | Inr t \<Rightarrow> t @ h2_written ff ms)"

text \<open>The messages that successive \<open>DecodeMessage\<close> calls read, up to the first failure, and how reading
  ended.\<close>

fun h2_read_all :: "decoder \<Rightarrow> Message list \<times> decode_err panicky" where
  "h2_read_all [] = ([], Returns ErrEOF)"
| "h2_read_all (d # ds) = (case fst (DecodeMessage (d # ds)) of
     Panics p \<Rightarrow> ([], Panics p)
   | Returns (Inl e) \<Rightarrow> ([], Returns e)
   | Returns (Inr m) \<Rightarrow> (case h2_read_all ds of (ms, r) \<Rightarrow> (m # ms, r)))"

lemma stream_read:
  "list_all (travels ff) ms \<Longrightarrow> h2_read_all (json_scan (h2_written ff ms)) = (map (wired_message ff) ms, Returns ErrEOF)"
proof (induction ms)
  case Nil
  then show ?case by (simp add: json_scan.simps skip_ws_def)
next
  case (Cons m ms)
  then obtain j where j: "MessageBytes ff m = Inr j" "text_ok max_depth j"
      "message_of_json j = Returns (Inr (wired_message ff m))"
    using travels_json by auto
  have "follows (newline @ t)" for t by (simp add: newline_def)
  then have "json_scan (h2_written ff (m # ms)) = Inr j # json_scan (h2_written ff ms)"
    using j by (simp add: h2_frame_def MessageText_def json_scan_print json_scan_newline)
  moreover have "fst (DecodeMessage (Inr j # ds)) = Returns (Inr (wired_message ff m))" for ds
    using j(3) by (simp add: message_of_json_def DecodeMessage_def Let_def)
  ultimately show ?case using Cons by simp
qed



end
