(* ===== verification/Http1.thy ===== *)
theory Http1
  imports Http Wire
begin

text \<open>
  The HTTP/1.1 handler of \<^verbatim>\<open>http/h1_server.go\<close> and client of \<^verbatim>\<open>http/h1_client.go\<close>. \<open>print\<close> writes a JSON
  document and \<open>scan\<close> reads the documents of a text; they are those of \<open>Json_Text\<close> in the end. The network
  between client and server is the argument \<open>do\<close>, a function on the state of the other side.
\<close>

section \<open>Server\<close>

record 'w H1Handler =
  h1h_Actor :: "'w Actor"

definition NewH1Handler :: "'w Actor option \<Rightarrow> 'w H1Handler" where
  "NewH1Handler actor = \<lparr>h1h_Actor = (case actor of None \<Rightarrow> NewActor | Some a \<Rightarrow> a)\<rparr>"

text \<open>The answer for an error of the actor.\<close>

definition respond_error :: "goerr \<Rightarrow> ResponseWriter \<Rightarrow> ResponseWriter run" where
  "respond_error e w = (case as_simple e of
      Some (code, body) \<Rightarrow> obind (WriteHeader code w) (WriteBody body)
    | None \<Rightarrow> (case as_wrapped e of
        Some (r, body) \<Rightarrow> obind (WriteHeader (StatusCode r) (add_headers (rHeader r) w)) (WriteBody body)
      | None \<Rightarrow> obind (WriteHeader 500 w) (WriteBody ''internal server error'')))"

text \<open>The bytes of an answer; an answer that cannot be marshalled becomes an internal error, whose own
  marshalling error is ignored.\<close>

definition answer_bytes :: "(rat \<Rightarrow> string) \<Rightarrow> (json \<Rightarrow> string) \<Rightarrow> Message \<Rightarrow> Message \<Rightarrow> string panicky" where
  "answer_bytes ff print msg resmsg = (case MessageBytes ff resmsg of
      Inr j \<Rightarrow> Returns (print j)
    | Inl _ \<Rightarrow> obind (MustId msg) (\<lambda>i.
        Returns (case MessageBytes ff (MError (ToMessageFromId ErrInternalError i (TraceId msg))) of
          Inr j \<Rightarrow> print j | Inl _ \<Rightarrow> [])))"

definition respond_message ::
  "(rat \<Rightarrow> string) \<Rightarrow> (json \<Rightarrow> string) \<Rightarrow> Message \<Rightarrow> Message \<Rightarrow> ResponseWriter \<Rightarrow> ResponseWriter run" where
  "respond_message ff print msg resmsg w =
     (let tid = TraceId resmsg in
      case answer_bytes ff print msg (SetTraceId [] resmsg) of
        Panics p \<Rightarrow> Panics (PError (ERpc p))
      | Returns data \<Rightarrow>
          obind (WriteHeader 200 w) (\<lambda>w1.
            let w2 = set_header ''Content-Type'' ''application/json'' w1;
                w3 = (if tid \<noteq> [] then set_header ''X-Trace-Id'' tid w2 else w2)
            in WriteBody data w3))"

definition respond :: "(rat \<Rightarrow> string) \<Rightarrow> (json \<Rightarrow> string) \<Rightarrow> Message \<Rightarrow>
    (Message option \<times> goerr option) run \<Rightarrow> ResponseWriter \<Rightarrow> ResponseWriter run" where
  "respond ff print msg fed w = obind fed (\<lambda>(resmsg, err).
     case err of
       Some e \<Rightarrow> respond_error e w
     | None \<Rightarrow> (case resmsg of
         Some m \<Rightarrow> respond_message ff print msg m w
       | None \<Rightarrow> obind (WriteHeader 200 w) (WriteBody [])))"

definition H1_ServeHTTP :: "(rat \<Rightarrow> string) \<Rightarrow> (json \<Rightarrow> string) \<Rightarrow> (string \<Rightarrow> decoder) \<Rightarrow> struct_decoder \<Rightarrow>
    'w Actor \<Rightarrow> ResponseWriter \<Rightarrow> http_request \<Rightarrow> 'w \<Rightarrow> ResponseWriter run \<times> 'w" where
  "H1_ServeHTTP ff print scan decode actor w r s =
     (if hr_method r \<noteq> ''POST'' then (ErrorResponse 405 ''Method not allowed'' w, s)
      else case hr_body r of
        Inl e \<Rightarrow> (ErrorResponse 400 ''Bad request'' w, s)
      | Inr body \<Rightarrow> (case ParseBytes scan body of
          Panics p \<Rightarrow> (Panics (PError (ERpc p)), s)
        | Returns parsed \<Rightarrow> (case parsed of
            Inl e \<Rightarrow> (ErrorResponse 400 ''Bad jsonrpc request'' w, s)
          | Inr msg \<Rightarrow>
              (let (fed, s') = Feed decode actor (NewRPCRequest (hr_context r) msg TransportHTTP True) s
               in (respond ff print msg fed w, s')))))"

section \<open>Client\<close>

text \<open>A TLS configuration is known by a number. The \<open>http.Client\<close> that \<open>connect\<close> makes is its timeout in seconds
  and the configuration of its transport.\<close>

type_synonym tls_config = nat

record HttpClient =
  hc_Timeout :: int
  hc_TLS :: "tls_config option"

record H1Client =
  h1_scheme :: string
  h1_extraHeader :: header
  h1_Timeout :: int
  h1_clientTLS :: "tls_config option"
  h1_httpClient :: "HttpClient option"

definition NewH1Client :: "string \<Rightarrow> int option \<Rightarrow> H1Client run" where
  "NewH1Client scheme opt =
     (if scheme \<noteq> ''http'' \<and> scheme \<noteq> ''https'' then Panics (PValue ''server url is not http'')
      else Returns \<lparr>h1_scheme = scheme, h1_extraHeader = [],
        h1_Timeout = (case opt of None \<Rightarrow> 0 | Some t \<Rightarrow> t), h1_clientTLS = None, h1_httpClient = None\<rparr>)"

definition H1_SetExtraHeader :: "header \<Rightarrow> H1Client \<Rightarrow> H1Client" where
  "H1_SetExtraHeader h c = c\<lparr>h1_extraHeader := h\<rparr>"

definition H1_SetClientTLSConfig :: "tls_config option \<Rightarrow> H1Client \<Rightarrow> H1Client" where
  "H1_SetClientTLSConfig cfg c = c\<lparr>h1_clientTLS := cfg\<rparr>"

text \<open>\<open>connect\<close> makes the client once.\<close>

definition h1_connect :: "H1Client \<Rightarrow> H1Client" where
  "h1_connect c = (case h1_httpClient c of
      Some _ \<Rightarrow> c
    | None \<Rightarrow> c\<lparr>h1_httpClient := Some \<lparr>hc_Timeout = (if h1_Timeout c \<le> 0 then 5 else h1_Timeout c), hc_TLS = h1_clientTLS c\<rparr>\<rparr>)"

text \<open>A TLS configuration that is set after the first call changes nothing.\<close>

lemma late_tls_config:
  "h1_httpClient (h1_connect (H1_SetClientTLSConfig cfg (h1_connect c))) = h1_httpClient (h1_connect c)"
  by (simp add: h1_connect_def H1_SetClientTLSConfig_def split: option.split)

definition h1_post :: "H1Client \<Rightarrow> string \<Rightarrow> string \<Rightarrow> http_request" where
  "h1_post c tid body =
     (let h0 = (if tid \<noteq> [] then header_add ''X-Trace-Id'' tid [] else []);
          h1 = header_set ''Accept'' ''application/json'' (header_set ''Content-Type'' ''application/json'' h0)
      in \<lparr>hr_method = ''POST'', hr_proto = 1, hr_header = header_add_all (h1_extraHeader c) h1, hr_body = Inr body, hr_context = []\<rparr>)"

text \<open>What \<open>request\<close> makes of the result of \<open>Do\<close>.\<close>

definition h1_parse :: "(string \<Rightarrow> decoder) \<Rightarrow> string \<Rightarrow> string \<Rightarrow> (goerr + Message) run" where
  "h1_parse scan tid b = (case ParseBytes scan b of
      Panics p \<Rightarrow> Panics (PError (ERpc p))
    | Returns parsed \<Rightarrow> Returns (case parsed of Inl e \<Rightarrow> Inl (go_decode_err e) | Inr m \<Rightarrow> Inr (SetTraceId tid m)))"

definition h1_result :: "(string \<Rightarrow> decoder) \<Rightarrow> string \<Rightarrow> http_result \<Rightarrow> (goerr + Message) run" where
  "h1_result scan tid res = (case res of
      NewRequestError t \<Rightarrow> Returns (Inl (EWrap ''http.NewRequestWithContext'' (EText t)))
    | DoTimeout \<Rightarrow> Returns (Inl (EWrap ''request timeout'' (ESimple 408 (CHR 0x22 # ''request timeout'' @ [CHR 0x22]))))
    | DoError t \<Rightarrow> Returns (Inl (EWrap ''http Do'' (EText t)))
    | Responded rs \<Rightarrow>
        (if rs_status rs \<noteq> 200 then
           (case rs_body rs of
              Inl e \<Rightarrow> Returns (Inl (EWrap ''read from response'' e))
            | Inr b \<Rightarrow> Returns (Inl (EWrap ''abnormal response''
                (EWrapped \<lparr>StatusCode = rs_status rs, rHeader = rs_header rs\<rparr> b))))
         else (case rs_body rs of
              Inl e \<Rightarrow> Returns (Inl (EWrap ''ioutil.ReadAll'' e))
            | Inr b \<Rightarrow> h1_parse scan tid b)))"

text \<open>\<open>request\<close> works on the caller's message: the second result is that message afterwards.\<close>

definition H1_request :: "(rat \<Rightarrow> string) \<Rightarrow> (json \<Rightarrow> string) \<Rightarrow> (string \<Rightarrow> decoder) \<Rightarrow>
    (http_request \<Rightarrow> 's \<Rightarrow> http_result \<times> 's) \<Rightarrow> H1Client \<Rightarrow> RequestMessage \<Rightarrow> 's \<Rightarrow>
    (goerr + Message) run \<times> RequestMessage \<times> 's" where
  "H1_request ff print scan do c reqmsg s =
     (let tid = traceId reqmsg;
          reqmsg' = reqmsg\<lparr>traceId := []\<rparr>
      in case MessageBytes ff (MRequest reqmsg') of
           Inl e \<Rightarrow> (Returns (Inl (EText ''json: unsupported'')), reqmsg', s)
         | Inr j \<Rightarrow>
             (case do (h1_post (h1_connect c) tid (print j)) s of
                (res, s') \<Rightarrow> (h1_result scan tid res, reqmsg', s')))"

text \<open>\<open>Call\<close> and \<open>UnwrapCall\<close>, of the result of \<open>request\<close>; \<open>decode\<close> is \<open>DecodeInterface\<close> into the output.\<close>

definition H1_Call :: "RequestMessage \<Rightarrow> goerr + Message \<Rightarrow> goerr + Message" where
  "H1_Call reqmsg res = (case res of
      Inl e \<Rightarrow> Inl (EWrap (''RPC('' @ req_Method reqmsg @ '')'') e)
    | Inr m \<Rightarrow> Inr m)"

definition H1_UnwrapCall :: "(gval \<Rightarrow> goerr + 'o) \<Rightarrow> RequestMessage \<Rightarrow> goerr + Message \<Rightarrow>
    (RPCError, (goerr + 'o) option) outcome" where
  "H1_UnwrapCall decode reqmsg res = (case H1_Call reqmsg res of
      Inl e \<Rightarrow> Returns (Some (Inl e))
    | Inr m \<Rightarrow>
        (if IsResult m then
           obind (MustResult m) (\<lambda>v. Returns (Some (case decode v of
              Inl e \<Rightarrow> Inl (EWrap (''RPC('' @ req_Method reqmsg @ '')'') e)
            | Inr y \<Rightarrow> Inr y)))
         else obind (MustError m) (\<lambda>e. Returns (map_option (\<lambda>x. Inl (ERpc x)) e))))"

definition H1_Send :: "(rat \<Rightarrow> string) \<Rightarrow> (json \<Rightarrow> string) \<Rightarrow>
    (http_request \<Rightarrow> 's \<Rightarrow> http_result \<times> 's) \<Rightarrow> H1Client \<Rightarrow> Message \<Rightarrow> 's \<Rightarrow> goerr option \<times> Message \<times> 's" where
  "H1_Send ff print do c msg s =
     (let tid = TraceId msg;
          msg' = SetTraceId [] msg
      in case MessageBytes ff msg' of
           Inl e \<Rightarrow> (Some (EText ''json: unsupported''), msg', s)
         | Inr j \<Rightarrow>
             (case do (h1_post (h1_connect c) tid (print j)) s of
                (res, s') \<Rightarrow>
                  ((case res of
                      NewRequestError t \<Rightarrow> Some (EWrap ''http.NewRequestWithContext'' (EText t))
                    | DoTimeout \<Rightarrow> Some (EWrap ''http Do'' (EText ''timeout''))
                    | DoError t \<Rightarrow> Some (EWrap ''http Do'' (EText t))
                    | Responded rs \<Rightarrow>
                        (if rs_status rs \<noteq> 200 then
                           Some (EWrap ''abnormal response''
                             (EWrapped \<lparr>StatusCode = rs_status rs, rHeader = rs_header rs\<rparr> []))
                         else None)), msg', s')))"

section \<open>A client and a server\<close>

text \<open>The network between a client and a handler; a panic of the handler closes the connection.\<close>

definition over_handler :: "(ResponseWriter \<Rightarrow> http_request \<Rightarrow> 's \<Rightarrow> ResponseWriter run \<times> 's) \<Rightarrow>
    http_request \<Rightarrow> 's \<Rightarrow> http_result \<times> 's" where
  "over_handler serve r s = (case serve new_writer r s of (out, s') \<Rightarrow>
     (case out of Returns w \<Rightarrow> Responded (sent_response w) | Panics p \<Rightarrow> DoError ''EOF'', s'))"

abbreviation over_http1 where
  "over_http1 ff print scan decode actor \<equiv> over_handler (H1_ServeHTTP ff print scan decode actor)"

lemma SetTraceId_twice [simp]: "SetTraceId t (SetTraceId u m) = SetTraceId t m"
  by (cases m) (simp_all add: SetTraceId_def)

lemma respond_message_sent:
  assumes "MessageBytes ff (SetTraceId [] m) = Inr j" "rw_sent w = None"
  shows "\<exists>w'. respond_message ff print msg m w = Returns w' \<and>
     sent_response w' = \<lparr>rs_status = 200, rs_header = rw_header w, rs_body = Inr (rw_body w @ print j)\<rparr> \<and>
     (TraceId m \<noteq> [] \<longrightarrow> header_values ''X-Trace-Id'' (rw_header w') = [TraceId m])"
  using assms by (simp add: respond_message_def answer_bytes_def writer_simps header_values_set Let_def)

text \<open>A call and its answer, written and read as texts.\<close>

lemma h1_exchange:
  assumes q: "travels ff (MRequest (q\<lparr>traceId := []\<rparr>))" and m: "travels ff (SetTraceId [] m)"
    and fed: "Feed decode actor (NewRPCRequest [] (wired_message ff (MRequest (q\<lparr>traceId := []\<rparr>))) TransportHTTP True) s =
      (Returns (Some m, None), s')"
  shows "H1_request ff json_print json_scan (over_http1 ff json_print json_scan decode actor) c q s =
    (Returns (Inr (SetTraceId (traceId q) (wired_message ff m))), q\<lparr>traceId := []\<rparr>, s')"
proof -
  let ?q = "wired_message ff (MRequest (q\<lparr>traceId := []\<rparr>))"
  obtain j where j: "MessageBytes ff (MRequest (q\<lparr>traceId := []\<rparr>)) = Inr j"
      "ParseBytes json_scan (json_print j) = Returns (Inr ?q)"
    using travels_parse [OF q] by blast
  obtain k where k: "MessageBytes ff (SetTraceId [] m) = Inr k"
      "ParseBytes json_scan (json_print k) = Returns (Inr (SetTraceId [] (wired_message ff m)))"
    using travels_parse [OF m] by auto
  obtain w where w: "respond_message ff json_print ?q m new_writer = Returns w"
      "sent_response w = \<lparr>rs_status = 200, rs_header = [], rs_body = Inr (json_print k)\<rparr>"
    using respond_message_sent [OF k(1), of new_writer] by (auto simp: new_writer_def)
  have "over_http1 ff json_print json_scan decode actor (h1_post (h1_connect c) (traceId q) (json_print j)) s =
      (Responded \<lparr>rs_status = 200, rs_header = [], rs_body = Inr (json_print k)\<rparr>, s')"
    using j k w fed by (simp add: over_handler_def H1_ServeHTTP_def h1_post_def Let_def respond_def)
  then show ?thesis
    using j k by (simp add: H1_request_def Let_def h1_result_def h1_parse_def)
qed





end
