(* ===== verification/Sessions.thy ===== *)
theory Sessions
  imports Http1 Transitions Actor_Laws
begin

text \<open>
  The websocket server \<^verbatim>\<open>http/ws_server.go\<close> and the HTTP/2 server \<^verbatim>\<open>http/h2_server.go\<close>: their handlers and
  their sessions. The receive loop, the goroutines that handle the messages, the send loop and the handler that waits
  for the end are a step relation. What differs between the two servers is the record \<open>protocol\<close>: one iteration of
  each loop, the handling of what the receive loop hands to a goroutine, and what the handler does when \<open>wait\<close>
  returns. A goroutine about to send to a channel is an entry of \<open>outbox\<close>; it stays there while the channel is full.
  A panic in a goroutine ends the process: \<open>crashed\<close>. With \<open>SpawnGoroutine\<close>, which the constructors set, each message
  is handled in a goroutine of its own, an entry of \<open>pool\<close>; without it the receive loop handles the message itself,
  and reads on when the answer is in the channel.
\<close>

section \<open>State\<close>

text \<open>\<open>fed\<close> lists the messages given to the actor, \<open>out\<close> the messages written and \<open>wire\<close> what was written for each: the
  text of a frame, or a line of the stream.\<close>

record ('m, 'w) session =
  server :: bool
  SpawnGoroutine :: bool
  sessionId :: string
  rootCtx :: go_context
  app :: 'w
  root_done :: bool
  server_done :: bool
  done_ch :: "goerr option list"
  send_ch :: "Message list"
  recv_on :: bool
  send_on :: bool
  serving :: bool
  closed :: bool
  pool :: "'m list"
  outbox :: "(goerr option + Message) list"
  fed :: "Message list"
  out :: "Message list"
  wire :: "string list"
  crashed :: "panic_value option"

type_synonym 'w WSSession = "(decoder, 'w) session"
type_synonym 'w H2Session = "(Message, 'w) session"

definition new_session :: "bool \<Rightarrow> go_context \<Rightarrow> string \<Rightarrow> 'w \<Rightarrow> ('m, 'w) session" where
  "new_session spawn ctx sid w = \<lparr>server = True, SpawnGoroutine = spawn, sessionId = sid, rootCtx = ctx, app = w, root_done = False,
     server_done = False, done_ch = [], send_ch = [], recv_on = True, send_on = True, serving = True, closed = False,
     pool = [], outbox = [], fed = [], out = [], wire = [], crashed = None\<rparr>"

definition crash :: "panic_value \<Rightarrow> ('m, 'w) session \<Rightarrow> ('m, 'w) session" where
  "crash p s = s\<lparr>crashed := Some p\<rparr>"

definition to_done :: "goerr option \<Rightarrow> ('m, 'w) session \<Rightarrow> ('m, 'w) session" where
  "to_done e s = s\<lparr>outbox := outbox s @ [Inl e]\<rparr>"

text \<open>\<open>Send\<close> hands a message to the send loop; answers take the same channel.\<close>

definition Session_Send :: "Message \<Rightarrow> ('m, 'w) session \<Rightarrow> ('m, 'w) session" where
  "Session_Send m s = s\<lparr>outbox := outbox s @ [Inr m]\<rparr>"

definition SessionID :: "('m, 'w) session \<Rightarrow> string" where
  [simp]: "SessionID s = sessionId s"

section \<open>Handling a message\<close>

text \<open>The request made of a message.\<close>

definition session_request :: "Message \<Rightarrow> string \<Rightarrow> go_context \<Rightarrow> string \<Rightarrow> RPCRequest" where
  "session_request msg ttype ctx sid = (NewRPCRequest ctx msg ttype True)\<lparr>rq_session := Some sid\<rparr>"

text \<open>\<open>msgReceived\<close>, and \<open>msgBytesReceived\<close> once the bytes are parsed: the server pointer is
  dereferenced, the actor fed, and the result handed on.\<close>

definition feed_session :: "struct_decoder \<Rightarrow> 'w Actor \<Rightarrow> string \<Rightarrow> Message \<Rightarrow> ('m, 'w) session \<Rightarrow>
    ('m, 'w) session" where
  "feed_session decode actor ttype msg s =
     (if \<not> server s then crash nil_pointer s
      else let (res, w') = Feed decode actor (session_request msg ttype (rootCtx s) (SessionID s)) (app s);
               s1 = s\<lparr>app := w', fed := fed s @ [msg]\<rparr>
        in (case res of
              Panics p \<Rightarrow> crash p s1
            | Returns (resmsg, err) \<Rightarrow>
                (case err of
                   Some e \<Rightarrow> to_done (Some (EWrap ''actor.Feed'' e)) s1
                 | None \<Rightarrow> (case resmsg of None \<Rightarrow> s1 | Some m \<Rightarrow> Session_Send m s1))))"

definition ws_msgBytesReceived :: "struct_decoder \<Rightarrow> 'w Actor \<Rightarrow> decoder \<Rightarrow> (decoder, 'w) session \<Rightarrow>
    (decoder, 'w) session" where
  "ws_msgBytesReceived decode actor d s = (case fst (DecodeMessage d) of
      Panics p \<Rightarrow> crash (PError (ERpc p)) s
    | Returns parsed \<Rightarrow> (case parsed of
        Inl e \<Rightarrow> to_done (Some (EText ''bad jsonrpc message'')) s
      | Inr msg \<Rightarrow> feed_session decode actor TransportWebsocket msg s))"

definition h2_msgReceived :: "struct_decoder \<Rightarrow> 'w Actor \<Rightarrow> Message \<Rightarrow> (Message, 'w) session \<Rightarrow>
    (Message, 'w) session" where
  "h2_msgReceived decode actor msg s = feed_session decode actor TransportHTTP2 msg s"

section \<open>Loops\<close>

text \<open>What the receive loop has read goes to a goroutine or is handled in place.\<close>

definition hand_on :: "('m \<Rightarrow> ('m, 'w) session \<Rightarrow> ('m, 'w) session) \<Rightarrow> 'm \<Rightarrow> ('m, 'w) session \<Rightarrow> ('m, 'w) session" where
  "hand_on handle m s =
     (if \<not> server s then crash nil_pointer s
      else if SpawnGoroutine s then s\<lparr>pool := pool s @ [m]\<rparr>
      else handle m s)"

definition ws_recvLoop :: "struct_decoder \<Rightarrow> 'w Actor \<Rightarrow> ws_frame \<Rightarrow> (decoder, 'w) session \<Rightarrow> (decoder, 'w) session" where
  "ws_recvLoop decode actor frame s = (case frame of
      WsError e \<Rightarrow> to_done (Some (EWrap ''ws.ReadMessage()'' (EText ''network''))) (s\<lparr>recv_on := False\<rparr>)
    | WsBinary \<Rightarrow> s
    | WsText d \<Rightarrow> hand_on (ws_msgBytesReceived decode actor) d s)"

definition h2_recvLoop :: "struct_decoder \<Rightarrow> 'w Actor \<Rightarrow> decoder \<Rightarrow> (Message, 'w) session \<Rightarrow> (Message, 'w) session" where
  "h2_recvLoop decode actor d s = (case fst (DecodeMessage d) of
      Panics p \<Rightarrow> crash (PError (ERpc p)) s
    | Returns decoded \<Rightarrow> (case decoded of
        Inl e \<Rightarrow> to_done (if e = ErrEOF then None else Some (go_decode_err e)) (s\<lparr>recv_on := False\<rparr>)
      | Inr msg \<Rightarrow> hand_on (h2_msgReceived decode actor) msg s))"

text \<open>One turn of \<open>sendLoop\<close>: it ends when the context of the request is done, or takes a message, makes the text of it
  and writes that; \<open>x\<close> is the error of the write. Both servers stop the loop at the first error, and tell nobody.
  The connection and the decoder, which the code compares with nil, are set as long as there is a session.\<close>

definition write_out :: "marshal_err + string \<Rightarrow> Message \<Rightarrow> net_err option \<Rightarrow> ('m, 'w) session \<Rightarrow> ('m, 'w) session" where
  "write_out marshaled m x s = (case marshaled of
      Inl e \<Rightarrow> s\<lparr>send_on := False\<rparr>
    | Inr t \<Rightarrow> (case x of
        Some e \<Rightarrow> s\<lparr>send_on := False\<rparr>
      | None \<Rightarrow> s\<lparr>out := out s @ [m], wire := wire s @ [t]\<rparr>))"

definition ws_sendLoop :: "(rat \<Rightarrow> string) \<Rightarrow> net_err option branch \<Rightarrow> ('m, 'w) session \<Rightarrow> ('m, 'w) session" where
  "ws_sendLoop ff br s = (case br of
      CtxDone \<Rightarrow> if root_done s then s\<lparr>send_on := False\<rparr> else s
    | TakeMsg x \<Rightarrow> (case send_ch s of
        [] \<Rightarrow> s
      | m # q \<Rightarrow> write_out (MessageText ff m) m x (s\<lparr>send_ch := q\<rparr>)))"

definition h2_sendLoop :: "(rat \<Rightarrow> string) \<Rightarrow> net_err option branch \<Rightarrow> ('m, 'w) session \<Rightarrow> ('m, 'w) session" where
  "h2_sendLoop ff br s = (case br of
      CtxDone \<Rightarrow> if root_done s then s\<lparr>send_on := False\<rparr> else s
    | TakeMsg x \<Rightarrow> (case send_ch s of
        [] \<Rightarrow> s
      | m # q \<Rightarrow> write_out (h2_frame ff m) m x (s\<lparr>send_ch := q\<rparr>)))"

text \<open>What the handler does right after \<open>wait\<close>: the websocket handler clears the session's server.\<close>

definition ws_after_wait :: "('m, 'w) session \<Rightarrow> ('m, 'w) session" where
  "ws_after_wait s = s\<lparr>serving := False, server := False\<rparr>"

definition h2_after_wait :: "('m, 'w) session \<Rightarrow> ('m, 'w) session" where
  "h2_after_wait s = s\<lparr>serving := False\<rparr>"

section \<open>Steps\<close>

record ('m, 'f, 'w) protocol =
  p_recv :: "'f \<Rightarrow> ('m, 'w) session \<Rightarrow> ('m, 'w) session"
  p_handle :: "'m \<Rightarrow> ('m, 'w) session \<Rightarrow> ('m, 'w) session"
  p_send :: "net_err option branch \<Rightarrow> ('m, 'w) session \<Rightarrow> ('m, 'w) session"
  p_after_wait :: "('m, 'w) session \<Rightarrow> ('m, 'w) session"

definition ws_protocol :: "(rat \<Rightarrow> string) \<Rightarrow> struct_decoder \<Rightarrow> 'w Actor \<Rightarrow> (decoder, ws_frame, 'w) protocol" where
  "ws_protocol ff decode actor = \<lparr>p_recv = ws_recvLoop decode actor, p_handle = ws_msgBytesReceived decode actor,
     p_send = ws_sendLoop ff, p_after_wait = ws_after_wait\<rparr>"

definition h2_protocol :: "(rat \<Rightarrow> string) \<Rightarrow> struct_decoder \<Rightarrow> 'w Actor \<Rightarrow> (Message, decoder, 'w) protocol" where
  "h2_protocol ff decode actor = \<lparr>p_recv = h2_recvLoop decode actor, p_handle = h2_msgReceived decode actor,
     p_send = h2_sendLoop ff, p_after_wait = h2_after_wait\<rparr>"

text \<open>A receive loop that handles messages itself is blocked while it has something to send. \<open>root\<close> is the end of the
  request's context, when the peer is gone or the handler has returned, and \<open>stop\<close> the end of the server's;
  \<open>wait_done\<close> and \<open>wait_ctx\<close> are the ways \<open>wait\<close> returns; \<open>close\<close> is the deferred \<open>HandleClose\<close>.\<close>

inductive session_step :: "'w Actor \<Rightarrow> ('m, 'f, 'w) protocol \<Rightarrow> ('m, 'w) session \<Rightarrow> ('m, 'w) session \<Rightarrow> bool"
  for actor :: "'w Actor" and P :: "('m, 'f, 'w) protocol" where
  recv: "crashed s = None \<Longrightarrow> recv_on s \<Longrightarrow> SpawnGoroutine s \<or> outbox s = [] \<Longrightarrow> session_step actor P s (p_recv P f s)"
| handle: "crashed s = None \<Longrightarrow> pool s = ms @ m # ms' \<Longrightarrow>
    session_step actor P s (p_handle P m (s\<lparr>pool := ms @ ms'\<rparr>))"
| put_done: "crashed s = None \<Longrightarrow> outbox s = xs @ Inl e # ys \<Longrightarrow> length (done_ch s) < 10 \<Longrightarrow>
    session_step actor P s (s\<lparr>outbox := xs @ ys, done_ch := done_ch s @ [e]\<rparr>)"
| put_send: "crashed s = None \<Longrightarrow> outbox s = xs @ Inr m # ys \<Longrightarrow> length (send_ch s) < 100 \<Longrightarrow>
    session_step actor P s (s\<lparr>outbox := xs @ ys, send_ch := send_ch s @ [m]\<rparr>)"
| send: "crashed s = None \<Longrightarrow> send_on s \<Longrightarrow> session_step actor P s (p_send P br s)"
| root: "crashed s = None \<Longrightarrow> session_step actor P s (s\<lparr>root_done := True\<rparr>)"
| stop: "crashed s = None \<Longrightarrow> session_step actor P s (s\<lparr>server_done := True\<rparr>)"
| wait_done: "crashed s = None \<Longrightarrow> serving s \<Longrightarrow> done_ch s = e # es \<Longrightarrow>
    session_step actor P s (p_after_wait P (s\<lparr>done_ch := es\<rparr>))"
| wait_ctx: "crashed s = None \<Longrightarrow> serving s \<Longrightarrow> root_done s \<or> server_done s \<Longrightarrow>
    session_step actor P s (p_after_wait P s)"
| close: "crashed s = None \<Longrightarrow> \<not> serving s \<Longrightarrow> \<not> closed s \<Longrightarrow>
    session_step actor P s (s\<lparr>app := HandleClose actor True (sessionId s) (app s), closed := True\<rparr>)"

inductive_cases session_stepE: "session_step actor P s s'"

definition session_init :: "('m, 'w) session \<Rightarrow> bool" where
  "session_init s = (\<exists>spawn ctx sid w. s = new_session spawn ctx sid w)"

section \<open>The handlers\<close>

record 'w WSHandler =
  wh_Actor :: "'w Actor"
  wh_SpawnGoroutine :: bool

definition NewWSHandler :: "'w Actor option \<Rightarrow> 'w WSHandler" where
  "NewWSHandler actor = \<lparr>wh_Actor = (case actor of None \<Rightarrow> NewActor | Some a \<Rightarrow> a), wh_SpawnGoroutine = True\<rparr>"

text \<open>A request that cannot be upgraded is refused; otherwise a session starts, with an id \<open>NewUuid\<close> gives.\<close>

definition WS_ServeHTTP :: "'w WSHandler \<Rightarrow> bool \<Rightarrow> string \<Rightarrow> ResponseWriter \<Rightarrow> http_request \<Rightarrow> 'w \<Rightarrow>
    ResponseWriter run + (decoder, 'w) session" where
  "WS_ServeHTTP h upgraded sid w r a =
     (if \<not> upgraded then Inl (obind (WriteHeader 400 w) (WriteBody ''ws upgrade failed''))
      else Inr (new_session (wh_SpawnGoroutine h) (hr_context r) sid a))"

record 'w H2Handler =
  hh_Actor :: "'w Actor"
  hh_SpawnGoroutine :: bool
  hh_UseH2C :: bool
  hh_fallbackHandler :: "'w H1Handler option"

definition NewH2Handler :: "'w Actor option \<Rightarrow> 'w H2Handler" where
  "NewH2Handler actor = \<lparr>hh_Actor = (case actor of None \<Rightarrow> NewActor | Some a \<Rightarrow> a), hh_SpawnGoroutine = True,
     hh_UseH2C = False, hh_fallbackHandler = None\<rparr>"

text \<open>The handler behind the cleartext HTTP/2 of \<^verbatim>\<open>golang.org/x/net\<close>, the argument \<open>h2c\<close>.\<close>

definition H2CHandler :: "('w H2Handler \<Rightarrow> 'h) \<Rightarrow> 'w H2Handler \<Rightarrow> 'h" where
  "H2CHandler h2c h = h2c (h\<lparr>hh_UseH2C := True\<rparr>)"

definition FallbackHandler :: "'w H2Handler \<Rightarrow> 'w H1Handler \<times> 'w H2Handler" where
  "FallbackHandler h = (case hh_fallbackHandler h of
      Some f \<Rightarrow> (f, h)
    | None \<Rightarrow> let f = NewH1Handler (Some (hh_Actor h)) in (f, h\<lparr>hh_fallbackHandler := Some f\<rparr>))"

text \<open>A request that is no HTTP/2 request is served by the fallback handler; otherwise status 200 is sent
  at once.\<close>

datatype 'w h2_open =
    H2Served "ResponseWriter run \<times> 'w"
  | H2Opened "ResponseWriter run" "(Message, 'w) session"

definition H2_ServeHTTP :: "('w H1Handler \<Rightarrow> ResponseWriter \<Rightarrow> http_request \<Rightarrow> 'w \<Rightarrow> ResponseWriter run \<times> 'w) \<Rightarrow>
    'w H2Handler \<Rightarrow> bool \<Rightarrow> string \<Rightarrow> ResponseWriter \<Rightarrow> http_request \<Rightarrow> 'w \<Rightarrow> 'w h2_open \<times> 'w H2Handler" where
  "H2_ServeHTTP serve_h1 h flushes sid w r a =
     (if \<not> hh_UseH2C h \<and> hr_proto r < 2 then
        (case FallbackHandler h of (f, h') \<Rightarrow> (H2Served (serve_h1 f w r a), h'))
      else if \<not> flushes then (H2Served (obind (WriteHeader 400 w) (WriteBody ''http2 not supported''), a), h)
      else (H2Opened (WriteHeader 200 w) (new_session (hh_SpawnGoroutine h) (hr_context r) sid a), h))"

end
