(* ===== verification/Sessions_Props.thy ===== *)
theory Sessions_Props
  imports Sessions
begin

text \<open>
  What holds of a session however its goroutines interleave, and what goes wrong in one: an HTTP/2 session never ends
  the process; a websocket session can, and can stop answering while it stays open.
\<close>

section \<open>Laws\<close>

lemma session_simps [simp]:
  "crashed (to_done e s) = crashed s" "server (to_done e s) = server s" "pool (to_done e s) = pool s"
  "crashed (Session_Send m s) = crashed s" "server (Session_Send m s) = server s" "pool (Session_Send m s) = pool s"
  "crashed (write_out t m x s) = crashed s" "server (write_out t m x s) = server s" "pool (write_out t m x s) = pool s"
  by (simp_all add: to_done_def Session_Send_def write_out_def split: sum.split option.split)

lemma send_simps [simp]:
  "crashed (ws_sendLoop ff br s) = crashed s" "server (ws_sendLoop ff br s) = server s" "pool (ws_sendLoop ff br s) = pool s"
  "crashed (h2_sendLoop ff br s) = crashed s" "server (h2_sendLoop ff br s) = server s" "pool (h2_sendLoop ff br s) = pool s"
  by (simp_all add: ws_sendLoop_def h2_sendLoop_def split: branch.split list.split)

text \<open>The safe states of an HTTP/2 session.\<close>

definition h2_session_ok :: "(Message, 'w) session \<Rightarrow> bool" where
  "h2_session_ok s = (crashed s = None \<and> server s \<and> (\<forall>m \<in> set (pool s). message_ok m))"

definition calm :: "struct_decoder \<Rightarrow> 'w Actor \<Rightarrow> bool" where
  "calm decode actor = (\<forall>req w. message_ok (rq_msg req) \<longrightarrow> no_panic (fst (Feed decode actor req w)))"

lemma h2_feed_safe:
  assumes "h2_session_ok s" "message_ok m" "calm decode actor"
  shows "h2_session_ok (h2_msgReceived decode actor m s)"
proof -
  let ?req = "session_request m TransportHTTP2 (rootCtx s) (sessionId s)"
  obtain r w' where F: "Feed decode actor ?req (app s) = (r, w')" by (cases "Feed decode actor ?req (app s)")
  have "message_ok (rq_msg ?req)" using assms(2) by (simp add: session_request_def NewRPCRequest_def)
  then have "no_panic (fst (Feed decode actor ?req (app s)))" using assms(3) unfolding calm_def by blast
  then obtain res err where r: "r = Returns (res, err)" using F by (auto simp: no_panic_iff)
  show ?thesis
    using F assms(1) unfolding h2_msgReceived_def feed_session_def r
    by (cases err; cases res) (simp_all add: Let_def h2_session_ok_def)
qed

lemma h2_recv_safe:
  assumes "h2_session_ok s" "calm decode actor"
  shows "h2_session_ok (h2_recvLoop decode actor d s)"
proof -
  obtain r where r: "fst (DecodeMessage d) = Returns r" using DecodeMessage_returns by blast
  show ?thesis
  proof (cases r)
    case (Inl e)
    then show ?thesis using assms r by (simp add: h2_recvLoop_def h2_session_ok_def)
  next
    case (Inr m)
    then have "message_ok m" using DecodeMessage_ok r by simp
    then show ?thesis
      using assms r Inr h2_feed_safe [OF assms(1) _ assms(2)]
      by (auto simp: h2_recvLoop_def hand_on_def h2_session_ok_def)
  qed
qed

lemma h2_handle_safe:
  assumes "h2_session_ok s" "pool s = ms @ m # ms'" "calm decode actor"
  shows "h2_session_ok (h2_msgReceived decode actor m (s\<lparr>pool := ms @ ms'\<rparr>))"
  by (rule h2_feed_safe) (use assms in \<open>auto simp: h2_session_ok_def\<close>)

lemma h2_step_safe:
  assumes "session_step actor (h2_protocol ff decode actor) s s'" "h2_session_ok s" "calm decode actor"
  shows "h2_session_ok s'"
  using assms(1)
proof cases
  case (recv f)
  then show ?thesis using h2_recv_safe [OF assms(2,3)] by (simp add: h2_protocol_def)
next
  case (handle ms m ms')
  then show ?thesis using h2_handle_safe [OF assms(2) _ assms(3)] by (simp add: h2_protocol_def)
next
  case (send br)
  then show ?thesis using assms(2) by (simp add: h2_session_ok_def h2_protocol_def)
qed (use assms(2) in \<open>auto simp: h2_session_ok_def h2_protocol_def h2_after_wait_def\<close>)

text \<open>A send loop that stopped stays stopped.\<close>

lemma feed_quiet [simp]:
  "send_on (feed_session decode actor t m s) = send_on s" "out (feed_session decode actor t m s) = out s"
  by (auto simp: feed_session_def Let_def case_prod_unfold crash_def to_done_def Session_Send_def
      split: outcome.split option.split)

lemma ws_quiet [simp]:
  "send_on (ws_msgBytesReceived decode actor d s) = send_on s" "out (ws_msgBytesReceived decode actor d s) = out s"
  "send_on (ws_recvLoop decode actor f s) = send_on s" "out (ws_recvLoop decode actor f s) = out s"
  by (simp_all add: ws_msgBytesReceived_def ws_recvLoop_def hand_on_def crash_def to_done_def
      split: outcome.split sum.split ws_frame.split)

lemma stopped_step:
  assumes "session_step actor (ws_protocol ff decode actor) s s'" "\<not> send_on s"
  shows "\<not> send_on s' \<and> out s' = out s"
  using assms(1) by cases (use assms(2) in \<open>simp_all add: ws_protocol_def ws_after_wait_def\<close>)

section \<open>Properties\<close>

text \<open>An actor that never panics, and one that answers every request with a value JSON has no text for.\<close>

lemma calm_empty: "calm decode NewActor"
  unfolding calm_def
proof (intro allI impI)
  fix req :: RPCRequest and w :: 'w assume "message_ok (rq_msg req)"
  then have "kind_ok (rq_msg req)" by (rule message_ok_kind)
  then show "no_panic (fst (Feed decode NewActor req w))"
    by (cases "rq_msg req") (auto simp: NewActor_def IsRequestOrNotify_def MustMethod_def MustId_def feed_missing_def Let_def)
qed

definition nan_actor :: "unit Actor" where
  "nan_actor = Actor True True [(''get'', \<lparr>callback = \<lambda>req ps w. (Returns (RVal (VFloat FNaN), None), w), mh_schema = None\<rparr>)]
     None None []"

text \<open>The documents of the runs below.\<close>

definition bad_doc :: decoder where "bad_doc = [Inl ''invalid character'']"

definition get_doc :: decoder where
  "get_doc = [Inr (JObj [(''id'', JNum ''1''), (''method'', JStr ''get''), (''params'', JArr [])])]"

definition get_message :: Message where
  "get_message = MRequest \<lparr>kind = MKRequest, traceId = [], req_Id = VInt 1, req_Method = ''get'',
     req_Params = [], req_paramsAreList = True\<rparr>"

lemma decode_docs:
  "fst (DecodeMessage bad_doc) = Returns (Inl (ErrJson ''invalid character''))"
  "fst (DecodeMessage get_doc) = Returns (Inr get_message)"
proof -
  show "fst (DecodeMessage bad_doc) = Returns (Inl (ErrJson ''invalid character''))"
    by (simp add: DecodeMessage_def bad_doc_def)
  have one: "ParseInt ''1'' = Some 1" by code_simp
  let ?un = "empty_union\<lparr>un_Id := Some (JNum ''1''), un_Method := ''get'', un_Params := Some (JArr [])\<rparr>"
  have "decode_union (JObj [(''id'', JNum ''1''), (''method'', JStr ''get''), (''params'', JArr [])]) = Inr ?un"
    by (simp add: union_steps raw_field_def)
  then show "fst (DecodeMessage get_doc) = Returns (Inr get_message)"
    by (simp add: DecodeMessage_def get_doc_def message_of_union_def empty_union_def decodeId_def one
        decodeParams_def get_message_def)
qed



text \<open>C34: a websocket peer can end the server's process, although the actor never panics,
  with one document that is no message followed by one that is: the first makes the session end, and the
  handler clears the session's server while a goroutine still handles the second and dereferences it.\<close>

theorem ws_session_crashes:
  "calm decode NewActor \<and>
   (\<exists>s :: (decoder, unit) session. reach session_init (session_step NewActor (ws_protocol ff decode NewActor)) s \<and>
     crashed s = Some nil_pointer)"
proof (intro conjI calm_empty)
  let ?P = "ws_protocol ff decode (NewActor :: unit Actor)" and ?s = "new_session True [] ''s'' () :: (decoder, unit) session"
  let ?R = "reach session_init (session_step NewActor ?P)"
  have 0: "?R ?s" by (rule reach.start) (auto simp: session_init_def)
  have "session_step NewActor ?P ?s (?s\<lparr>pool := [bad_doc]\<rparr>)"
    using session_step.recv [of ?s NewActor ?P "WsText bad_doc"]
    by (simp add: new_session_def ws_protocol_def ws_recvLoop_def hand_on_def)
  with 0 have 1: "?R (?s\<lparr>pool := [bad_doc]\<rparr>)" by (rule reach.move)
  have "session_step NewActor ?P (?s\<lparr>pool := [bad_doc]\<rparr>) (?s\<lparr>pool := [bad_doc, get_doc]\<rparr>)"
    using session_step.recv [of "?s\<lparr>pool := [bad_doc]\<rparr>" NewActor ?P "WsText get_doc"]
    by (simp add: new_session_def ws_protocol_def ws_recvLoop_def hand_on_def)
  with 1 have 2: "?R (?s\<lparr>pool := [bad_doc, get_doc]\<rparr>)" by (rule reach.move)
  let ?e = "Some (EText ''bad jsonrpc message'')"
  have "session_step NewActor ?P (?s\<lparr>pool := [bad_doc, get_doc]\<rparr>) (?s\<lparr>pool := [get_doc], outbox := [Inl ?e]\<rparr>)"
    using session_step.handle [of "?s\<lparr>pool := [bad_doc, get_doc]\<rparr>" "[]" bad_doc "[get_doc]" NewActor ?P]
    by (simp add: new_session_def ws_protocol_def ws_msgBytesReceived_def decode_docs to_done_def)
  with 2 have 3: "?R (?s\<lparr>pool := [get_doc], outbox := [Inl ?e]\<rparr>)" by (rule reach.move)
  have "session_step NewActor ?P (?s\<lparr>pool := [get_doc], outbox := [Inl ?e]\<rparr>) (?s\<lparr>pool := [get_doc], done_ch := [?e]\<rparr>)"
    using session_step.put_done [of "?s\<lparr>pool := [get_doc], outbox := [Inl ?e]\<rparr>" "[]" ?e "[]" NewActor ?P]
    by (simp add: new_session_def)
  with 3 have 4: "?R (?s\<lparr>pool := [get_doc], done_ch := [?e]\<rparr>)" by (rule reach.move)
  have "session_step NewActor ?P (?s\<lparr>pool := [get_doc], done_ch := [?e]\<rparr>)
      (?s\<lparr>pool := [get_doc], serving := False, server := False\<rparr>)"
    using session_step.wait_done [of "?s\<lparr>pool := [get_doc], done_ch := [?e]\<rparr>" ?e "[]" NewActor ?P]
    by (simp add: new_session_def ws_protocol_def ws_after_wait_def)
  with 4 have 5: "?R (?s\<lparr>pool := [get_doc], serving := False, server := False\<rparr>)" by (rule reach.move)
  have "session_step NewActor ?P (?s\<lparr>pool := [get_doc], serving := False, server := False\<rparr>)
      (?s\<lparr>serving := False, server := False, crashed := Some nil_pointer\<rparr>)"
    using session_step.handle [of "?s\<lparr>pool := [get_doc], serving := False, server := False\<rparr>" "[]" get_doc "[]" NewActor ?P]
    by (simp add: new_session_def ws_protocol_def ws_msgBytesReceived_def decode_docs feed_session_def crash_def)
  with 5 have "?R (?s\<lparr>serving := False, server := False, crashed := Some nil_pointer\<rparr>)" by (rule reach.move)
  then show "\<exists>s. ?R s \<and> crashed s = Some nil_pointer" by force
qed

text \<open>A session that serves on but never writes again.\<close>

definition mute :: "'w Actor \<Rightarrow> ('m, 'f, 'w) protocol \<Rightarrow> ('m, 'w) session \<Rightarrow> bool" where
  "mute actor P s = (serving s \<and> recv_on s \<and> done_ch s = [] \<and> outbox s = [] \<and> crashed s = None \<and>
     (\<forall>s'. (session_step actor P)\<^sup>*\<^sup>* s s' \<longrightarrow> out s' = out s))"

text \<open>C35: one answer that cannot be marshalled (a handler that returns a float that is not a
  number) leaves a websocket session that is open, reads on and handles requests, and never writes another
  message: the send loop returns at the first marshalling error without ending the session.\<close>

theorem answers_stop:
  "\<exists>s. reach session_init (session_step nan_actor (ws_protocol ff decode nan_actor)) s \<and>
     mute nan_actor (ws_protocol ff decode nan_actor) s"
proof -
  let ?P = "ws_protocol ff decode nan_actor" and ?s = "new_session True [] ''s'' () :: (decoder, unit) session"
  let ?R = "reach session_init (session_step nan_actor ?P)"
  let ?m = "MResult \<lparr>kind = MKResult, traceId = [], res_Id = VInt 1, res_Result = VFloat FNaN\<rparr>"
  have fed: "Feed decode nan_actor (session_request get_message TransportWebsocket [] ''s'') () =
      (Returns (Some ?m, None), ())"
    by (simp add: nan_actor_def get_message_def session_request_def NewRPCRequest_def is_defs MustMethod_def MustParams_def
        call_handler_def recover_call_def wrapResult_def NewResultMessage_def MustId_def rawResultMessage_def TraceId_def)
  have 0: "?R ?s" by (rule reach.start) (auto simp: session_init_def)
  have "session_step nan_actor ?P ?s (?s\<lparr>pool := [get_doc]\<rparr>)"
    using session_step.recv [of ?s nan_actor ?P "WsText get_doc"]
    by (simp add: new_session_def ws_protocol_def ws_recvLoop_def hand_on_def)
  with 0 have 1: "?R (?s\<lparr>pool := [get_doc]\<rparr>)" by (rule reach.move)
  have "session_step nan_actor ?P (?s\<lparr>pool := [get_doc]\<rparr>) (?s\<lparr>fed := [get_message], outbox := [Inr ?m]\<rparr>)"
    using session_step.handle [of "?s\<lparr>pool := [get_doc]\<rparr>" "[]" get_doc "[]" nan_actor ?P] fed
    by (simp add: new_session_def ws_protocol_def ws_msgBytesReceived_def decode_docs feed_session_def Session_Send_def)
  with 1 have 2: "?R (?s\<lparr>fed := [get_message], outbox := [Inr ?m]\<rparr>)" by (rule reach.move)
  have "session_step nan_actor ?P (?s\<lparr>fed := [get_message], outbox := [Inr ?m]\<rparr>) (?s\<lparr>fed := [get_message], send_ch := [?m]\<rparr>)"
    using session_step.put_send [of "?s\<lparr>fed := [get_message], outbox := [Inr ?m]\<rparr>" "[]" ?m "[]" nan_actor ?P]
    by (simp add: new_session_def)
  with 2 have 3: "?R (?s\<lparr>fed := [get_message], send_ch := [?m]\<rparr>)" by (rule reach.move)
  have nan: "MessageBytes ff ?m = Inl UnsupportedValue"
    by (simp add: MessageBytes_def Interface_def marshal_template_def)
  have "session_step nan_actor ?P (?s\<lparr>fed := [get_message], send_ch := [?m]\<rparr>) (?s\<lparr>fed := [get_message], send_on := False\<rparr>)"
    using session_step.send [of "?s\<lparr>fed := [get_message], send_ch := [?m]\<rparr>" nan_actor ?P "TakeMsg None"] nan
    by (simp add: new_session_def ws_protocol_def ws_sendLoop_def write_out_def MessageText_def)
  with 3 have 4: "?R (?s\<lparr>fed := [get_message], send_on := False\<rparr>)" by (rule reach.move)
  have "\<not> send_on s' \<and> out s' = []" if "(session_step nan_actor ?P)\<^sup>*\<^sup>* (?s\<lparr>fed := [get_message], send_on := False\<rparr>) s'" for s'
    by (rule stable_steps [OF that]) (simp add: new_session_def, metis stopped_step)
  then have "mute nan_actor ?P (?s\<lparr>fed := [get_message], send_on := False\<rparr>)" by (simp add: mute_def new_session_def)
  with 4 show ?thesis by blast
qed

end
