(* ===== verification/Sessions_Serial.thy ===== *)
theory Sessions_Serial
  imports Sessions_Props
begin

text \<open>
  What a session answers, and what its peer reads. Without \<open>SpawnGoroutine\<close> a session is a sequential server: the
  messages it has written, those in its channel and the one it is about to send are the answers to the messages it has
  received, in their order, each computed from the state the one before left. And whatever the mode, what
  the session has written is read by the peer as the messages it wrote.
  Both are proved for any server whose loops keep the laws of the locale \<open>session_protocol\<close>.
\<close>

section \<open>A sequential server\<close>

definition reply :: "(Message option \<times> goerr option) run \<Rightarrow> Message list" where
  "reply res = (case res of
      Panics p \<Rightarrow> []
    | Returns (resmsg, err) \<Rightarrow> (case err of Some e \<Rightarrow> [] | None \<Rightarrow> (case resmsg of None \<Rightarrow> [] | Some m \<Rightarrow> [m])))"

fun serve :: "struct_decoder \<Rightarrow> 'w Actor \<Rightarrow> string \<Rightarrow> go_context \<Rightarrow> string \<Rightarrow> Message list \<Rightarrow> 'w \<Rightarrow> Message list \<times> 'w" where
  "serve decode actor ttype ctx sid [] w = ([], w)"
| "serve decode actor ttype ctx sid (m # ms) w =
     (case Feed decode actor (session_request m ttype ctx sid) w of (res, w1) \<Rightarrow>
        (case serve decode actor ttype ctx sid ms w1 of (as, w2) \<Rightarrow> (reply res @ as, w2)))"

lemma serve_snoc:
  "serve decode actor ttype ctx sid ms w = (as, w1) \<Longrightarrow> Feed decode actor (session_request m ttype ctx sid) w1 = (res, w2) \<Longrightarrow>
   serve decode actor ttype ctx sid (ms @ [m]) w = (as @ reply res, w2)"
  by (induction ms arbitrary: w as) (auto simp del: Feed.simps split: prod.splits)

text \<open>The messages among what is about to be sent.\<close>

fun sends :: "(goerr option + Message) list \<Rightarrow> Message list" where
  "sends [] = []"
| "sends (Inl e # xs) = sends xs"
| "sends (Inr m # xs) = m # sends xs"

lemma sends_append [simp]: "sends (xs @ ys) = sends xs @ sends ys"
  by (induction xs rule: sends.induct) simp_all

section \<open>The laws of a protocol\<close>

definition same_answers :: "('m, 'w) session \<Rightarrow> ('m, 'w) session \<Rightarrow> bool" where
  "same_answers s s' = (app s' = app s \<and> fed s' = fed s \<and> SpawnGoroutine s' = SpawnGoroutine s \<and>
     closed s' = closed s \<and> sessionId s' = sessionId s \<and> rootCtx s' = rootCtx s \<and> pool s' = pool s \<and> crashed s' = crashed s)"

definition same_sent :: "('m, 'w) session \<Rightarrow> ('m, 'w) session \<Rightarrow> bool" where
  "same_sent s s' = (send_on s' = send_on s \<and> send_ch s' = send_ch s \<and> out s' = out s \<and> wire s' = wire s)"

text \<open>A turn of the send loop: nothing, the end of the loop, which may lose the message it took, or a message written.\<close>

definition send_turn :: "(Message \<Rightarrow> marshal_err + string) \<Rightarrow> ('m, 'w) session \<Rightarrow> ('m, 'w) session \<Rightarrow> bool" where
  "send_turn text_of s s' = (same_answers s s' \<and> outbox s' = outbox s \<and>
     (same_sent s s' \<or>
      \<not> send_on s' \<and> out s' = out s \<and> wire s' = wire s \<and> (\<exists>lost. send_ch s = lost @ send_ch s') \<or>
      (\<exists>m t. send_ch s = m # send_ch s' \<and> text_of m = Inr t \<and> out s' = out s @ [m] \<and> wire s' = wire s @ [t] \<and>
         send_on s' = send_on s)))"

locale session_protocol =
  fixes P :: "('m, 'f, 'w) protocol" and decode :: struct_decoder and actor :: "'w Actor" and ttype :: string
    and text_of :: "Message \<Rightarrow> marshal_err + string"
  assumes recv_serial: "\<not> SpawnGoroutine s \<Longrightarrow> outbox s = [] \<Longrightarrow>
      (\<exists>p. p_recv P f s = crash p s) \<or> (\<exists>m. p_recv P f s = feed_session decode actor ttype m s) \<or>
      same_answers s (p_recv P f s) \<and> sends (outbox (p_recv P f s)) = [] \<and> length (outbox (p_recv P f s)) \<le> 1"
    and recv_sent: "same_sent s (p_recv P f s)"
    and handle_sent: "same_sent s (p_handle P m s)"
    and send_turns: "send_turn text_of s (p_send P br s)"
    and wait_same: "same_answers s (p_after_wait P s) \<and> same_sent s (p_after_wait P s) \<and> outbox (p_after_wait P s) = outbox s"

section \<open>Answers in order\<close>

definition serial_init :: "go_context \<Rightarrow> string \<Rightarrow> 'w \<Rightarrow> ('m, 'w) session \<Rightarrow> bool" where
  "serial_init ctx sid w s = (s = new_session False ctx sid w)"

text \<open>The session has answered, or is about to answer, what it was given, as the sequential server does; when its send
  loop has stopped, some answers are lost behind those it wrote.\<close>

definition serial :: "struct_decoder \<Rightarrow> 'w Actor \<Rightarrow> string \<Rightarrow> 'w \<Rightarrow> ('m, 'w) session \<Rightarrow> bool" where
  "serial decode actor ttype w s =
     (\<exists>as lost. serve decode actor ttype (rootCtx s) (sessionId s) (fed s) w = (as, app s) \<and>
        out s @ lost @ send_ch s @ sends (outbox s) = as \<and> (send_on s \<longrightarrow> lost = []))"

definition undisturbed :: "('m, 'w) session \<Rightarrow> bool" where
  "undisturbed s = (crashed s = None \<and> \<not> closed s)"

definition serial_inv :: "struct_decoder \<Rightarrow> 'w Actor \<Rightarrow> string \<Rightarrow> 'w \<Rightarrow> ('m, 'w) session \<Rightarrow> bool" where
  "serial_inv decode actor ttype w s = (\<not> SpawnGoroutine s \<and> pool s = [] \<and> length (outbox s) \<le> 1 \<and>
     (undisturbed s \<longrightarrow> serial decode actor ttype w s))"

lemma same_sent_feed: "same_sent s (feed_session decode actor ttype m s)"
  by (auto simp: same_sent_def feed_session_def Let_def case_prod_unfold crash_def to_done_def Session_Send_def
      split: outcome.split option.split)

lemma feed_keeps:
  "SpawnGoroutine (feed_session decode actor ttype m s) = SpawnGoroutine s"
  "pool (feed_session decode actor ttype m s) = pool s" "sessionId (feed_session decode actor ttype m s) = sessionId s" "rootCtx (feed_session decode actor ttype m s) = rootCtx s"
  "closed (feed_session decode actor ttype m s) = closed s"
  "length (outbox (feed_session decode actor ttype m s)) \<le> Suc (length (outbox s))"
  by (auto simp: feed_session_def Let_def case_prod_unfold crash_def to_done_def Session_Send_def
      split: outcome.split option.split)

text \<open>A message that is handled without a panic.\<close>

lemma feed_effect:
  assumes "crashed (feed_session decode actor ttype m s) = None"
    and F: "Feed decode actor (session_request m ttype (rootCtx s) (sessionId s)) (app s) = (res, w')"
  shows "app (feed_session decode actor ttype m s) = w' \<and> fed (feed_session decode actor ttype m s) = fed s @ [m] \<and>
    sends (outbox (feed_session decode actor ttype m s)) = sends (outbox s) @ reply res \<and> crashed s = None"
proof -
  have srv: "server s" using assms(1) by (auto simp: feed_session_def crash_def split: if_splits)
  obtain rm err where res: "res = Returns (rm, err)"
    using assms srv by (cases res) (auto simp: feed_session_def Let_def crash_def split: prod.splits)
  then show ?thesis
    using assms srv by (auto simp: feed_session_def Let_def reply_def to_done_def Session_Send_def split: option.split)
qed

lemma serial_feed:
  assumes "serial_inv decode actor ttype w s" "outbox s = []"
  shows "serial_inv decode actor ttype w (feed_session decode actor ttype m s)"
proof -
  let ?s' = "feed_session decode actor ttype m s"
  have "serial decode actor ttype w ?s'" if u: "undisturbed ?s'"
  proof -
    obtain res w' where F: "Feed decode actor (session_request m ttype (rootCtx s) (sessionId s)) (app s) = (res, w')"
      by (cases "Feed decode actor (session_request m ttype (rootCtx s) (sessionId s)) (app s)")
    have e: "app ?s' = w'" "fed ?s' = fed s @ [m]" "sends (outbox ?s') = sends (outbox s) @ reply res" "crashed s = None"
      using feed_effect [OF _ F] u by (auto simp: undisturbed_def)
    then have "serial decode actor ttype w s"
      using assms(1) u by (simp add: serial_inv_def undisturbed_def feed_keeps)
    then obtain as lost where sv: "serve decode actor ttype (rootCtx s) (sessionId s) (fed s) w = (as, app s)"
      and as: "out s @ lost @ send_ch s @ sends (outbox s) = as" "send_on s \<longrightarrow> lost = []"
      unfolding serial_def by blast
    have q: "out ?s' = out s" "send_ch ?s' = send_ch s" "send_on ?s' = send_on s"
      using same_sent_feed [of s decode actor ttype m] by (simp_all add: same_sent_def)
    show ?thesis
      unfolding serial_def using serve_snoc [OF sv F] as e q
      by (intro exI [of _ "as @ reply res"] exI [of _ lost]) (auto simp: feed_keeps)
  qed
  then show ?thesis using assms feed_keeps [of decode actor ttype m s] by (simp add: serial_inv_def)
qed

lemma serial_same:
  assumes "serial_inv decode actor ttype w s" "same_answers s s'" "same_sent s s'"
    and "sends (outbox s') = sends (outbox s)" "length (outbox s') \<le> 1"
  shows "serial_inv decode actor ttype w s'"
  using assms by (simp add: serial_inv_def undisturbed_def serial_def same_answers_def same_sent_def)

lemma serial_send:
  assumes "serial_inv decode actor ttype w s" "send_turn text_of s s'" "send_on s"
  shows "serial_inv decode actor ttype w s'"
proof -
  have a: "same_answers s s'" "outbox s' = outbox s" using assms(2) by (simp_all add: send_turn_def)
  have "serial decode actor ttype w s'" if "serial decode actor ttype w s"
  proof -
    from that obtain as lost where sv: "serve decode actor ttype (rootCtx s) (sessionId s) (fed s) w = (as, app s)"
      "out s @ lost @ send_ch s @ sends (outbox s) = as" "send_on s \<longrightarrow> lost = []"
      unfolding serial_def by blast
    have eq: "serial decode actor ttype w s' \<longleftrightarrow>
        (\<exists>lost. out s' @ lost @ send_ch s' @ sends (outbox s) = as \<and> (send_on s' \<longrightarrow> lost = []))"
      using a sv(1) by (simp add: serial_def same_answers_def)
    from assms(2) consider (same) "same_sent s s'"
      | (stopped) xs where "\<not> send_on s'" "out s' = out s" "send_ch s = xs @ send_ch s'"
      | (sent) m where "send_ch s = m # send_ch s'" "out s' = out s @ [m]" "send_on s' = send_on s"
      unfolding send_turn_def by blast
    then show ?thesis
    proof cases
      case stopped
      then show ?thesis unfolding eq using sv by (intro exI [of _ "lost @ xs"]) auto
    next
      case sent
      then show ?thesis unfolding eq using sv assms(3) by (intro exI [of _ "[]"]) auto
    qed (use sv in \<open>auto simp: eq same_sent_def\<close>)
  qed
  then show ?thesis using assms(1) a by (simp add: serial_inv_def undisturbed_def same_answers_def)
qed

text \<open>Moving the entry of the outbox into the channel.\<close>

lemma serial_put:
  assumes "serial_inv decode actor ttype w s" "outbox s = xs @ Inr m # ys"
  shows "serial_inv decode actor ttype w (s\<lparr>outbox := xs @ ys, send_ch := send_ch s @ [m]\<rparr>)"
proof -
  have "xs = []" "ys = []" using assms by (auto simp: serial_inv_def)
  then show ?thesis using assms by (simp add: serial_inv_def undisturbed_def serial_def)
qed

context session_protocol
begin

lemma step_serial:
  assumes "session_step actor P s s'" "serial_inv decode actor ttype w s"
  shows "serial_inv decode actor ttype w s'"
  using assms(1)
proof cases
  case (recv f)
  have sync: "\<not> SpawnGoroutine s" "outbox s = []" using recv assms(2) by (auto simp: serial_inv_def)
  from recv_serial [OF this, of f] show ?thesis
  proof (elim disjE exE conjE)
    fix p assume "p_recv P f s = crash p s"
    then show ?thesis using assms(2) by (simp add: recv(1) crash_def serial_inv_def undisturbed_def)
  next
    fix m assume "p_recv P f s = feed_session decode actor ttype m s"
    then show ?thesis using serial_feed [OF assms(2) sync(2)] by (simp add: recv(1))
  next
    assume "same_answers s (p_recv P f s)" "sends (outbox (p_recv P f s)) = []" "length (outbox (p_recv P f s)) \<le> 1"
    then show ?thesis using serial_same [OF assms(2) _ recv_sent] sync(2) by (simp add: recv(1))
  qed
next
  case (put_done xs e ys)
  then show ?thesis
    using assms(2) by (auto simp: serial_inv_def undisturbed_def serial_def)
next
  case (put_send xs m ys)
  then show ?thesis using serial_put [OF assms(2)] by simp
next
  case (send br)
  then show ?thesis using serial_send [OF assms(2) send_turns] by simp
next
  case (wait_done e es)
  let ?s = "s\<lparr>done_ch := es\<rparr>"
  have "serial_inv decode actor ttype w ?s" using assms(2) by (simp add: serial_inv_def undisturbed_def serial_def)
  then show ?thesis using serial_same [of decode actor ttype w ?s s'] wait_same [of ?s] wait_done(1) by (simp add: serial_inv_def)
next
  case wait_ctx
  then show ?thesis using serial_same [OF assms(2), of s'] wait_same [of s] assms(2) by (simp add: serial_inv_def)
qed (use assms(2) in \<open>auto simp: serial_inv_def undisturbed_def serial_def\<close>)

lemma reachable_serial: "reach (serial_init ctx sid w) (session_step actor P) s \<Longrightarrow> serial_inv decode actor ttype w s"
proof (induction rule: reach.induct)
  case (start s)
  then show ?case by (simp add: serial_init_def new_session_def serial_inv_def serial_def)
next
  case (move s s')
  then show ?case using step_serial by blast
qed

lemma answers_serial:
  "reach (serial_init ctx sid w) (session_step actor P) s \<Longrightarrow> undisturbed s \<Longrightarrow> serial decode actor ttype w s"
  using reachable_serial unfolding serial_inv_def by blast

text \<open>What was written is the text of what was sent.\<close>

definition written_ok :: "('m, 'w) session \<Rightarrow> bool" where
  "written_ok s = list_all2 (\<lambda>m t. text_of m = Inr t) (out s) (wire s)"

lemma written_same: "same_sent s s' \<Longrightarrow> written_ok s \<Longrightarrow> written_ok s'"
  by (simp add: written_ok_def same_sent_def)

lemma step_written:
  assumes "session_step actor P s s'" "written_ok s"
  shows "written_ok s'"
  using assms(1)
proof cases
  case (recv f)
  then show ?thesis using written_same [OF recv_sent] assms(2) by simp
next
  case (handle ms m ms')
  then show ?thesis using written_same [OF handle_sent] assms(2) by (simp add: written_ok_def)
next
  case (send br)
  then show ?thesis
    using send_turns [of s br] assms(2) by (auto simp: send_turn_def written_ok_def same_sent_def list_all2_appendI)
next
  case (wait_done e es)
  then show ?thesis using written_same [of "s\<lparr>done_ch := es\<rparr>" s'] wait_same assms(2) by (simp add: written_ok_def)
next
  case wait_ctx
  then show ?thesis using written_same wait_same assms(2) by blast
qed (use assms(2) in \<open>auto simp: written_ok_def\<close>)

lemma reachable_written_ok: "reach session_init (session_step actor P) s \<Longrightarrow> written_ok s"
proof (induction rule: reach.induct)
  case (start s)
  then show ?case by (auto simp: session_init_def new_session_def written_ok_def)
next
  case (move s s')
  then show ?case using step_written by blast
qed

lemmas reachable_written = reachable_written_ok [unfolded written_ok_def]

end

section \<open>Both servers keep the laws\<close>

lemma same_refl [simp]: "same_answers s s" "same_sent s s"
  by (simp_all add: same_answers_def same_sent_def)

lemma write_turn:
  assumes "send_ch s = m # q"
  shows "send_turn text_of s (write_out (text_of m) m x (s\<lparr>send_ch := q\<rparr>))"
proof (cases "text_of m")
  case (Inl e)
  then show ?thesis using assms by (auto simp: write_out_def send_turn_def same_answers_def)
next
  case (Inr t)
  then show ?thesis using assms by (cases x) (auto simp: write_out_def send_turn_def same_answers_def)
qed

lemma done_same: "same_sent s (to_done e s)" "same_answers s (to_done e s)" "sends (outbox (to_done e s)) = sends (outbox s)"
  by (simp_all add: to_done_def same_sent_def same_answers_def)

interpretation ws_serial: session_protocol "ws_protocol ff decode actor" decode actor TransportWebsocket "MessageText ff"
proof
  fix s :: "(decoder, 'a) session" and f :: ws_frame and d :: decoder and br
  let ?P = "ws_protocol ff decode actor"
  have h: "(\<exists>p. ws_msgBytesReceived decode actor d s = crash p s) \<or>
      (\<exists>m. ws_msgBytesReceived decode actor d s = feed_session decode actor TransportWebsocket m s) \<or>
      (\<exists>e. ws_msgBytesReceived decode actor d s = to_done e s)" for d
    by (auto simp: ws_msgBytesReceived_def split: outcome.split sum.split)
  show hs: "same_sent s (p_handle ?P d s)" for d
    using h [of d] same_sent_feed [of s decode actor TransportWebsocket] done_same(1) [of s]
    by (auto simp: ws_protocol_def) (simp add: crash_def same_sent_def)
  show "same_sent s (p_recv ?P f s)"
    using hs by (auto simp: ws_protocol_def ws_recvLoop_def hand_on_def to_done_def crash_def same_sent_def split: ws_frame.split)
  show "(\<exists>p. p_recv ?P f s = crash p s) \<or> (\<exists>m. p_recv ?P f s = feed_session decode actor TransportWebsocket m s) \<or>
      same_answers s (p_recv ?P f s) \<and> sends (outbox (p_recv ?P f s)) = [] \<and> length (outbox (p_recv ?P f s)) \<le> 1"
    if "\<not> SpawnGoroutine s" "outbox s = []"
  proof (cases f)
    case (WsText d)
    then show ?thesis
      using h [of d] that by (auto simp: ws_protocol_def ws_recvLoop_def hand_on_def to_done_def same_answers_def)
  qed (use that in \<open>auto simp: ws_protocol_def ws_recvLoop_def to_done_def same_answers_def\<close>)
  show "send_turn (MessageText ff) s (p_send ?P br s)"
    using write_turn [of s]
    by (auto simp: ws_protocol_def ws_sendLoop_def send_turn_def same_answers_def split: branch.split list.split)
  show "same_answers s (p_after_wait ?P s) \<and> same_sent s (p_after_wait ?P s) \<and> outbox (p_after_wait ?P s) = outbox s"
    by (simp add: ws_protocol_def ws_after_wait_def same_answers_def same_sent_def)
qed

interpretation h2_serial: session_protocol "h2_protocol ff decode actor" decode actor TransportHTTP2 "h2_frame ff"
proof
  fix s :: "(Message, 'a) session" and d :: decoder and m :: Message and br
  let ?P = "h2_protocol ff decode actor"
  show "same_sent s (p_handle ?P m s)" by (simp add: h2_protocol_def h2_msgReceived_def same_sent_feed)
  show "same_sent s (p_recv ?P d s)"
    using same_sent_feed [of s]
    by (auto simp: h2_protocol_def h2_recvLoop_def hand_on_def h2_msgReceived_def to_done_def crash_def same_sent_def
        split: outcome.split sum.split)
  show "(\<exists>p. p_recv ?P d s = crash p s) \<or> (\<exists>m. p_recv ?P d s = feed_session decode actor TransportHTTP2 m s) \<or>
      same_answers s (p_recv ?P d s) \<and> sends (outbox (p_recv ?P d s)) = [] \<and> length (outbox (p_recv ?P d s)) \<le> 1"
    if "\<not> SpawnGoroutine s" "outbox s = []"
    using that by (auto simp: h2_protocol_def h2_recvLoop_def hand_on_def h2_msgReceived_def to_done_def same_answers_def
        split: outcome.split sum.split)
  show "send_turn (h2_frame ff) s (p_send ?P br s)"
    using write_turn [of s]
    by (auto simp: h2_protocol_def h2_sendLoop_def send_turn_def same_answers_def split: branch.split list.split)
  show "same_answers s (p_after_wait ?P s) \<and> same_sent s (p_after_wait ?P s) \<and> outbox (p_after_wait ?P s) = outbox s"
    by (simp add: h2_protocol_def h2_after_wait_def same_answers_def same_sent_def)
qed

section \<open>Properties\<close>


text \<open>An actor that answers one method, and a session in which a request has been read and is being answered.\<close>

definition yes_actor :: "unit Actor" where
  "yes_actor = Actor True True [(''get'', \<lparr>callback = \<lambda>req ps w. (Returns (RVal (VBool True), None), w), mh_schema = None\<rparr>)]
     None None []"

definition yes_result :: Message where
  "yes_result = MResult \<lparr>kind = MKResult, traceId = [], res_Id = VInt 1, res_Result = VBool True\<rparr>"

lemma feed_yes:
  "Feed decode yes_actor (session_request get_message ttype ctx sid) () = (Returns (Some yes_result, None), ())"
  by (simp add: yes_actor_def get_message_def session_request_def NewRPCRequest_def is_defs MustMethod_def MustParams_def
      call_handler_def recover_call_def wrapResult_def NewResultMessage_def MustId_def rawResultMessage_def TraceId_def
      yes_result_def)

definition answering :: "(Message, unit) session" where
  "answering = (new_session False [] ''s'' ())\<lparr>fed := [get_message], outbox := [Inr yes_result]\<rparr>"

lemma run_answering: "reach (serial_init [] ''s'' ()) (session_step yes_actor (h2_protocol ff decode yes_actor)) answering"
proof -
  let ?P = "h2_protocol ff decode yes_actor"
  have "reach (serial_init [] ''s'' ()) (session_step yes_actor ?P) (new_session False [] ''s'' ())"
    by (rule reach.start) (simp add: serial_init_def)
  moreover have "session_step yes_actor ?P (new_session False [] ''s'' ()) (p_recv ?P get_doc (new_session False [] ''s'' ()))"
    by (rule session_step.recv) (simp_all add: new_session_def)
  moreover have "p_recv ?P get_doc (new_session False [] ''s'' ()) = answering"
    by (simp add: h2_protocol_def h2_recvLoop_def decode_docs hand_on_def h2_msgReceived_def feed_session_def feed_yes
        Session_Send_def answering_def new_session_def del: Feed.simps)
  ultimately show ?thesis using reach.move by metis
qed


text \<open>The bytes of a stream.\<close>

lemma written_stream: "list_all2 (\<lambda>m t. h2_frame ff m = Inr t) ms ts \<Longrightarrow> concat ts = h2_written ff ms"
  by (induction rule: list_all2_induct) simp_all

lemma frames_parse:
  "list_all2 (\<lambda>m t. MessageText ff m = Inr t) ms ts \<Longrightarrow> list_all (travels ff) ms \<Longrightarrow>
   list_all2 (\<lambda>m t. ParseBytes json_scan t = Returns (Inr (wired_message ff m))) ms ts"
  by (induction rule: list_all2_induct) (use travels_text in fastforce)+

text \<open>C33: the peer of a session reads the messages the session wrote: each text frame of a websocket
  is parsed as the message it was made of, in the form \<open>wired_message\<close>, and the stream of an HTTP/2 response is read as
  all the messages, in order, and its end; whatever ran, as long as JSON can express the messages.\<close>

theorem peer_reads:
  "(\<forall>s. reach session_init (session_step actor (ws_protocol ff decode actor)) s \<and> list_all (travels ff) (out s) \<longrightarrow>
      list_all2 (\<lambda>m t. ParseBytes json_scan t = Returns (Inr (wired_message ff m))) (out s) (wire s)) \<and>
   (\<forall>s. reach session_init (session_step actor (h2_protocol ff decode actor)) s \<and> list_all (travels ff) (out s) \<longrightarrow>
      h2_read_all (json_scan (concat (wire s))) = (map (wired_message ff) (out s), Returns ErrEOF))"
proof (intro conjI allI impI; elim conjE)
  show "list_all2 (\<lambda>m t. ParseBytes json_scan t = Returns (Inr (wired_message ff m))) (out s) (wire s)"
    if "reach session_init (session_step actor (ws_protocol ff decode actor)) s" "list_all (travels ff) (out s)" for s
    using frames_parse [OF ws_serial.reachable_written [OF that(1)] that(2)] .
  show "h2_read_all (json_scan (concat (wire s))) = (map (wired_message ff) (out s), Returns ErrEOF)"
    if "reach session_init (session_step actor (h2_protocol ff decode actor)) s" "list_all (travels ff) (out s)" for s
    unfolding written_stream [OF h2_serial.reachable_written [OF that(1)]] by (rule stream_read [OF that(2)])
qed

text \<open>The session above when it has answered.\<close>

definition answered :: "(Message, unit) session" where
  "answered = h2_sendLoop (\<lambda>q. ''0'') (TakeMsg None) (answering\<lparr>outbox := [], send_ch := [yes_result]\<rparr>)"

lemma yes_sendable: "sendable (\<lambda>q. ''0'') yes_result"
proof -
  have "show_int 1 = ''1''" "valid_number ''1''" by code_simp+
  then show ?thesis
    by (simp add: yes_result_def sendable_def wire_message_def kind_ok_def msg_kind_def wire_id_def in_int64_def int64_min_def
        int64_max_def MessageBytes_def Interface_def marshal_template_def omit_empty_def max_depth_def byte_val_def)
qed

lemma run_yes_answered:
  "reach session_init (session_step yes_actor (h2_protocol (\<lambda>q. ''0'') decode yes_actor)) answered \<and> out answered = [yes_result]"
proof -
  let ?P = "h2_protocol (\<lambda>q. ''0'') decode yes_actor"
  let ?s = "answering\<lparr>outbox := [], send_ch := [yes_result]\<rparr>"
  have "reach session_init (session_step yes_actor ?P) answering"
    using run_answering [of "\<lambda>q. ''0''" decode]
    by (induction rule: reach.induct) (auto simp: serial_init_def session_init_def intro: reach.intros)
  moreover have "session_step yes_actor ?P answering ?s"
    using session_step.put_send [of answering "[]" yes_result "[]" yes_actor ?P]
    by (simp add: answering_def new_session_def)
  moreover have "session_step yes_actor ?P ?s answered"
    using session_step.send [of ?s yes_actor ?P "TakeMsg None"]
    by (simp add: answered_def h2_protocol_def answering_def new_session_def)
  ultimately have "reach session_init (session_step yes_actor ?P) answered" by (blast intro: reach.move)
  moreover obtain t where "h2_frame (\<lambda>q. ''0'') yes_result = Inr t"
    using sendable_text [OF yes_sendable] by (auto simp: h2_frame_def)
  then have "out answered = [yes_result]"
    by (simp add: answered_def h2_sendLoop_def write_out_def answering_def new_session_def)
  ultimately show ?thesis by blast
qed

theorem peer_reads_witness: "h2_read_all (json_scan (concat (wire answered))) = ([yes_result], Returns ErrEOF)"
  using peer_reads [THEN conjunct2, rule_format, of yes_actor "\<lambda>q. ''0''" "\<lambda>t. Inr []" answered]
    run_yes_answered [of "\<lambda>t. Inr []"] yes_sendable by simp

end
