(* ===== verification/Network.thy ===== *)
theory Network
  imports Streaming_Answers Sessions_Serial
begin

text \<open>
  A streaming client of \<^verbatim>\<open>http/streaming_client.go\<close> and the sessions of a server
  (\<^verbatim>\<open>http/ws_server.go\<close>, \<^verbatim>\<open>http/h2_server.go\<close>), joined by a network. The steps of the
  whole are the steps of the client and of the sessions, in any interleaving; a read of one side meets one of the texts
  that the other side has written, or an error, as the network likes: it may lose, repeat, reorder and delay texts, and
  the connections may fail and be made again. What the sides promise each other is the locale \<open>client_server\<close>, which
  joins the contract of a transport and that of a server's protocol.
\<close>

section \<open>The sessions\<close>

text \<open>A server protocol whose reads are answered by a network.\<close>

definition fed_by :: "('x \<Rightarrow> 'f) \<Rightarrow> ('m, 'f, 'w) protocol \<Rightarrow> ('m, 'x, 'w) protocol" where
  "fed_by d P = \<lparr>p_recv = (\<lambda>x. p_recv P (d x)), p_handle = p_handle P, p_send = p_send P, p_after_wait = p_after_wait P\<rparr>"

lemma fed_by_simps [simp]:
  "p_recv (fed_by d P) x = p_recv P (d x)" "p_handle (fed_by d P) = p_handle P" "p_send (fed_by d P) = p_send P"
  "p_after_wait (fed_by d P) = p_after_wait P"
  by (simp_all add: fed_by_def)

text \<open>What a session has taken in goes on as it would without the network.\<close>

lemma fed_step: "session_step actor (fed_by d P) s s' \<Longrightarrow> session_step actor P s s'"
  by (erule session_step.cases; simp only: fed_by_simps; blast intro: session_step.intros)

text \<open>\<open>m\<close> is the answer of the actor to \<open>q\<close>, from some state of the application.\<close>

definition answer_of :: "struct_decoder \<Rightarrow> 'w Actor \<Rightarrow> string \<Rightarrow> go_context \<Rightarrow> string \<Rightarrow> Message \<Rightarrow> Message \<Rightarrow> bool" where
  "answer_of decode actor ttype ctx sid q m =
     (\<exists>w w'. Feed decode actor (session_request q ttype ctx sid) w = (Returns (Some m, None), w'))"

definition served :: "struct_decoder \<Rightarrow> 'w Actor \<Rightarrow> string \<Rightarrow> ('m, 'w) session \<Rightarrow> bool" where
  "served decode actor ttype s = (\<forall>m \<in> set (out s @ send_ch s @ sends (outbox s)).
     \<exists>q \<in> set (fed s). answer_of decode actor ttype (rootCtx s) (sessionId s) q m)"

definition heard :: "('m \<Rightarrow> Message option) \<Rightarrow> Message set \<Rightarrow> ('m, 'w) session \<Rightarrow> bool" where
  "heard of_doc W s = (set (fed s) \<subseteq> W \<and> (\<forall>d \<in> set (pool s). set_option (of_doc d) \<subseteq> W))"

text \<open>What a session may do with a message of \<open>W\<close>, or with nothing: panic, feed it, hand it to a goroutine, go on.\<close>

definition intake :: "struct_decoder \<Rightarrow> 'w Actor \<Rightarrow> string \<Rightarrow> ('m \<Rightarrow> Message option) \<Rightarrow> Message option \<Rightarrow>
    ('m, 'w) session \<Rightarrow> ('m, 'w) session \<Rightarrow> bool" where
  "intake decode actor ttype of_doc mo s s' =
     ((\<exists>p. s' = crash p s) \<or>
      (\<exists>m. mo = Some m \<and> s' = feed_session decode actor ttype m s) \<or>
      (\<exists>d. set_option (of_doc d) \<subseteq> set_option mo \<and> s' = s\<lparr>pool := pool s @ [d]\<rparr>) \<or>
      same_answers s s' \<and> same_sent s s' \<and> sends (outbox s') = sends (outbox s))"

lemma same_served:
  "same_answers s s' \<Longrightarrow> same_sent s s' \<Longrightarrow> sends (outbox s') = sends (outbox s) \<Longrightarrow>
   (served decode actor ttype s' \<longleftrightarrow> served decode actor ttype s) \<and> (heard of_doc W s' \<longleftrightarrow> heard of_doc W s)"
  by (simp add: same_answers_def same_sent_def served_def heard_def)

lemma feed_served:
  assumes "served decode actor ttype s"
  shows "served decode actor ttype (feed_session decode actor ttype m s)"
proof (cases "Feed decode actor (session_request m ttype (rootCtx s) (sessionId s)) (app s)")
  case (Pair res w')
  have old: "\<exists>q \<in> set (fed s @ [m]). answer_of decode actor ttype (rootCtx s) (sessionId s) q x"
    if "x \<in> set (out s @ send_ch s @ sends (outbox s))" for x
    using assms that by (auto simp: served_def)
  have "answer_of decode actor ttype (rootCtx s) (sessionId s) m x" if "res = Returns (Some x, None)" for x
    using Pair that unfolding answer_of_def by blast
  then show ?thesis
    using old assms by (cases "server s") (auto simp: feed_session_def Pair Let_def served_def crash_def to_done_def
        Session_Send_def split: outcome.splits option.splits)
qed

lemma feed_heard: "heard of_doc W s \<Longrightarrow> m \<in> W \<Longrightarrow> heard of_doc W (feed_session decode actor ttype m s)"
  by (auto simp: feed_session_def Let_def heard_def crash_def to_done_def Session_Send_def case_prod_unfold
      split: outcome.splits option.splits)

lemma intake_served:
  assumes "intake decode actor ttype of_doc mo s s'" "served decode actor ttype s"
  shows "served decode actor ttype s'"
proof -
  from assms(1) consider (same) "same_answers s s'" "same_sent s s'" "sends (outbox s') = sends (outbox s)"
    | (crash) p where "s' = crash p s" | (fed) m where "s' = feed_session decode actor ttype m s"
    | (hand) d where "s' = s\<lparr>pool := pool s @ [d]\<rparr>"
    unfolding intake_def by blast
  then show ?thesis
  proof cases
    case same
    then show ?thesis using same_served assms(2) by blast
  next
    case fed
    then show ?thesis using feed_served [OF assms(2)] by simp
  qed (use assms(2) in \<open>simp_all add: served_def crash_def\<close>)
qed

lemma intake_heard:
  assumes "intake decode actor ttype of_doc mo s s'" "heard of_doc W s" "set_option mo \<subseteq> W"
  shows "heard of_doc W s'"
proof -
  from assms(1) consider (same) "same_answers s s'" "same_sent s s'" "sends (outbox s') = sends (outbox s)"
    | (crash) p where "s' = crash p s" | (fed) m where "mo = Some m" "s' = feed_session decode actor ttype m s"
    | (hand) d where "set_option (of_doc d) \<subseteq> set_option mo" "s' = s\<lparr>pool := pool s @ [d]\<rparr>"
    unfolding intake_def by blast
  then show ?thesis
  proof cases
    case same
    then show ?thesis using same_served [OF same] assms(2) by blast
  next
    case fed
    then show ?thesis using feed_heard [OF assms(2)] assms(3) by simp
  qed (use assms(2,3) in \<open>auto simp: heard_def crash_def\<close>)
qed

lemma send_turn_served:
  assumes "send_turn text_of s s'" "served decode actor ttype s" "heard of_doc W s"
  shows "served decode actor ttype s' \<and> heard of_doc W s'"
proof -
  have "set (out s' @ send_ch s') \<subseteq> set (out s @ send_ch s)"
    using assms(1) unfolding send_turn_def same_sent_def by fastforce
  then show ?thesis
    using assms by (auto simp: send_turn_def same_answers_def served_def heard_def)
qed

section \<open>The network\<close>

text \<open>A link: what the two sides are, and what a read of a side meets when the network gives it the \<open>k\<close>-th of the
  texts the other side has written, or an error.\<close>

record ('t, 'd, 'r, 'y, 'm, 'f, 'w) link =
  l_transport :: "('t, 'd, 'r, 'y) Transport"
  l_protocol :: "('m, 'f, 'w) protocol"
  l_actor :: "'w Actor"
  l_text :: "Message \<Rightarrow> marshal_err + string"
  l_down :: "string list \<Rightarrow> net_err + nat \<Rightarrow> 'r"
  l_up :: "string list \<Rightarrow> net_err + nat \<Rightarrow> 'f"

definition texts :: "(Message \<Rightarrow> marshal_err + string) \<Rightarrow> Message list \<Rightarrow> string list" where
  "texts text_of ms = concat (map (\<lambda>m. case text_of m of Inl e \<Rightarrow> [] | Inr t \<Rightarrow> [t]) ms)"

record ('t, 'm, 'w) network =
  nw_client :: "'t client"
  nw_sessions :: "('m, 'w) session list"

text \<open>A step of the client, whose reads are answered from what one of the sessions has written; a step of a session,
  whose reads are answered from what the client has written; a new session; a change of the application's state by
  what else the server does.\<close>

inductive net_step :: "('t, 'd, 'r, 'y, 'm, 'f, 'w) link \<Rightarrow> ('t, 'm, 'w) network \<Rightarrow> ('t, 'm, 'w) network \<Rightarrow> bool"
  for L :: "('t, 'd, 'r, 'y, 'm, 'f, 'w) link" where
  client: "ts = [] \<or> ts \<in> wire ` set (nw_sessions n) \<Longrightarrow> step (hears (l_down L ts) (l_transport L)) (nw_client n) c' \<Longrightarrow>
    net_step L n (n\<lparr>nw_client := c'\<rparr>)"
| server: "i < length (nw_sessions n) \<Longrightarrow>
    session_step (l_actor L) (fed_by (l_up L (texts (l_text L) (written (nw_client n)))) (l_protocol L))
      (nw_sessions n ! i) s' \<Longrightarrow>
    net_step L n (n\<lparr>nw_sessions := (nw_sessions n)[i := s']\<rparr>)"
| accept: "net_step L n (n\<lparr>nw_sessions := nw_sessions n @ [new_session spawn ctx sid w]\<rparr>)"
| work: "i < length (nw_sessions n) \<Longrightarrow>
    net_step L n (n\<lparr>nw_sessions := (nw_sessions n)[i := (nw_sessions n ! i)\<lparr>app := w\<rparr>]\<rparr>)"

definition net_init :: "('t, 'd, 'r, 'y, 'm, 'f, 'w) link \<Rightarrow> ('t, 'm, 'w) network \<Rightarrow> bool" where
  "net_init L n = (client_init (l_transport L) (nw_client n) \<and> nw_sessions n = [])"

text \<open>JSON can express the messages that are written.\<close>

definition all_travel :: "(rat \<Rightarrow> string) \<Rightarrow> ('t, 'm, 'w) network \<Rightarrow> bool" where
  "all_travel ff n = (list_all (travels ff) (written (nw_client n)) \<and>
     (\<forall>s \<in> set (nw_sessions n). list_all (travels ff) (out s)))"

text \<open>The messages the sessions have written.\<close>

definition outs :: "('t, 'm, 'w) network \<Rightarrow> Message set" where
  "outs n = (\<Union>s \<in> set (nw_sessions n). set (out s))"

lemma set_upd: "i < length xs \<Longrightarrow> x \<in> set (xs[i := y]) \<Longrightarrow> x = y \<or> x \<in> set xs"
  by (meson insertE set_update_subset_insert subsetD)

lemma set_upd_all: "i < length xs \<Longrightarrow> (\<And>x. x \<in> set xs \<Longrightarrow> Q x) \<Longrightarrow> Q y \<Longrightarrow> x \<in> set (xs[i := y]) \<Longrightarrow> Q x"
  using set_upd by metis

locale client_server = transport "l_transport L" ok + session_protocol "l_protocol L" decode "l_actor L" ttype "l_text L"
  for L :: "('t, 'd, 'r, 'y, 'm, 'f, 'w) link" and ok :: "'t \<Rightarrow> bool" and decode :: struct_decoder and ttype :: string +
  fixes ff :: "rat \<Rightarrow> string" and of_doc :: "'m \<Rightarrow> Message option" and of_frame :: "'f \<Rightarrow> Message option"
  assumes recv_intake: "intake decode (l_actor L) ttype of_doc (of_frame f) s (p_recv (l_protocol L) f s)"
    and handle_intake: "intake decode (l_actor L) ttype of_doc (of_doc d) s (p_handle (l_protocol L) d s)"
    and has_text: "travels ff m \<Longrightarrow> \<exists>t. l_text L m = Inr t"
    and down_reads: "list_all2 (\<lambda>m t. l_text L m = Inr t) ms ts \<Longrightarrow> list_all (travels ff) ms \<Longrightarrow>
      tReadMessage (l_transport L) (l_down L ts x) t = Returns res \<Longrightarrow> reads_from (wired_message ff ` set ms) res"
    and up_reads: "list_all2 (\<lambda>m t. l_text L m = Inr t) ms ts \<Longrightarrow> list_all (travels ff) ms \<Longrightarrow>
      set_option (of_frame (l_up L ts x)) \<subseteq> wired_message ff ` set ms"
begin

lemma texts_of: "list_all (travels ff) ms \<Longrightarrow> list_all2 (\<lambda>m t. l_text L m = Inr t) ms (texts (l_text L) ms)"
proof (induction ms)
  case (Cons m ms)
  then obtain t where "l_text L m = Inr t" using has_text by auto
  then show ?case using Cons by (simp add: texts_def)
qed (simp add: texts_def)

text \<open>A session answers what it was given.\<close>

lemma step_served:
  assumes "session_step (l_actor L) (fed_by d (l_protocol L)) s s'" "served decode (l_actor L) ttype s"
  shows "served decode (l_actor L) ttype s'"
  using assms(1)
proof cases
  case (recv x)
  then show ?thesis using intake_served [OF recv_intake assms(2)] by simp
next
  case (handle ms m ms')
  have "served decode (l_actor L) ttype (s\<lparr>pool := ms @ ms'\<rparr>)" using assms(2) by (simp add: served_def)
  then show ?thesis using intake_served [OF handle_intake] handle(1) by simp
next
  case (send br)
  then show ?thesis using send_turn_served [OF send_turns assms(2), where W = UNIV] by (auto simp: heard_def)
next
  case (wait_done e es)
  have "served decode (l_actor L) ttype (s\<lparr>done_ch := es\<rparr>)" using assms(2) by (simp add: served_def)
  then show ?thesis using same_served wait_same [of "s\<lparr>done_ch := es\<rparr>"] wait_done(1) by fastforce
next
  case wait_ctx
  then show ?thesis using same_served wait_same [of s] assms(2) by fastforce
qed (use assms(2) in \<open>auto simp: served_def\<close>)

lemma step_heard:
  assumes "session_step (l_actor L) (fed_by d (l_protocol L)) s s'" "heard of_doc W s"
    and "\<And>x. set_option (of_frame (d x)) \<subseteq> W"
  shows "heard of_doc W s'"
  using assms(1)
proof cases
  case (recv x)
  then show ?thesis using intake_heard [OF recv_intake assms(2,3)] by simp
next
  case (handle ms m ms')
  have "heard of_doc W (s\<lparr>pool := ms @ ms'\<rparr>)" "set_option (of_doc m) \<subseteq> W"
    using assms(2) handle by (auto simp: heard_def)
  then show ?thesis using intake_heard [OF handle_intake] handle(1) by simp
next
  case (send br)
  then show ?thesis using send_turns [of s br] assms(2) by (auto simp: send_turn_def same_answers_def heard_def)
next
  case (wait_done e es)
  then show ?thesis using wait_same [of "s\<lparr>done_ch := es\<rparr>"] assms(2) by (auto simp: same_answers_def heard_def)
next
  case wait_ctx
  then show ?thesis using wait_same [of s] assms(2) by (auto simp: same_answers_def heard_def)
qed (use assms(2) in \<open>auto simp: heard_def\<close>)

lemma step_out:
  assumes "session_step (l_actor L) P s s'" "P = fed_by d (l_protocol L)"
  shows "\<exists>xs. out s' = out s @ xs"
  using assms(1)
proof cases
  case (recv x)
  then show ?thesis using recv_sent [of s "d x"] assms(2) by (simp add: same_sent_def)
next
  case (handle ms m ms')
  then show ?thesis using handle_sent [of "s\<lparr>pool := ms @ ms'\<rparr>" m] assms(2) by (simp add: same_sent_def)
next
  case (send br)
  then show ?thesis using send_turns [of s br] assms(2) by (auto simp: send_turn_def same_sent_def)
next
  case (wait_done e es)
  then show ?thesis using wait_same [of "s\<lparr>done_ch := es\<rparr>"] assms(2) by (simp add: same_sent_def)
next
  case wait_ctx
  then show ?thesis using wait_same [of s] assms(2) by (simp add: same_sent_def)
qed simp_all

text \<open>Every step lets what was written grow.\<close>

lemma net_grows:
  assumes "net_step L n n'"
  shows "\<exists>xs. written (nw_client n') = written (nw_client n) @ xs"
    and "s \<in> set (nw_sessions n) \<Longrightarrow> \<exists>s' xs. s' \<in> set (nw_sessions n') \<and> out s' = out s @ xs"
proof -
  show "\<exists>xs. written (nw_client n') = written (nw_client n) @ xs"
    using assms by cases (auto dest!: hears_step step_writes)
  assume "s \<in> set (nw_sessions n)"
  then obtain j where j: "j < length (nw_sessions n)" "s = nw_sessions n ! j" by (auto simp: in_set_conv_nth)
  have at: "\<exists>s' xs. s' \<in> set ((nw_sessions n)[i := y]) \<and> out s' = out s @ xs"
    if "i < length (nw_sessions n)" "\<exists>xs. out y = out (nw_sessions n ! i) @ xs" for i y
    using that j by (cases "i = j") (fastforce intro: set_update_memI, metis append_Nil2 length_list_update nth_list_update_neq nth_mem)
  show "\<exists>s' xs. s' \<in> set (nw_sessions n') \<and> out s' = out s @ xs"
    using assms
  proof cases
    case (server i s')
    then show ?thesis using at [of i s'] step_out [OF server(3) refl] by auto
  next
    case (work i w)
    then show ?thesis using at [of i "(nw_sessions n ! i)\<lparr>app := w\<rparr>"] by auto
  next
    case client
    then show ?thesis using \<open>s \<in> set (nw_sessions n)\<close> by (intro exI [of _ s] exI [of _ "[]"]) simp
  next
    case accept
    then show ?thesis using \<open>s \<in> set (nw_sessions n)\<close> by (intro exI [of _ s] exI [of _ "[]"]) simp
  qed
qed

lemma travel_before: "net_step L n n' \<Longrightarrow> all_travel ff n' \<Longrightarrow> all_travel ff n"
  unfolding all_travel_def using net_grows by (metis list_all_append)

lemma outs_grow: "net_step L n n' \<Longrightarrow> outs n \<subseteq> outs n'"
  unfolding outs_def using net_grows(2) by fastforce

text \<open>The invariants, first those that hold whatever is sent.\<close>

definition net_ok :: "('t, 'm, 'w) network \<Rightarrow> bool" where
  "net_ok n = (reachable (l_transport L) (nw_client n) \<and>
     (\<forall>s \<in> set (nw_sessions n). written_ok s \<and> served decode (l_actor L) ttype s))"

lemma net_reachable_ok: "reach (net_init L) (net_step L) n \<Longrightarrow> net_ok n"
proof (induction rule: reach.induct)
  case (start n)
  then show ?case by (simp add: net_init_def net_ok_def reach.start)
next
  case (move n n')
  from move.hyps(2) show ?case
  proof cases
    case (client ts c')
    have "reachable (l_transport L) (nw_client n)" using move.IH by (simp add: net_ok_def)
    then have "reachable (l_transport L) c'" by (rule reach.move) (rule hears_step [OF client(3)])
    then show ?thesis using move.IH by (simp add: client(1) net_ok_def)
  next
    case (server i s')
    have "written_ok (nw_sessions n ! i)" "served decode (l_actor L) ttype (nw_sessions n ! i)"
      using server(2) move.IH by (simp_all add: net_ok_def)
    then have "written_ok s'" "served decode (l_actor L) ttype s'"
      using step_written [OF fed_step [OF server(3)]] step_served [OF server(3)] by blast+
    then show ?thesis using move.IH set_upd_all [OF server(2)] by (auto simp: server(1) net_ok_def)
  next
    case (accept spawn sid w)
    then show ?thesis using move.IH by (auto simp: net_ok_def new_session_def written_ok_def served_def)
  next
    case (work i w)
    let ?s = "nw_sessions n ! i"
    have "written_ok ?s" "served decode (l_actor L) ttype ?s" using move.IH work(2) by (auto simp: net_ok_def)
    then have "written_ok (?s\<lparr>app := w\<rparr>)" "served decode (l_actor L) ttype (?s\<lparr>app := w\<rparr>)"
      by (simp_all add: written_ok_def served_def)
    then show ?thesis using move.IH set_upd_all [OF work(2)] by (auto simp: work(1) net_ok_def)
  qed
qed

text \<open>Each side hears what the other side said, in the form it is read.\<close>

definition hearing :: "('t, 'm, 'w) network \<Rightarrow> bool" where
  "hearing n = (loops_hold (reads_from (wired_message ff ` outs n)) (nw_client n) \<and>
     (\<forall>s \<in> set (nw_sessions n). heard of_doc (wired_message ff ` set (written (nw_client n))) s))"

lemma heard_mono: "heard d V s \<Longrightarrow> V \<subseteq> W \<Longrightarrow> heard d W s"
  unfolding heard_def by blast

lemma down_from:
  assumes "net_ok n" "all_travel ff n" "ts = [] \<or> ts \<in> wire ` set (nw_sessions n)"
    and "tReadMessage (hears (l_down L ts) (l_transport L)) x t = Returns res"
  shows "reads_from (wired_message ff ` outs n) res"
proof -
  obtain ms where ms: "list_all2 (\<lambda>m t. l_text L m = Inr t) ms ts" "list_all (travels ff) ms" "set ms \<subseteq> outs n"
  proof (cases "ts = []")
    case False
    then obtain s where "s \<in> set (nw_sessions n)" "ts = wire s" using assms(3) by blast
    then show ?thesis
      using that [of "out s"] assms(1,2) by (auto simp: net_ok_def all_travel_def outs_def written_ok_def)
  qed (use that [of "[]"] in simp)
  show ?thesis
    using down_reads [OF ms(1,2)] assms(4) ms(3) unfolding reads_from_def by fastforce
qed

lemma step_hearing:
  assumes "net_step L n n'" "net_ok n" "all_travel ff n" "hearing n"
  shows "hearing n'"
proof -
  have held: "loops_hold (reads_from (wired_message ff ` outs n')) (nw_client n)"
    by (rule got_mono(2) [OF image_mono [OF outs_grow [OF assms(1)]]]) (use assms(4) in \<open>simp add: hearing_def\<close>)
  show ?thesis
  using assms(1)
proof cases
  case (client ts c')
  have "loops_hold (reads_from (wired_message ff ` outs n)) c'"
  proof (rule step_hold [OF client(3)])
    show "reads_from (wired_message ff ` outs n) res"
      if "tReadMessage (hears (l_down L ts) (l_transport L)) r (cl_transport (nw_client n)) = Returns res" for r res
      by (rule down_from [OF assms(2,3) client(2) that])
  qed (use assms(4) in \<open>simp add: hearing_def\<close>)
  moreover obtain xs where "written c' = written (nw_client n) @ xs" using step_writes [OF hears_step [OF client(3)]] by blast
  ultimately show ?thesis
    using assms(4) by (auto simp: client(1) hearing_def outs_def intro: heard_mono)
next
  case (server i s')
  have w: "set_option (of_frame (l_up L (texts (l_text L) (written (nw_client n))) x)) \<subseteq> wired_message ff ` set (written (nw_client n))" for x
    using assms(3) by (intro up_reads texts_of) (simp_all add: all_travel_def)
  have "heard of_doc (wired_message ff ` set (written (nw_client n))) s'"
    using step_heard [OF server(3) _ w] assms(4) server(2) by (simp add: hearing_def)
  then show ?thesis
    using held assms(4) set_upd_all [OF server(2)] by (auto simp: server(1) hearing_def)
next
  case (accept spawn sid w)
  show ?thesis using held assms(4) by (auto simp: accept hearing_def heard_def new_session_def)
next
  case (work i w)
  have "heard of_doc (wired_message ff ` set (written (nw_client n))) (nw_sessions n ! i)"
    using assms(4) work(2) by (simp add: hearing_def)
  then have "heard of_doc (wired_message ff ` set (written (nw_client n))) ((nw_sessions n ! i)\<lparr>app := w\<rparr>)"
    by (simp add: heard_def)
  then show ?thesis using held assms(4) set_upd_all [OF work(2)] by (auto simp: work(1) hearing_def)
qed
qed

lemma net_hearing: "reach (net_init L) (net_step L) n \<Longrightarrow> all_travel ff n \<Longrightarrow> hearing n"
proof (induction rule: reach.induct)
  case (start n)
  then show ?case by (auto simp: net_init_def hearing_def client_init_def InitStreaming_def loops_hold_def)
next
  case (move n n')
  then show ?case using step_hearing [OF move.hyps(2) net_reachable_ok] travel_before by blast
qed

text \<open>With distinct ids, every answer is a timeout or a message a session has written, as it is read.\<close>

lemma net_got:
  "reach (net_init L) (net_step L) n \<Longrightarrow> all_travel ff n \<Longrightarrow> distinct_ids (nw_client n) \<Longrightarrow>
   all_got (wired_message ff ` outs n) (callers (nw_client n))"
proof (induction rule: reach.induct)
  case (start n)
  then show ?case by (auto simp: net_init_def client_init_def InitStreaming_def all_got_def)
next
  case (move n n')
  have s: "all_travel ff n" using travel_before move by blast
  have r: "reachable (l_transport L) (nw_client n)" using net_reachable_ok [OF move.hyps(1)] by (simp add: net_ok_def)
  have h: "loops_hold (reads_from (wired_message ff ` outs n)) (nw_client n)" using net_hearing [OF move.hyps(1) s] by (simp add: hearing_def)
  from move.hyps(2) have "all_got (wired_message ff ` outs n) (callers (nw_client n'))"
  proof cases
    case (client ts c')
    have st: "step (l_transport L) (nw_client n) c'" using hears_step client(3) .
    have d: "distinct_ids (nw_client n)" using grow_distinct [OF step_grow [OF st]] move.prems(2) client(1) by simp
    show ?thesis
      using step_got [OF st _ _ reachable_alive [OF r d] h] reachable_ok [OF r] move.IH [OF s d] client(1) by simp
  qed (use move.IH [OF s] move.prems(2) in simp_all)
  then show ?case using got_mono(1) image_mono [OF outs_grow [OF move.hyps(2)]] by blast
qed

lemma call_answer:
  assumes "reach (net_init L) (net_step L) n" "all_travel ff n" "distinct_ids (nw_client n)"
    and "callers (nw_client n) k = Some ca" "ca_phase ca = Returned m" "m \<noteq> timeout_for (ca_req ca)"
  shows "MustId m = Returns (req_Id (ca_req ca))"
    and "\<exists>s \<in> set (nw_sessions n). \<exists>m0 \<in> set (out s). m = wired_message ff m0 \<and> (\<exists>q \<in> set (written (nw_client n)).
      wired_message ff q \<in> set (fed s) \<and> travels ff q \<and>
      answer_of decode (l_actor L) ttype (rootCtx s) (sessionId s) (wired_message ff q) m0)"
proof -
  have ok: "net_ok n" "hearing n" using net_reachable_ok net_hearing assms(1,2) by blast+
  have "client_ok (nw_client n)" using reachable_ok ok(1) by (simp add: net_ok_def)
  then show "MustId m = Returns (req_Id (ca_req ca))"
    using client_caller [OF _ assms(4)] assms(5) by (simp add: caller_ok_def answer_to_def)
  have "m \<in> wired_message ff ` outs n"
    using net_got [OF assms(1-3)] assms(4-6) unfolding all_got_def got_def by blast
  then obtain s m0 where s: "s \<in> set (nw_sessions n)" "m0 \<in> set (out s)" "m = wired_message ff m0" unfolding outs_def by blast
  then obtain q where q: "q \<in> set (fed s)" "answer_of decode (l_actor L) ttype (rootCtx s) (sessionId s) q m0"
    using ok(1) by (auto simp: net_ok_def served_def)
  obtain q0 where "q0 \<in> set (written (nw_client n))" "q = wired_message ff q0"
    using ok(2) s(1) q(1) by (auto simp: hearing_def heard_def)
  then show "\<exists>s \<in> set (nw_sessions n). \<exists>m0 \<in> set (out s). m = wired_message ff m0 \<and> (\<exists>q \<in> set (written (nw_client n)).
      wired_message ff q \<in> set (fed s) \<and> travels ff q \<and>
      answer_of decode (l_actor L) ttype (rootCtx s) (sessionId s) (wired_message ff q) m0)"
    using s q assms(2) by (auto simp: all_travel_def list_all_iff)
qed

end

section \<open>The answer to a call is the answer to that call\<close>

text \<open>No handler of the actor returns a message of its own, which would go out under an id of its own.\<close>

definition plain_actor :: "'w Actor \<Rightarrow> bool" where
  "plain_actor a =
     ((\<forall>meth v r h req params w. resolve a meth = Some (v, r, h) \<longrightarrow>
         returns_own (\<lambda>m. False) (fst (callback h req params w))) \<and>
      (\<forall>h req w. missingHandler a = Some h \<longrightarrow> returns_own (\<lambda>m. False) (fst (h req w))))"

lemma plain_answer:
  assumes "plain_actor a" "kind_ok q" "answer_of decode a ttype ctx sid q m"
  shows "IsRequest q \<and> answers q m"
proof -
  let ?r = "session_request q ttype ctx sid"
  have r: "rq_msg ?r = q" by (simp add: session_request_def NewRPCRequest_def)
  obtain w w' where F: "Feed decode a ?r w = (Returns (Some m, None), w')" using assms(3) by (auto simp: answer_of_def)
  have "fed_ok (\<lambda>m. False) q (Some m, None)"
  proof (cases "IsRequestOrNotify q")
    case True
    then have "\<exists>meth params. is_call q meth params"
      using assms(2) by (cases q) (auto simp: is_call_def kind_ok_def is_defs must_defs kinds msg_kind_def)
    then obtain meth params where c: "is_call (rq_msg ?r) meth params" unfolding r by blast
    have "case callee a meth params ?r w of None \<Rightarrow> True | Some o1 \<Rightarrow> returns_own (\<lambda>m. False) o1"
      using assms(1) by (auto simp: plain_actor_def callee_def split: option.splits)
    from feed_fed_ok [OF _ c this, of decode] assms(2) show ?thesis by (simp add: r F)
  next
    case False
    obtain v rc hs mi cl cs where a: "a = Actor v rc hs mi cl cs" by (cases a)
    then obtain h res err w1 where h: "mi = Some h" "h ?r w = (Returns (res, err), w1)" "wrapResult res err q = Returns (Some m, None)"
      using F False by (auto simp: r split: option.splits prod.splits outcome.splits)
    have "returns_own (\<lambda>m. False) (fst (h ?r w))" using assms(1) a h(1) by (simp add: plain_actor_def)
    then have "case (res, err) of (RMsg m, None) \<Rightarrow> False | _ \<Rightarrow> True"
      by (auto simp: h(2) returns_own_def split: reply.split option.split)
    from wrapResult_ok [OF assms(2) this] show ?thesis using h(3) by simp
  qed
  then show ?thesis by (simp add: fed_ok_def)
qed

text \<open>The only request the client has written whose id is read as the id of \<open>r\<close> is \<open>r\<close>.\<close>

definition only_request :: "(rat \<Rightarrow> string) \<Rightarrow> 't client \<Rightarrow> RequestMessage \<Rightarrow> bool" where
  "only_request ff c r = (\<forall>q \<in> set (written c). IsRequest q \<and> MustId (wired_message ff q) = Returns (req_Id r) \<longrightarrow> q = MRequest r)"

text \<open>The call of \<open>r\<close> that returned \<open>m\<close> timed out, or a session was given \<open>r\<close> as it is read and wrote the actor's
  answer to it, which is read as \<open>m\<close>.\<close>

definition served_call :: "(rat \<Rightarrow> string) \<Rightarrow> struct_decoder \<Rightarrow> 'w Actor \<Rightarrow> string \<Rightarrow> ('t, 'm, 'w) network \<Rightarrow> RequestMessage \<Rightarrow> Message \<Rightarrow> bool" where
  "served_call ff decode actor ttype n r m = (m = timeout_for r \<or>
     (\<exists>s \<in> set (nw_sessions n). \<exists>m0 \<in> set (out s). m = wired_message ff m0 \<and> wired_message ff (MRequest r) \<in> set (fed s) \<and>
        answer_of decode actor ttype (rootCtx s) (sessionId s) (wired_message ff (MRequest r)) m0))"

definition good_run :: "(rat \<Rightarrow> string) \<Rightarrow> ('t, 'm, 'w) network \<Rightarrow> bool" where
  "good_run ff n = (all_travel ff n \<and> distinct_ids (nw_client n))"

lemma wired_kinds [simp]: "IsRequest (wired_message ff q) \<longleftrightarrow> IsRequest q"
  by (cases q) (simp_all add: wired_message_def Let_def IsRequest_def msg_kind_def)

lemma wired_answer_id:
  assumes "travels ff q" "IsRequest q" "answers (wired_message ff q) m"
  shows "MustId (wired_message ff m) = MustId (wired_message ff q)"
proof -
  have q: "wire_message (wired_message ff q)" "IsRequest (wired_message ff q)" using assms(1,2) by (simp_all add: travels_def sendable_def)
  obtain r where r: "wired_message ff q = MRequest r"
    using q by (cases "wired_message ff q") (auto simp: wire_message_def kind_ok_def IsRequest_def msg_kind_def kinds)
  then have "wired_id (req_Id r) = req_Id r"
    using q(1) by (auto simp: wire_message_def wire_id_def wired_id_def split: gval.splits)
  moreover have "MustId (wired_message ff m) = map_outcome (\<lambda>p. p) wired_id (MustId m)"
    by (cases m) (simp_all add: MustId_def wired_message_def Let_def)
  ultimately show ?thesis using assms(3) by (simp add: answers_def r MustId_def)
qed

context client_server
begin

lemma returned_served:
  assumes "reach (net_init L) (net_step L) n" "good_run ff n" "plain_actor (l_actor L)"
    and "callers (nw_client n) k = Some ca" "ca_phase ca = Returned m" "only_request ff (nw_client n) (ca_req ca)"
  shows "served_call ff decode (l_actor L) ttype n (ca_req ca) m"
proof (cases "m = timeout_for (ca_req ca)")
  case False
  have g: "all_travel ff n" "distinct_ids (nw_client n)" using assms(2) by (simp_all add: good_run_def)
  note c = call_answer [OF assms(1) g assms(4,5) False]
  from c(2) obtain s q m0 where q: "s \<in> set (nw_sessions n)" "m0 \<in> set (out s)" "m = wired_message ff m0"
      "wired_message ff q \<in> set (fed s)" "q \<in> set (written (nw_client n))" "travels ff q"
      "answer_of decode (l_actor L) ttype (rootCtx s) (sessionId s) (wired_message ff q) m0"
    by blast
  have "kind_ok (wired_message ff q)" using q(6) by (simp add: travels_def sendable_def wire_message_def)
  then have "IsRequest q" "answers (wired_message ff q) m0"
    using plain_answer [OF assms(3) _ q(7)] by simp_all
  then have "q = MRequest (ca_req ca)"
    using assms(6) q(5) wired_answer_id [OF q(6)] c(1) unfolding only_request_def q(3) by metis
  then show ?thesis using q unfolding served_call_def by blast
qed (simp add: served_call_def)

end

end
