(* ===== verification/Network_Props.thy ===== *)
theory Network_Props
  imports Network Streaming_Props
begin

text \<open>
  Websocket and HTTP/2 connections as networks between a streaming client and the sessions of a server, and what a
  caller of \<open>Call\<close> gets at the end: the answer of the server's actor to its own request.
\<close>

section \<open>Websockets and HTTP/2\<close>

text \<open>The \<open>k\<close>-th text comes as the \<open>k\<close>-th frame, or as the rest of a stream from its start on.\<close>

definition ws_deliver :: "string list \<Rightarrow> net_err + nat \<Rightarrow> ws_frame" where
  "ws_deliver ts x = (case x of
      Inl e \<Rightarrow> WsError e
    | Inr k \<Rightarrow> if k < length ts then WsText (json_scan (ts ! k)) else WsError NetClosed)"

definition h2_rest :: "string list \<Rightarrow> net_err + nat \<Rightarrow> decoder" where
  "h2_rest ts x = (case x of Inl e \<Rightarrow> [] | Inr k \<Rightarrow> json_scan (concat (drop k ts)))"

definition h2_deliver :: "string list \<Rightarrow> net_err + nat \<Rightarrow> h2_read" where
  "h2_deliver ts x = (case x of Inl e \<Rightarrow> H2ClosedPipe | Inr k \<Rightarrow> H2Input (h2_rest ts x))"

definition ws_link :: "(rat \<Rightarrow> string) \<Rightarrow> struct_decoder \<Rightarrow> 'w Actor \<Rightarrow>
    (wsTransport, net_err + nat, ws_frame, net_err option, decoder, ws_frame, 'w) link" where
  "ws_link ff decode actor = \<lparr>l_transport = ws_transport ff, l_protocol = ws_protocol ff decode actor, l_actor = actor,
     l_text = MessageText ff, l_down = ws_deliver, l_up = ws_deliver\<rparr>"

definition h2_link :: "(rat \<Rightarrow> string) \<Rightarrow> struct_decoder \<Rightarrow> 'w Actor \<Rightarrow>
    (h2Transport, net_err + nat, h2_read, net_err option, Message, decoder, 'w) link" where
  "h2_link ff decode actor = \<lparr>l_transport = h2_transport ff, l_protocol = h2_protocol ff decode actor, l_actor = actor,
     l_text = h2_frame ff, l_down = h2_deliver, l_up = h2_rest\<rparr>"

text \<open>The message of a document, and what a read makes of it.\<close>

definition doc_message :: "decoder \<Rightarrow> Message option" where
  "doc_message d = (case fst (DecodeMessage d) of Returns (Inr m) \<Rightarrow> Some m | _ \<Rightarrow> None)"

definition frame_message :: "ws_frame \<Rightarrow> Message option" where
  "frame_message f = (case f of WsText d \<Rightarrow> doc_message d | _ \<Rightarrow> None)"

lemma intakeI:
  "intake decode actor ttype of_doc mo s (crash p s)"
  "mo = Some m \<Longrightarrow> intake decode actor ttype of_doc mo s (feed_session decode actor ttype m s)"
  "set_option (of_doc d) \<subseteq> set_option mo \<Longrightarrow> intake decode actor ttype of_doc mo s (s\<lparr>pool := pool s @ [d]\<rparr>)"
  "intake decode actor ttype of_doc mo s (to_done e (s\<lparr>recv_on := b\<rparr>))" "intake decode actor ttype of_doc mo s (to_done e s)"
  "intake decode actor ttype of_doc mo s s"
  unfolding intake_def by (blast | simp add: to_done_def same_answers_def same_sent_def)+

lemma intake_ws: "intake decode actor TransportWebsocket doc_message (doc_message d) s (ws_msgBytesReceived decode actor d s)"
  by (auto simp: ws_msgBytesReceived_def doc_message_def intro: intakeI split: outcome.split sum.split)

lemma ws_frame_reads:
  assumes "list_all2 (\<lambda>m t. MessageText ff m = Inr t) ms ts" "list_all (travels ff) ms"
  shows "set_option (frame_message (ws_deliver ts x)) \<subseteq> wired_message ff ` set ms"
proof (cases "\<exists>k. x = Inr k \<and> k < length ts")
  case True
  then obtain k where k: "x = Inr k" "k < length ts" by blast
  have "ParseBytes json_scan (ts ! k) = Returns (Inr (wired_message ff (ms ! k)))"
    using frames_parse [OF assms] k(2) by (simp add: list_all2_conv_all_nth)
  then have "fst (DecodeMessage (json_scan (ts ! k))) = Returns (Inr (wired_message ff (ms ! k)))" by (simp add: ParseBytes_def)
  moreover have "k < length ms" using k(2) assms(1) by (simp add: list_all2_lengthD)
  ultimately show ?thesis using k by (simp add: frame_message_def ws_deliver_def doc_message_def)
qed (auto simp: frame_message_def ws_deliver_def split: sum.splits)

lemma h2_read_doc: "h2_read_all d = (ms, r) \<Longrightarrow> set_option (doc_message d) \<subseteq> set ms"
  by (cases d) (auto simp: doc_message_def DecodeMessage_def split: outcome.splits sum.splits prod.splits)

lemma h2_rest_reads:
  assumes "list_all2 (\<lambda>m t. h2_frame ff m = Inr t) ms ts" "list_all (travels ff) ms"
  shows "set_option (doc_message (h2_rest ts x)) \<subseteq> wired_message ff ` set ms"
proof (cases x)
  case (Inr k)
  have "list_all2 (\<lambda>m t. h2_frame ff m = Inr t) (drop k ms) (drop k ts)" using assms(1) by (rule list_all2_dropI)
  moreover have "list_all (travels ff) (drop k ms)" using assms(2) by (metis append_take_drop_id list_all_append)
  ultimately have "h2_read_all (json_scan (concat (drop k ts))) = (map (wired_message ff) (drop k ms), Returns ErrEOF)"
    using written_stream stream_read by metis
  from h2_read_doc [OF this] show ?thesis
    using set_drop_subset [of k ms] by (auto simp: Inr h2_rest_def)
qed (simp add: h2_rest_def doc_message_def DecodeMessage_def)


lemma intake_hand_on:
  assumes "set_option (of_doc d) \<subseteq> set_option mo" "intake decode actor ttype of_doc mo s (handle d s)"
  shows "intake decode actor ttype of_doc mo s (hand_on handle d s)"
  using assms by (auto simp: hand_on_def intro: intakeI(1,3))

lemma reads_doc:
  assumes "set_option (doc_message d) \<subseteq> M" "fst (DecodeMessage d) = Returns (Inr m)"
  shows "m \<in> M"
  using assms by (simp add: doc_message_def)

interpretation ws_net: client_server "ws_link ff decode actor" "\<lambda>t. True" decode TransportWebsocket ff doc_message frame_message
proof (intro client_server.intro client_server_axioms.intro)
  let ?L = "ws_link ff decode actor"
  show "transport (l_transport ?L) (\<lambda>t. True)" by (simp add: ws_link_def ws.transport_axioms)
  show "session_protocol (l_protocol ?L) decode (l_actor ?L) TransportWebsocket (l_text ?L)"
    by (simp add: ws_link_def ws_serial.session_protocol_axioms)
  show "intake decode (l_actor ?L) TransportWebsocket doc_message (frame_message f) s (p_recv (l_protocol ?L) f s)" for f s
    using intake_ws
    by (auto simp: ws_link_def ws_protocol_def ws_recvLoop_def frame_message_def intro!: intakeI(4,6) intake_hand_on
        split: ws_frame.split)
  show "intake decode (l_actor ?L) TransportWebsocket doc_message (doc_message d) s (p_handle (l_protocol ?L) d s)" for d s
    using intake_ws by (simp add: ws_link_def ws_protocol_def)
  show "\<exists>t. l_text ?L m = Inr t" if "travels ff m" for m
    using travels_text [OF that] by (auto simp: ws_link_def)
  show "set_option (frame_message (l_up ?L ts x)) \<subseteq> wired_message ff ` set ms"
    if "list_all2 (\<lambda>m t. l_text ?L m = Inr t) ms ts" "list_all (travels ff) ms" for ms ts x
    using ws_frame_reads that by (simp add: ws_link_def)
  show "reads_from (wired_message ff ` set ms) res"
    if "list_all2 (\<lambda>m t. l_text ?L m = Inr t) ms ts" "list_all (travels ff) ms"
      "tReadMessage (l_transport ?L) (l_down ?L ts x) t = Returns res" for ms ts x t res
    using ws_frame_reads [of ff ms ts x] that
    by (auto simp: ws_link_def ws_transport_def wsReadMessage_def reads_from_def frame_message_def dest: reads_doc
        split: ws_frame.splits outcome.splits sum.splits if_splits)
qed

interpretation h2_net: client_server "h2_link ff decode actor" h2_ok decode TransportHTTP2 ff Some doc_message
proof (intro client_server.intro client_server_axioms.intro)
  let ?L = "h2_link ff decode actor"
  show "transport (l_transport ?L) h2_ok" by (simp add: h2_link_def h2.transport_axioms)
  show "session_protocol (l_protocol ?L) decode (l_actor ?L) TransportHTTP2 (l_text ?L)"
    by (simp add: h2_link_def h2_serial.session_protocol_axioms)
  show "intake decode (l_actor ?L) TransportHTTP2 Some (doc_message d) s (p_recv (l_protocol ?L) d s)" for d s
    by (auto simp: h2_link_def h2_protocol_def h2_recvLoop_def h2_msgReceived_def doc_message_def
        intro!: intakeI(1,2,4) intake_hand_on split: outcome.split sum.split)
  show "intake decode (l_actor ?L) TransportHTTP2 Some (Some m) s (p_handle (l_protocol ?L) m s)" for m s
    by (simp add: h2_link_def h2_protocol_def h2_msgReceived_def intakeI(2))
  show "\<exists>t. l_text ?L m = Inr t" if "travels ff m" for m
    using travels_text [OF that] by (auto simp: h2_link_def h2_frame_def)
  show "set_option (doc_message (l_up ?L ts x)) \<subseteq> wired_message ff ` set ms"
    if "list_all2 (\<lambda>m t. l_text ?L m = Inr t) ms ts" "list_all (travels ff) ms" for ms ts x
    using h2_rest_reads that by (simp add: h2_link_def)
  show "reads_from (wired_message ff ` set ms) res"
    if "list_all2 (\<lambda>m t. l_text ?L m = Inr t) ms ts" "list_all (travels ff) ms"
      "tReadMessage (l_transport ?L) (l_down ?L ts x) t = Returns res" for ms ts x t res
    using h2_rest_reads [of ff ms ts x] that
    by (auto simp: h2_link_def h2_transport_def h2ReadMessage_def h2_deliver_def reads_from_def dest: reads_doc
        split: h2_read.splits outcome.splits sum.splits if_splits)
qed

section \<open>A run\<close>

lemma net_client:
  assumes "reach (net_init L) (net_step L) \<lparr>nw_client = c, nw_sessions = ss\<rparr>" "ts = [] \<or> ts \<in> wire ` set ss"
    and "(step (hears (l_down L ts) (l_transport L)))\<^sup>*\<^sup>* c c'"
  shows "reach (net_init L) (net_step L) \<lparr>nw_client = c', nw_sessions = ss\<rparr>"
  using assms(3)
proof (induction rule: rtranclp_induct)
  case (step b c')
  have "net_step L \<lparr>nw_client = b, nw_sessions = ss\<rparr> \<lparr>nw_client = c', nw_sessions = ss\<rparr>"
    using net_step.client [of ts "\<lparr>nw_client = b, nw_sessions = ss\<rparr>" L c'] assms(2) step(2) by simp
  then show ?case using step.IH by (rule reach.move [rotated])
qed (rule assms(1))

lemma net_server:
  assumes "reach (net_init L) (net_step L) \<lparr>nw_client = c, nw_sessions = [s]\<rparr>"
    and "session_step (l_actor L) (fed_by (l_up L (texts (l_text L) (written c))) (l_protocol L)) s s'"
  shows "reach (net_init L) (net_step L) \<lparr>nw_client = c, nw_sessions = [s']\<rparr>"
  by (rule reach.move [OF assms(1)])
    (use net_step.server [of 0 "\<lparr>nw_client = c, nw_sessions = [s]\<rparr>" L s'] assms(2) in simp)

lemma up_waiting:
  "(step (hears d (ws_transport ff)))\<^sup>*\<^sup>* (InitStreaming \<lparr>ws = None\<rparr>)
     (up [VInt 1 \<mapsto> \<lparr>pr_reqmsg = call_1, pr_chan = 0\<rparr>] [MRequest call_1] [0 \<mapsto> at_phase call_1 Waiting []] [VInt 1] [])"
proof -
  let ?S = "step (hears d (ws_transport ff))"
  let ?P = "[VInt 1 \<mapsto> \<lparr>pr_reqmsg = call_1, pr_chan = 0\<rparr>]"
  have "?S\<^sup>*\<^sup>* (InitStreaming \<lparr>ws = None\<rparr>) (up Map.empty [] [0 \<mapsto> at_phase call_1 Started []] [] [])"
    by (rule r_into_rtranclp, rule up_dial [OF refl]) simp
  also have "?S (up Map.empty [] [0 \<mapsto> at_phase call_1 Started []] [] [])
      (up Map.empty [] [0 \<mapsto> at_phase call_1 (Loaded call_1) []] [] [])"
    using up_load [of "[0 \<mapsto> at_phase call_1 Started []]" 0 call_1 Map.empty] by simp
  also (rtranclp.rtrancl_into_rtrancl) have "?S (up Map.empty [] [0 \<mapsto> at_phase call_1 (Loaded call_1) []] [] [])
      (up ?P [] [0 \<mapsto> at_phase call_1 (Stored call_1) []] [] [])"
    using up_store [of "[0 \<mapsto> at_phase call_1 (Loaded call_1) []]" 0 call_1 call_1 d ff Map.empty] by simp
  also (rtranclp.rtrancl_into_rtrancl) have "?S\<^sup>*\<^sup>* (up ?P [] [0 \<mapsto> at_phase call_1 (Stored call_1) []] [] [])
      (up ?P [MRequest call_1] [0 \<mapsto> at_phase call_1 (Sent call_1) []] [] [])"
    using up_send [of "[0 \<mapsto> at_phase call_1 (Stored call_1) []]" 0 call_1 call_1 "[]" "[]"] by simp
  also (rtranclp_trans) have "?S (up ?P [MRequest call_1] [0 \<mapsto> at_phase call_1 (Sent call_1) []] [] [])
      (up ?P [MRequest call_1] [0 \<mapsto> at_phase call_1 Waiting []] [VInt 1] [])"
    using up_timer [of "[0 \<mapsto> at_phase call_1 (Sent call_1) []]" 0 call_1 call_1 "[]" d ff ?P _ "[]"] by simp
  finally (rtranclp.rtrancl_into_rtrancl) show ?thesis .
qed

text \<open>The call is written, read by a session, answered, written, read and returned.\<close>

abbreviation zeros :: "rat \<Rightarrow> string" where "zeros \<equiv> \<lambda>q. ''0''"
abbreviation no_decode :: struct_decoder where "no_decode \<equiv> \<lambda>t. Inr []"

definition served_net :: "(wsTransport, decoder, unit) network" where
  "served_net = \<lparr>nw_client = up Map.empty [] [0 \<mapsto> at_phase call_1 (Returned yes_result) []] [VInt 1] [MRequest call_1],
     nw_sessions = [(new_session False [] ''s'' ())\<lparr>fed := [MRequest call_1], out := [yes_result],
       wire := [projr (MessageText zeros yes_result)]\<rparr>]\<rparr>"

lemma call_1_message: "MRequest call_1 = get_message"
  by (simp add: get_message_def a_request_def)

lemma get_sendable: "sendable zeros get_message"
proof -
  have "show_int 1 = ''1''" "valid_number ''1''" by code_simp+
  then show ?thesis
    by (simp add: get_message_def sendable_def wire_message_def kind_ok_def msg_kind_def wire_id_def in_int64_def int64_min_def
        int64_max_def MessageBytes_def Interface_def marshal_template_def omit_empty_def max_depth_def byte_val_def
        wire_params_ok_def wire_params_def)
qed

lemma run_served:
  "reach (net_init (ws_link zeros no_decode yes_actor)) (net_step (ws_link zeros no_decode yes_actor)) served_net"
proof -
  let ?L = "ws_link zeros no_decode yes_actor"
  let ?R = "reach (net_init ?L) (net_step ?L)"
  let ?P = "[VInt 1 \<mapsto> \<lparr>pr_reqmsg = call_1, pr_chan = 0\<rparr>]"
  let ?w = "[MRequest call_1]"
  let ?c = "up ?P [] [0 \<mapsto> at_phase call_1 Waiting []] [VInt 1] ?w"
  let ?s = "new_session False [] ''s'' () :: (decoder, unit) session"
  let ?Q = "fed_by (l_up ?L (texts (l_text ?L) (written ?c))) (l_protocol ?L)"
  obtain t where t: "MessageText zeros get_message = Inr t" "ParseBytes json_scan t = Returns (Inr get_message)"
    using sendable_text [OF get_sendable] by blast
  obtain u where u: "MessageText zeros yes_result = Inr u" "ParseBytes json_scan u = Returns (Inr yes_result)"
    using sendable_text [OF yes_sendable] by blast
  obtain j where j: "MessageBytes zeros get_message = Inr j" using sendable_json [OF get_sendable] by blast
  have "?R \<lparr>nw_client = InitStreaming \<lparr>ws = None\<rparr>, nw_sessions = []\<rparr>"
    by (rule reach.start) (simp add: net_init_def ws_link_def ws_client_init)
  then have "?R \<lparr>nw_client = up ?P ?w [0 \<mapsto> at_phase call_1 Waiting []] [VInt 1] [], nw_sessions = []\<rparr>"
    by (rule net_client [where ts = "[]"]) (simp_all add: ws_link_def up_waiting)
  then have "?R \<lparr>nw_client = ?c, nw_sessions = []\<rparr>"
    using up_write [OF j, of _ ?P "[]" _ "[VInt 1]" "[]"]
    by (elim net_client [where ts = "[]"]) (simp_all add: ws_link_def call_1_message)
  then have "?R \<lparr>nw_client = ?c, nw_sessions = [?s]\<rparr>"
    using net_step.accept [of ?L "\<lparr>nw_client = ?c, nw_sessions = []\<rparr>" False "[]" "''s''" "()"] by (auto intro: reach.move)
  then have "?R \<lparr>nw_client = ?c, nw_sessions = [?s\<lparr>fed := ?w, outbox := [Inr yes_result]\<rparr>]\<rparr>"
  proof (rule net_server)
    have "texts (l_text ?L) (written ?c) = [t]"
      using t(1) by (simp add: up_def texts_def ws_link_def call_1_message)
    then have "p_recv ?Q (Inr 0) ?s = ?s\<lparr>fed := ?w, outbox := [Inr yes_result]\<rparr>"
      using t(2) by (simp add: ws_link_def ws_protocol_def ws_recvLoop_def ws_deliver_def hand_on_def ws_msgBytesReceived_def
          ParseBytes_def feed_session_def feed_yes call_1_message Session_Send_def new_session_def del: Feed.simps)
    then show "session_step (l_actor ?L) ?Q ?s (?s\<lparr>fed := ?w, outbox := [Inr yes_result]\<rparr>)"
      using session_step.recv [of ?s "l_actor ?L" ?Q "Inr 0"] by (simp add: new_session_def)
  qed
  then have "?R \<lparr>nw_client = ?c, nw_sessions = [?s\<lparr>fed := ?w, send_ch := [yes_result]\<rparr>]\<rparr>"
    by (rule net_server)
      (use session_step.put_send [of "?s\<lparr>fed := ?w, outbox := [Inr yes_result]\<rparr>" "[]" yes_result "[]"]
        in \<open>simp add: new_session_def\<close>)
  then have r: "?R \<lparr>nw_client = ?c, nw_sessions = [?s\<lparr>fed := ?w, out := [yes_result], wire := [u]\<rparr>]\<rparr>"
  proof (rule net_server)
    let ?s1 = "?s\<lparr>fed := ?w, send_ch := [yes_result]\<rparr>"
    have "p_send ?Q (TakeMsg None) ?s1 = ?s\<lparr>fed := ?w, out := [yes_result], wire := [u]\<rparr>"
      using u(1) by (simp add: new_session_def ws_link_def ws_protocol_def ws_sendLoop_def write_out_def)
    then show "session_step (l_actor ?L) ?Q ?s1 (?s\<lparr>fed := ?w, out := [yes_result], wire := [u]\<rparr>)"
      using session_step.send [of ?s1 "l_actor ?L" ?Q "TakeMsg None"] by (simp add: new_session_def)
  qed
  have d: "ws_deliver [u] (Inr 0) = WsText (json_scan u)" "fst (DecodeMessage (json_scan u)) = Returns (Inr yes_result)"
    using u(2) by (simp_all add: ws_deliver_def ParseBytes_def)
  have y: "IsResultOrError yes_result" "MustId yes_result = Returns (req_Id call_1)"
    by (simp_all add: yes_result_def MustId_def IsResultOrError_def IsResult_def msg_kind_def)
  have "(step (hears (ws_deliver [u]) (ws_transport zeros)))\<^sup>*\<^sup>* ?c
      (up Map.empty [] [0 \<mapsto> at_phase call_1 Waiting [yes_result]] [VInt 1] ?w)"
    using up_read [where d = "ws_deliver [u]", OF d y, of ?P 0 "[0 \<mapsto> at_phase call_1 Waiting []]"] by simp
  also have "step (hears (ws_deliver [u]) (ws_transport zeros)) (up Map.empty [] [0 \<mapsto> at_phase call_1 Waiting [yes_result]] [VInt 1] ?w)
      (up Map.empty [] [0 \<mapsto> at_phase call_1 (Returned yes_result) []] [VInt 1] ?w)"
    using up_return [of "[0 \<mapsto> at_phase call_1 Waiting [yes_result]]" 0 call_1 yes_result "[]"] by simp
  finally (rtranclp.rtrancl_into_rtrancl) show ?thesis
    using net_client [OF r, of "[u]"] u(1) by (simp add: ws_link_def served_net_def)
qed

lemma yes_plain: "plain_actor yes_actor"
  by (auto simp: plain_actor_def yes_actor_def returns_own_def split: if_splits)

section \<open>Properties\<close>

text \<open>C1: a call that returns gets the answer to that very call. Whatever the network between the
  streaming client and the sessions of the server loses, repeats, reorders or delays, and however the goroutines of both
  sides interleave, the message a call returns with is the client's own timeout error, or a session was given
  exactly the request of the call, as it is read from the wire, and wrote the answer of the server's actor to it,
  which is read from the wire as that message.
  The ids of the calls are distinct, nothing else was sent under the id of the call, JSON can express the messages,
  and the handlers return values and errors, not messages of their own.\<close>

theorem call_served:
  "(\<forall>n k ca m. reach (net_init (ws_link ff decode actor)) (net_step (ws_link ff decode actor)) n \<and> good_run ff n \<and>
      plain_actor actor \<and> callers (nw_client n) k = Some ca \<and> ca_phase ca = Returned m \<and>
      only_request ff (nw_client n) (ca_req ca) \<longrightarrow> served_call ff decode actor TransportWebsocket n (ca_req ca) m) \<and>
   (\<forall>n k ca m. reach (net_init (h2_link ff decode actor)) (net_step (h2_link ff decode actor)) n \<and> good_run ff n \<and>
      plain_actor actor \<and> callers (nw_client n) k = Some ca \<and> ca_phase ca = Returned m \<and>
      only_request ff (nw_client n) (ca_req ca) \<longrightarrow> served_call ff decode actor TransportHTTP2 n (ca_req ca) m)"
proof (intro conjI allI impI; elim conjE)
  have a: "l_actor (ws_link ff decode actor) = actor" "l_actor (h2_link ff decode actor) = actor"
    by (simp_all add: ws_link_def h2_link_def)
  show "served_call ff decode actor TransportWebsocket n (ca_req ca) m"
    if "reach (net_init (ws_link ff decode actor)) (net_step (ws_link ff decode actor)) n" "good_run ff n" "plain_actor actor"
      "callers (nw_client n) k = Some ca" "ca_phase ca = Returned m" "only_request ff (nw_client n) (ca_req ca)" for n k ca m
    using ws_net.returned_served [OF that(1,2) _ that(4-6)] that(3) by (simp add: a)
  show "served_call ff decode actor TransportHTTP2 n (ca_req ca) m"
    if "reach (net_init (h2_link ff decode actor)) (net_step (h2_link ff decode actor)) n" "good_run ff n" "plain_actor actor"
      "callers (nw_client n) k = Some ca" "ca_phase ca = Returned m" "only_request ff (nw_client n) (ca_req ca)" for n k ca m
    using h2_net.returned_served [OF that(1,2) _ that(4-6)] that(3) by (simp add: a)
qed

theorem call_served_witness: "served_call zeros no_decode yes_actor TransportWebsocket served_net call_1 yes_result"
proof -
  have "good_run zeros served_net"
    using get_sendable yes_sendable
    by (simp add: good_run_def all_travel_def served_net_def up_def call_1_message distinct_ids_def)
  moreover have "only_request zeros (nw_client served_net) call_1"
    by (simp add: only_request_def served_net_def up_def)
  ultimately show ?thesis
    using call_served [THEN conjunct1, rule_format, of zeros no_decode yes_actor served_net 0 "at_phase call_1 (Returned yes_result) []" yes_result]
      run_served yes_plain by (simp add: served_net_def up_def at_phase_def)
qed

end
