(* ===== verification/Auth.thy ===== *)
theory Auth
  imports Http
begin

text \<open>
  The authentication handler of \<^verbatim>\<open>http/auth_handler.go\<close>. The JWT library is the argument
  \<open>verify\<close>, the claims of a token whose signature a secret verifies; the LRU cache is a value of
  an abstract type with the operations of \<open>lru_ops\<close>. Of the claims the code uses the user name,
  the settings and the expiration time, in seconds. \<open>BasicAuth\<close> of \<^verbatim>\<open>net/http\<close> and the base64
  decoding behind it are modelled.
\<close>

section \<open>Basic credentials\<close>

definition b64_digit :: "char \<Rightarrow> nat option" where
  "b64_digit c =
     (let n = of_char c :: nat in
      if 65 \<le> n \<and> n \<le> 90 then Some (n - 65)
      else if 97 \<le> n \<and> n \<le> 122 then Some (n - 71)
      else if 48 \<le> n \<and> n \<le> 57 then Some (n + 4)
      else if n = 43 then Some 62 else if n = 47 then Some 63 else None)"

fun b64_quads :: "char list \<Rightarrow> nat list option" where
  "b64_quads [] = Some []"
| "b64_quads (a # b # c # d # rest) =
     (case (b64_digit a, b64_digit b) of
        (Some x, Some y) \<Rightarrow>
          (if c = CHR ''='' then
             (if d = CHR ''='' \<and> rest = [] then Some [x * 4 + y div 16] else None)
           else case b64_digit c of
             None \<Rightarrow> None
           | Some z \<Rightarrow>
               (if d = CHR ''='' then
                  (if rest = [] then Some [x * 4 + y div 16, (y mod 16) * 16 + z div 4] else None)
                else case b64_digit d of
                  None \<Rightarrow> None
                | Some u \<Rightarrow> map_option (\<lambda>bs. [x * 4 + y div 16, (y mod 16) * 16 + z div 4, (z mod 4) * 64 + u] @ bs)
                    (b64_quads rest)))
      | _ \<Rightarrow> None)"
| "b64_quads _ = None"

definition b64_decode :: "string \<Rightarrow> string option" where
  "b64_decode s = map_option (map char_of)
     (b64_quads (filter (\<lambda>c. c \<noteq> CHR 0x0D \<and> c \<noteq> CHR 0x0A) s))"

definition BasicAuth :: "http_request \<Rightarrow> (string \<times> string) option" where
  "BasicAuth r =
     (let auth = header_get ''Authorization'' (hr_header r) in
      if length auth < 6 \<or> map lower (take 6 auth) \<noteq> ''basic '' then None
      else case b64_decode (drop 6 auth) of
        None \<Rightarrow> None
      | Some cs \<Rightarrow> cut_at (CHR '':'') cs)"

section \<open>Configuration\<close>

record BasicAuthConfig =
  ba_Username :: string
  ba_Password :: string
  ba_Settings :: gval

record BearerAuthConfig =
  be_Token :: string
  be_Username :: string
  be_Settings :: gval

record JwtAuthConfig =
  jw_Secret :: string

record AuthConfig =
  ac_Basic :: "BasicAuthConfig list"
  ac_Bearer :: "BearerAuthConfig list"
  ac_Jwt :: "JwtAuthConfig option"

definition AuthInfoFromContext :: "go_context \<Rightarrow> AuthInfo option \<times> bool" where
  "AuthInfoFromContext ctx = (case map_of ctx ''authInfo'' of
      None \<Rightarrow> (None, False)
    | Some v \<Rightarrow> (case v of CtxAuthInfo i \<Rightarrow> (Some i, True) | CtxValue x \<Rightarrow> (None, False)))"

fun first_bad :: "('a \<Rightarrow> bool) \<Rightarrow> 'a list \<Rightarrow> bool" where
  "first_bad bad [] = False"
| "first_bad bad (x # xs) = (if bad x then True else first_bad bad xs)"

definition ValidateValues :: "AuthConfig option \<Rightarrow> goerr option" where
  "ValidateValues cfg = (case cfg of
      None \<Rightarrow> None
    | Some c \<Rightarrow>
        (if first_bad (\<lambda>b. be_Token b = []) (ac_Bearer c) then Some (EText ''bearer token is empty'')
         else if first_bad (\<lambda>b. ba_Username b = [] \<or> ba_Password b = []) (ac_Basic c) then
           Some (EText ''basic username or password are empty'')
         else if map_option jw_Secret (ac_Jwt c) = Some [] then Some (EText ''jwt has no secret'')
         else None))"

section \<open>The handler\<close>

record jwtClaims =
  cl_Username :: string
  cl_Settings :: gval
  cl_ExpiresAt :: int

record 'c lru_ops =
  lru_Get :: "string \<Rightarrow> 'c \<Rightarrow> jwtClaims option \<times> 'c"
  lru_Add :: "string \<Rightarrow> jwtClaims \<Rightarrow> 'c \<Rightarrow> 'c"
  lru_Remove :: "string \<Rightarrow> 'c \<Rightarrow> 'c"

text \<open>\<open>strings.SplitN(s, " ", 2)\<close>: one or two parts.\<close>

definition split_space :: "string \<Rightarrow> string list" where
  "split_space s = (case cut_at (CHR '' '') s of None \<Rightarrow> [s] | Some (a, b) \<Rightarrow> [a, b])"

definition jwtAuth :: "'c lru_ops \<Rightarrow> (string \<Rightarrow> string \<Rightarrow> jwtClaims option) \<Rightarrow> int \<Rightarrow> JwtAuthConfig \<Rightarrow>
    http_request \<Rightarrow> 'c \<Rightarrow> (AuthInfo option) run \<times> 'c" where
  "jwtAuth L verify now jwtCfg r cache =
     (let authHeader = header_get ''Authorization'' (hr_header r) in
      if authHeader = [] then (Returns None, cache)
      else let arr = split_space authHeader in
        if length arr \<le> 2 \<and> hd arr = ''Bearer'' then
          (let (cached, cache1) = lru_Get L authHeader cache;
               found = (case cached of
                  Some claims \<Rightarrow> Returns (Some claims)
                | None \<Rightarrow> (case tl arr of
                    [] \<Rightarrow> Panics (PValue ''index out of range'')
                  | jwtFromHeader # _ \<Rightarrow> Returns (verify (jw_Secret jwtCfg) jwtFromHeader)))
           in case found of
                Panics p \<Rightarrow> (Panics p, cache1)
              | Returns None \<Rightarrow> (Returns None, cache1)
              | Returns (Some claims) \<Rightarrow>
                  (if cl_ExpiresAt claims < now then
                     (Returns None, if cached \<noteq> None then lru_Remove L authHeader cache1 else cache1)
                   else (Returns (Some \<lparr>ai_Username = cl_Username claims, ai_Settings = cl_Settings claims\<rparr>),
                     if cached = None then lru_Add L authHeader claims cache1 else cache1)))
        else (Returns None, cache))"

definition basic_match :: "BasicAuthConfig list \<Rightarrow> http_request \<Rightarrow> AuthInfo option" where
  "basic_match cfgs r = (if cfgs = [] then None else case BasicAuth r of
      None \<Rightarrow> None
    | Some (username, password) \<Rightarrow>
        first_some (\<lambda>b. if ba_Username b = username \<and> ba_Password b = password
          then Some \<lparr>ai_Username = username, ai_Settings = ba_Settings b\<rparr> else None) cfgs)"

definition bearer_match :: "BearerAuthConfig list \<Rightarrow> http_request \<Rightarrow> AuthInfo option" where
  "bearer_match cfgs r =
     (let authHeader = header_get ''Authorization'' (hr_header r) in
      first_some (\<lambda>b. if authHeader = ''Bearer '' @ be_Token b
        then Some \<lparr>ai_Username = (if be_Username b = [] then be_Token b else be_Username b),
          ai_Settings = be_Settings b\<rparr> else None) cfgs)"

text \<open>The first result of \<open>TryAuth\<close> is nil when there is no configuration; the second tells whether the
  request may pass.\<close>

definition TryAuth :: "'c lru_ops \<Rightarrow> (string \<Rightarrow> string \<Rightarrow> jwtClaims option) \<Rightarrow> int \<Rightarrow> AuthConfig option \<Rightarrow>
    http_request \<Rightarrow> 'c \<Rightarrow> (AuthInfo option \<times> bool) run \<times> 'c" where
  "TryAuth L verify now cfg r cache = (case cfg of
      None \<Rightarrow> (Returns (None, True), cache)
    | Some c \<Rightarrow>
        (let (jwt, cache') = (case ac_Jwt c of
               Some j \<Rightarrow> if jw_Secret j \<noteq> [] then jwtAuth L verify now j r cache else (Returns None, cache)
             | None \<Rightarrow> (Returns None, cache))
         in (obind jwt (\<lambda>info. case info of
               Some i \<Rightarrow> Returns (Some i, True)
             | None \<Rightarrow> (case basic_match (ac_Basic c) r of
                 Some i \<Rightarrow> Returns (Some i, True)
               | None \<Rightarrow> (case bearer_match (ac_Bearer c) r of
                   Some i \<Rightarrow> Returns (Some i, True)
                 | None \<Rightarrow> Returns (None, False)))), cache')))"

text \<open>The handler: \<open>next\<close> gets the request, with the authentication info in its context when there is
  one. \<open>lru_New\<close> makes a cache of a size.\<close>

type_synonym 's http_handler = "ResponseWriter \<Rightarrow> http_request \<Rightarrow> 's \<Rightarrow> ResponseWriter run \<times> 's"

record ('c, 's) AuthHandler =
  authConfig :: "AuthConfig option"
  ah_next :: "'s http_handler"
  jwtCache :: 'c

definition NewAuthHandler :: "(int \<Rightarrow> goerr + 'c) \<Rightarrow> AuthConfig option \<Rightarrow> 's http_handler \<Rightarrow> ('c, 's) AuthHandler run" where
  "NewAuthHandler lru_New cfg next = (case lru_New 100 of
      Inl e \<Rightarrow> Panics (PError e)
    | Inr cache \<Rightarrow> Returns \<lparr>authConfig = cfg, ah_next = next, jwtCache = cache\<rparr>)"

definition Auth_ServeHTTP :: "'c lru_ops \<Rightarrow> (string \<Rightarrow> string \<Rightarrow> jwtClaims option) \<Rightarrow> int \<Rightarrow> ('c, 's) AuthHandler \<Rightarrow>
    ResponseWriter \<Rightarrow> http_request \<Rightarrow> 's \<Rightarrow> ResponseWriter run \<times> ('c, 's) AuthHandler \<times> 's" where
  "Auth_ServeHTTP L verify now h w r s =
     (let (res, cache') = TryAuth L verify now (authConfig h) r (jwtCache h);
          h' = h\<lparr>jwtCache := cache'\<rparr>
      in case res of
        Panics p \<Rightarrow> (Panics p, h', s)
      | Returns (info, ok) \<Rightarrow>
          (if ok then
             (let r' = (case info of
                    Some i \<Rightarrow> r\<lparr>hr_context := WithValue (hr_context r) ''authInfo'' (CtxAuthInfo i)\<rparr>
                  | None \<Rightarrow> r);
                  (out, s') = ah_next h w r' s
              in (out, h', s'))
           else (obind (WriteHeader 401 w) (WriteBody (''auth failed!'' @ [CHR 0x0A])), h', s)))"

section \<open>What authenticates a request\<close>

text \<open>What the code relies on of the LRU cache: looking up, adding and removing never make up entries.\<close>

definition lru_laws :: "'c lru_ops \<Rightarrow> bool" where
  "lru_laws L =
     ((\<forall>k c k' x. fst (lru_Get L k' (snd (lru_Get L k c))) = Some x \<longrightarrow> fst (lru_Get L k' c) = Some x) \<and>
      (\<forall>k v c k' x. fst (lru_Get L k' (lru_Add L k v c)) = Some x \<longrightarrow>
         k' = k \<and> x = v \<or> fst (lru_Get L k' c) = Some x) \<and>
      (\<forall>k c k' x. fst (lru_Get L k' (lru_Remove L k c)) = Some x \<longrightarrow> fst (lru_Get L k' c) = Some x))"

definition jwt_secret :: "AuthConfig \<Rightarrow> string option" where
  "jwt_secret c = map_option jw_Secret (ac_Jwt c)"

text \<open>The invariant of the cache: it holds verified claims under their header.\<close>

definition cache_ok :: "'c lru_ops \<Rightarrow> (string \<Rightarrow> string \<Rightarrow> jwtClaims option) \<Rightarrow> string option \<Rightarrow> 'c \<Rightarrow> bool" where
  "cache_ok L verify secret cache = (\<forall>k x. fst (lru_Get L k cache) = Some x \<longrightarrow>
     (\<exists>s tok. secret = Some s \<and> k = ''Bearer '' @ tok \<and> verify s tok = Some x))"

definition jwt_info :: "jwtClaims \<Rightarrow> AuthInfo" where
  "jwt_info x = \<lparr>ai_Username = cl_Username x, ai_Settings = cl_Settings x\<rparr>"

definition by_jwt :: "(string \<Rightarrow> string \<Rightarrow> jwtClaims option) \<Rightarrow> int \<Rightarrow> string option \<Rightarrow> string \<Rightarrow> AuthInfo \<Rightarrow> bool" where
  "by_jwt verify now secret h i = (\<exists>s tok x. secret = Some s \<and> s \<noteq> [] \<and> h = ''Bearer '' @ tok \<and>
     verify s tok = Some x \<and> now \<le> cl_ExpiresAt x \<and> i = jwt_info x)"

definition by_basic :: "BasicAuthConfig list \<Rightarrow> http_request \<Rightarrow> AuthInfo \<Rightarrow> bool" where
  "by_basic cfgs r i = (\<exists>b \<in> set cfgs. BasicAuth r = Some (ba_Username b, ba_Password b) \<and>
     i = \<lparr>ai_Username = ba_Username b, ai_Settings = ba_Settings b\<rparr>)"

definition by_bearer :: "BearerAuthConfig list \<Rightarrow> string \<Rightarrow> AuthInfo \<Rightarrow> bool" where
  "by_bearer cfgs h i = (\<exists>b \<in> set cfgs. h = ''Bearer '' @ be_Token b \<and>
     i = \<lparr>ai_Username = (if be_Username b = [] then be_Token b else be_Username b), ai_Settings = be_Settings b\<rparr>)"

definition authentic :: "(string \<Rightarrow> string \<Rightarrow> jwtClaims option) \<Rightarrow> int \<Rightarrow> AuthConfig \<Rightarrow> http_request \<Rightarrow> AuthInfo \<Rightarrow> bool" where
  "authentic verify now c r i =
     (by_jwt verify now (jwt_secret c) (header_get ''Authorization'' (hr_header r)) i \<or>
      by_basic (ac_Basic c) r i \<or> by_bearer (ac_Bearer c) (header_get ''Authorization'' (hr_header r)) i)"

lemma first_some_Some: "first_some f xs = Some y \<Longrightarrow> \<exists>x \<in> set xs. f x = Some y"
  by (induction xs) (auto split: option.splits)

lemma first_bad_iff: "first_bad bad xs \<longleftrightarrow> (\<exists>x \<in> set xs. bad x)"
  by (induction xs) auto

lemma basic_some: "basic_match cfgs r = Some i \<Longrightarrow> by_basic cfgs r i"
  by (auto simp: basic_match_def by_basic_def split: if_splits option.splits dest!: first_some_Some)

lemma basic_none: "basic_match cfgs r = None \<Longrightarrow> \<not> by_basic cfgs r i"
  by (auto simp: basic_match_def by_basic_def first_some_None split: if_splits option.splits)

lemma bearer_some:
  "bearer_match cfgs r = Some i \<Longrightarrow> by_bearer cfgs (header_get ''Authorization'' (hr_header r)) i"
  by (auto simp: bearer_match_def by_bearer_def Let_def split: if_splits dest!: first_some_Some)

lemma bearer_none:
  "bearer_match cfgs r = None \<Longrightarrow> \<not> by_bearer cfgs (header_get ''Authorization'' (hr_header r)) i"
  by (auto simp: bearer_match_def by_bearer_def Let_def first_some_None split: if_splits)

lemma split_bearer [simp]:
  "split_space ''Bearer'' = [''Bearer'']" "split_space (''Bearer '' @ tok) = [''Bearer'', tok]"
  by (simp_all add: split_space_def)

lemma split_head: "hd (split_space h) = ''Bearer'' \<Longrightarrow> h = ''Bearer'' \<or> (\<exists>tok. h = ''Bearer '' @ tok)"
  by (auto simp: split_space_def cut_at_Some split: option.splits)

lemma split_length: "length (split_space h) \<le> 2"
  by (auto simp: split_space_def split: option.split)

text \<open>The cache operations keep the invariant.\<close>

lemma cache_get: "lru_laws L \<Longrightarrow> cache_ok L v s c \<Longrightarrow> cache_ok L v s (snd (lru_Get L k c))"
  unfolding lru_laws_def cache_ok_def by blast

lemma cache_remove: "lru_laws L \<Longrightarrow> cache_ok L v s c \<Longrightarrow> cache_ok L v s (lru_Remove L k c)"
  unfolding lru_laws_def cache_ok_def by blast

lemma cache_add:
  "lru_laws L \<Longrightarrow> cache_ok L v (Some s) c \<Longrightarrow> v s tok = Some x \<Longrightarrow> cache_ok L v (Some s) (lru_Add L (''Bearer '' @ tok) x c)"
  unfolding cache_ok_def
proof (intro allI impI)
  fix k y
  assume L: "lru_laws L" and v: "v s tok = Some x"
    and c: "\<forall>k x. fst (lru_Get L k c) = Some x \<longrightarrow> (\<exists>s' tok. Some s = Some s' \<and> k = ''Bearer '' @ tok \<and> v s' tok = Some x)"
    and y: "fst (lru_Get L k (lru_Add L (''Bearer '' @ tok) x c)) = Some y"
  then have "k = ''Bearer '' @ tok \<and> y = x \<or> fst (lru_Get L k c) = Some y" unfolding lru_laws_def by blast
  then show "\<exists>s' tok. Some s = Some s' \<and> k = ''Bearer '' @ tok \<and> v s' tok = Some y" using c v by blast
qed

text \<open>With a token in the header.\<close>

lemma jwtAuth_token:
  assumes L: "lru_laws L" and c: "cache_ok L verify (Some secret) cache" and s: "secret \<noteq> []"
    and h: "header_get ''Authorization'' (hr_header r) = ''Bearer '' @ tok" (is "?h = _")
  shows "\<exists>info cache'. jwtAuth L verify now \<lparr>jw_Secret = secret\<rparr> r cache = (Returns info, cache') \<and>
    cache_ok L verify (Some secret) cache' \<and> (\<forall>i. info = Some i \<longleftrightarrow> by_jwt verify now (Some secret) ?h i)"
proof -
  obtain cached c1 where g: "lru_Get L ?h cache = (cached, c1)" by (cases "lru_Get L ?h cache")
  have c1: "cache_ok L verify (Some secret) c1" using cache_get [OF L c, of ?h] g by simp
  have v: "cached = Some x \<Longrightarrow> verify secret tok = Some x" for x
    using c g h unfolding cache_ok_def by force
  have jw: "by_jwt verify now (Some secret) ?h i \<longleftrightarrow>
      (\<exists>x. verify secret tok = Some x \<and> now \<le> cl_ExpiresAt x \<and> i = jwt_info x)" for i
    using s h by (auto simp: by_jwt_def)
  have sp: "split_space ?h = [''Bearer'', tok]" unfolding h by (rule split_bearer)
  have ne: "?h \<noteq> []" unfolding h by simp
  have J: "jwtAuth L verify now \<lparr>jw_Secret = secret\<rparr> r cache = (case verify secret tok of
      None \<Rightarrow> (Returns None, c1)
    | Some x \<Rightarrow> if cl_ExpiresAt x < now then (Returns None, if cached \<noteq> None then lru_Remove L ?h c1 else c1)
        else (Returns (Some (jwt_info x)), if cached = None then lru_Add L ?h x c1 else c1))"
  proof (cases cached)
    case None
    then show ?thesis using g by (simp add: jwtAuth_def jwt_info_def Let_def sp ne split: option.split)
  next
    case (Some x)
    then show ?thesis using g v [OF Some] by (simp add: jwtAuth_def jwt_info_def Let_def sp ne)
  qed
  show ?thesis
  proof (cases "verify secret tok")
    case None
    then show ?thesis using J c1 by (simp add: jw)
  next
    case (Some x)
    have "cache_ok L verify (Some secret) (lru_Remove L ?h c1)" by (rule cache_remove [OF L c1])
    moreover have "cache_ok L verify (Some secret) (lru_Add L ?h x c1)"
      using cache_add [OF L c1 Some] h by simp
    ultimately show ?thesis using J c1 Some by (auto simp: jw)
  qed
qed

lemma jwtAuth_exact:
  assumes "lru_laws L" "cache_ok L verify (Some secret) cache" "secret \<noteq> []"
    and h: "header_get ''Authorization'' (hr_header r) \<noteq> ''Bearer''" (is "?h \<noteq> _")
  shows "\<exists>info cache'. jwtAuth L verify now \<lparr>jw_Secret = secret\<rparr> r cache = (Returns info, cache') \<and>
    cache_ok L verify (Some secret) cache' \<and> (\<forall>i. info = Some i \<longleftrightarrow> by_jwt verify now (Some secret) ?h i)"
proof (cases "\<exists>tok. ?h = ''Bearer '' @ tok")
  case True
  then show ?thesis using jwtAuth_token [OF assms(1-3)] by blast
next
  case False
  then have "hd (split_space ?h) \<noteq> ''Bearer''" using split_head h by blast
  then have "jwtAuth L verify now \<lparr>jw_Secret = secret\<rparr> r cache = (Returns None, cache)" by (simp add: jwtAuth_def Let_def)
  then show ?thesis using assms(2) False by (simp add: by_jwt_def)
qed

text \<open>The part of \<open>TryAuth\<close> before the basic credentials.\<close>

lemma TryAuth_jwt:
  assumes "lru_laws L" "cache_ok L verify (jwt_secret c) cache" "header_get ''Authorization'' (hr_header r) \<noteq> ''Bearer''"
  shows "\<exists>info cache'. TryAuth L verify now (Some c) r cache = (case info of
      Some i \<Rightarrow> (Returns (Some i, True), cache')
    | None \<Rightarrow> (case basic_match (ac_Basic c) r of
        Some i \<Rightarrow> (Returns (Some i, True), cache')
      | None \<Rightarrow> (case bearer_match (ac_Bearer c) r of
          Some i \<Rightarrow> (Returns (Some i, True), cache') | None \<Rightarrow> (Returns (None, False), cache')))) \<and>
    cache_ok L verify (jwt_secret c) cache' \<and>
    (\<forall>i. info = Some i \<longleftrightarrow> by_jwt verify now (jwt_secret c) (header_get ''Authorization'' (hr_header r)) i)"
proof (cases "\<exists>s. ac_Jwt c = Some \<lparr>jw_Secret = s\<rparr> \<and> s \<noteq> []")
  case True
  then obtain s where j: "ac_Jwt c = Some \<lparr>jw_Secret = s\<rparr>" and s: "jwt_secret c = Some s" "s \<noteq> []"
    by (auto simp: jwt_secret_def)
  obtain info cache' where A: "jwtAuth L verify now \<lparr>jw_Secret = s\<rparr> r cache = (Returns info, cache')"
    and C: "cache_ok L verify (Some s) cache'"
    and J: "\<forall>i. info = Some i \<longleftrightarrow> by_jwt verify now (Some s) (header_get ''Authorization'' (hr_header r)) i"
    using jwtAuth_exact [OF assms(1), of verify s cache r now] assms(2,3) s by auto
  show ?thesis
  proof (intro exI conjI)
    show "cache_ok L verify (jwt_secret c) cache'" using C s by simp
    show "\<forall>i. info = Some i \<longleftrightarrow> by_jwt verify now (jwt_secret c) (header_get ''Authorization'' (hr_header r)) i"
      using J s by simp
  qed (use A s j in \<open>simp add: TryAuth_def split: option.split\<close>)
next
  case False
  have "jwt_secret c = None \<or> jwt_secret c = Some []"
  proof (cases "ac_Jwt c")
    case (Some j)
    then show ?thesis using False by (cases j) (auto simp: jwt_secret_def)
  qed (simp add: jwt_secret_def)
  then have "ac_Jwt c = None \<or> (\<exists>j. ac_Jwt c = Some j \<and> jw_Secret j = [])"
    "\<And>i. \<not> by_jwt verify now (jwt_secret c) (header_get ''Authorization'' (hr_header r)) i"
    by (auto simp: jwt_secret_def by_jwt_def)
  then show ?thesis
    using assms(2) by (intro exI [of _ None] exI [of _ cache]) (auto simp: TryAuth_def split: option.split)
qed

lemma TryAuth_exact:
  assumes "lru_laws L" "cache_ok L verify (jwt_secret c) cache" "header_get ''Authorization'' (hr_header r) \<noteq> ''Bearer''"
  shows "\<exists>info cache'. TryAuth L verify now (Some c) r cache = (Returns (info, info \<noteq> None), cache') \<and>
    cache_ok L verify (jwt_secret c) cache' \<and> (info \<noteq> None \<longleftrightarrow> (\<exists>i. authentic verify now c r i)) \<and>
    (\<forall>i. info = Some i \<longrightarrow> authentic verify now c r i)"
proof -
  obtain info cache' where T: "TryAuth L verify now (Some c) r cache = (case info of
      Some i \<Rightarrow> (Returns (Some i, True), cache')
    | None \<Rightarrow> (case basic_match (ac_Basic c) r of
        Some i \<Rightarrow> (Returns (Some i, True), cache')
      | None \<Rightarrow> (case bearer_match (ac_Bearer c) r of
          Some i \<Rightarrow> (Returns (Some i, True), cache') | None \<Rightarrow> (Returns (None, False), cache'))))"
    and C: "cache_ok L verify (jwt_secret c) cache'"
    and J: "\<And>i. info = Some i \<longleftrightarrow> by_jwt verify now (jwt_secret c) (header_get ''Authorization'' (hr_header r)) i"
    using TryAuth_jwt [OF assms, of now] by blast
  show ?thesis
  proof (cases info)
    case (Some i)
    then have "authentic verify now c r i" using J by (simp add: authentic_def)
    then show ?thesis using T C Some by auto
  next
    case None
    show ?thesis
    proof (cases "basic_match (ac_Basic c) r")
      case (Some i)
      then have "authentic verify now c r i" using basic_some by (simp add: authentic_def)
      then show ?thesis using T C None Some by auto
    next
      case B: None
      show ?thesis
      proof (cases "bearer_match (ac_Bearer c) r")
        case (Some i)
        then have "authentic verify now c r i" using bearer_some by (simp add: authentic_def)
        then show ?thesis using T C None B Some by auto
      next
        case E: None
        have "\<not> authentic verify now c r i" for i
          using J [of i] None basic_none [OF B] bearer_none [OF E] by (simp add: authentic_def)
        then show ?thesis using T C None B E by auto
      qed
    qed
  qed
qed

text \<open>What the handler does with a request, given what authenticates it: status 401, or the next handler
  with the authentication info in the context.\<close>

definition handed_on :: "(http_request \<Rightarrow> ResponseWriter run \<times> 'h \<times> 's) \<Rightarrow> http_request \<Rightarrow> 's \<Rightarrow>
    AuthInfo option \<Rightarrow> ResponseWriter run \<times> 'h \<times> 's \<Rightarrow> bool" where
  "handed_on next r s info result = (case info of
      None \<Rightarrow> (\<exists>w' h'. result = (Returns w', h', s) \<and> rs_status (sent_response w') = 401)
    | Some i \<Rightarrow> (\<exists>ctx. AuthInfoFromContext ctx = (Some i, True) \<and> result = next (r\<lparr>hr_context := ctx\<rparr>)))"

text \<open>C29: with a cache that only holds verified claims, a request whose authorization header is
  not the single word \<open>Bearer\<close> passes exactly when it is authentic: it carries a token that the configured
  secret verifies and that has not expired, or basic credentials or a bearer token of the configuration. The
  next handler then finds the info of the matching entry in the context; otherwise the answer has status 401 and the next
  handler is not called. Nothing else panics, and the cache stays as it should be.\<close>

theorem auth_exact:
  assumes "lru_laws L" "cache_ok L verify (jwt_secret c) (jwtCache h)" "authConfig h = Some c"
    and "header_get ''Authorization'' (hr_header r) \<noteq> ''Bearer''" "rw_sent w = None"
  shows "\<exists>info cache'. cache_ok L verify (jwt_secret c) cache' \<and>
    (info \<noteq> None \<longleftrightarrow> (\<exists>i. authentic verify now c r i)) \<and> (\<forall>i. info = Some i \<longrightarrow> authentic verify now c r i) \<and>
    TryAuth L verify now (Some c) r (jwtCache h) = (Returns (info, info \<noteq> None), cache') \<and>
    handed_on (\<lambda>r'. case ah_next h w r' s of (out, s') \<Rightarrow> (out, h\<lparr>jwtCache := cache'\<rparr>, s')) r s info
      (Auth_ServeHTTP L verify now h w r s)"
proof -
  obtain info cache' where T: "TryAuth L verify now (Some c) r (jwtCache h) = (Returns (info, info \<noteq> None), cache')"
    and R: "cache_ok L verify (jwt_secret c) cache'" "info \<noteq> None \<longleftrightarrow> (\<exists>i. authentic verify now c r i)"
      "\<forall>i. info = Some i \<longrightarrow> authentic verify now c r i"
    using TryAuth_exact [OF assms(1,2,4), of now] by blast
  have "handed_on (\<lambda>r'. case ah_next h w r' s of (out, s') \<Rightarrow> (out, h\<lparr>jwtCache := cache'\<rparr>, s')) r s info
      (Auth_ServeHTTP L verify now h w r s)"
  proof (cases info)
    case None
    then show ?thesis using T assms(3,5) by (simp add: handed_on_def Auth_ServeHTTP_def writer_simps)
  next
    case (Some i)
    then show ?thesis
      using T assms(3)
      by (auto simp: handed_on_def Auth_ServeHTTP_def AuthInfoFromContext_def WithValue_def
          intro!: exI [of _ "(''authInfo'', CtxAuthInfo i) # hr_context r"])
  qed
  with T R show ?thesis by blast
qed

text \<open>A cache that forgets nothing, and a configuration with one of each.\<close>

definition map_lru :: "(string \<Rightarrow> jwtClaims option) lru_ops" where
  "map_lru = \<lparr>lru_Get = (\<lambda>k c. (c k, c)), lru_Add = (\<lambda>k v c. c(k \<mapsto> v)), lru_Remove = (\<lambda>k c. c(k := None))\<rparr>"

lemma map_lru_laws: "lru_laws map_lru"
  by (simp add: lru_laws_def map_lru_def)

definition sample_config :: AuthConfig where
  "sample_config = \<lparr>ac_Basic = [\<lparr>ba_Username = ''joe'', ba_Password = ''pw'', ba_Settings = VNil\<rparr>],
     ac_Bearer = [\<lparr>be_Token = ''tok'', be_Username = [], be_Settings = VNil\<rparr>], ac_Jwt = Some \<lparr>jw_Secret = ''secret''\<rparr>\<rparr>"

definition sample_auth_request :: "string \<Rightarrow> http_request" where
  "sample_auth_request h = \<lparr>hr_method = ''POST'', hr_proto = 1, hr_header = [(''Authorization'', [h])], hr_body = Inr [],
     hr_context = []\<rparr>"

lemma sample_header: "header_get ''Authorization'' (hr_header (sample_auth_request h)) = h"
proof -
  have "CanonicalHeaderKey ''Authorization'' = ''Authorization''" by code_simp
  then show ?thesis by (simp add: header_get_def header_values_def sample_auth_request_def)
qed

definition sample_handler :: "(string \<Rightarrow> jwtClaims option, go_context) AuthHandler" where
  "sample_handler = \<lparr>authConfig = Some sample_config, ah_next = (\<lambda>w r s. (Returns w, hr_context r)), jwtCache = Map.empty\<rparr>"

theorem auth_exact_witness:
  "\<exists>info ctx' h'. Auth_ServeHTTP map_lru (\<lambda>s t. None) 0 sample_handler new_writer
      (sample_auth_request ''Bearer tok'') [] = (Returns new_writer, h', ctx') \<and> AuthInfoFromContext ctx' = (Some info, True)"
proof -
  have c: "cache_ok map_lru (\<lambda>s t. None) (jwt_secret sample_config) (jwtCache sample_handler)"
    by (simp add: cache_ok_def map_lru_def sample_handler_def)
  have cfg: "authConfig sample_handler = Some sample_config" by (simp add: sample_handler_def)
  have h: "header_get ''Authorization'' (hr_header (sample_auth_request ''Bearer tok'')) \<noteq> ''Bearer''"
    by (simp add: sample_header)
  have w: "rw_sent new_writer = None" by (simp add: new_writer_def)
  have "authentic (\<lambda>s t. None) 0 sample_config (sample_auth_request ''Bearer tok'') \<lparr>ai_Username = ''tok'', ai_Settings = VNil\<rparr>"
    by (simp add: authentic_def by_bearer_def sample_header) (simp add: sample_config_def)
  then show ?thesis
    using auth_exact [OF map_lru_laws c cfg h w, of 0 "[]"] by (auto simp: handed_on_def sample_handler_def)
qed

text \<open>C30: a request whose authorization header is the single word \<open>Bearer\<close> makes the handler
  panic as soon as the configuration has a JWT secret: the code takes the second of the parts of the header
  without checking that there are two.\<close>

theorem bearer_panics:
  assumes "cache_ok L verify (jwt_secret c) (jwtCache h)" "authConfig h = Some c" "ac_Jwt c = Some j" "jw_Secret j \<noteq> []"
    and "header_get ''Authorization'' (hr_header r) = ''Bearer''"
  shows "fst (Auth_ServeHTTP L verify now h w r s) = Panics (PValue ''index out of range'')"
proof -
  have "fst (lru_Get L ''Bearer'' (jwtCache h)) = None"
    using assms(1) by (cases "fst (lru_Get L ''Bearer'' (jwtCache h))") (auto simp: cache_ok_def)
  then show ?thesis
    using assms(2-5) by (simp add: Auth_ServeHTTP_def TryAuth_def jwtAuth_def Let_def case_prod_unfold)
qed

theorem bearer_panics_witness:
  "fst (Auth_ServeHTTP map_lru (\<lambda>s t. None) 0 sample_handler new_writer (sample_auth_request ''Bearer'') []) =
   Panics (PValue ''index out of range'')"
  by (rule bearer_panics [where c = sample_config and j = "\<lparr>jw_Secret = ''secret''\<rparr>"])
    (simp_all add: cache_ok_def map_lru_def sample_handler_def sample_config_def sample_header)

text \<open>With a configuration that passed \<open>ValidateValues\<close>, a request with empty
  credentials (no authorization header, or an empty bearer token) is answered with status 401 and not
  handed on, provided the empty token verifies under no secret.\<close>

lemma valid_config_refuses:
  assumes cfg: "ValidateValues (Some c) = None"
    and L: "lru_laws L" "cache_ok L verify (jwt_secret c) (jwtCache h)" "authConfig h = Some c"
    and v: "\<And>k. verify k [] = None"
    and h: "header_get ''Authorization'' (hr_header r) \<in> {[], ''Bearer ''}" and w: "rw_sent w = None"
  shows "\<exists>w' h'. Auth_ServeHTTP L verify now h w r s = (Returns w', h', s) \<and> rs_status (sent_response w') = 401"
proof -
  have "\<not> by_jwt verify now (jwt_secret c) (header_get ''Authorization'' (hr_header r)) i" for i
    using h v by (auto simp: by_jwt_def)
  moreover have "header_get ''Authorization'' (hr_header r) \<noteq> ''Bearer''" using h by auto
  moreover have "basic_match (ac_Basic c) r = None"
    using h by (auto simp: basic_match_def BasicAuth_def lower_def)
  moreover have "bearer_match (ac_Bearer c) r = None"
    using cfg h first_bad_iff [of "\<lambda>b. be_Token b = []" "ac_Bearer c"]
    by (auto simp: bearer_match_def first_some_None ValidateValues_def split: if_splits)
  ultimately obtain cache' where "TryAuth L verify now (Some c) r (jwtCache h) = (Returns (None, False), cache')"
    using TryAuth_jwt [OF L(1,2), of r now] by (auto split: option.splits)
  then show ?thesis using w L(3) by (simp add: Auth_ServeHTTP_def writer_simps)
qed

end
