(* ===== verification/Auth_Http.thy ===== *)
theory Auth_Http
  imports Auth Http1 Actor_Laws
begin

text \<open>
  The authentication handler in front of the HTTP/1.1 server, and an HTTP/1.1 client whose extra headers carry
  credentials: what reaches the callbacks of the actor, and what the client gets.
\<close>

text \<open>The chain of handlers, on the state of the authentication handler and of the world.\<close>

definition guarded :: "'c lru_ops \<Rightarrow> (string \<Rightarrow> string \<Rightarrow> jwtClaims option) \<Rightarrow> int \<Rightarrow>
    ResponseWriter \<Rightarrow> http_request \<Rightarrow> ('c, 's) AuthHandler \<times> 's \<Rightarrow> ResponseWriter run \<times> ('c, 's) AuthHandler \<times> 's" where
  "guarded L verify now w r st = (case st of (h, s) \<Rightarrow> Auth_ServeHTTP L verify now h w r s)"

text \<open>The request of a call as far as authentication looks at it: its headers.\<close>

definition credentials :: "H1Client \<Rightarrow> RequestMessage \<Rightarrow> http_request" where
  "credentials cl q = h1_post (h1_connect cl) (traceId q) []"

lemma credentials_header: "hr_header (h1_post (h1_connect cl) (traceId q) body) = hr_header (credentials cl q)"
  by (simp add: credentials_def h1_post_def Let_def)

lemma authentic_header:
  "hr_header r = hr_header r' \<Longrightarrow> authentic verify now c r i \<longleftrightarrow> authentic verify now c r' i"
  by (simp add: authentic_def by_basic_def BasicAuth_def)

text \<open>What the two branches of \<open>auth_exact\<close> make of a request.\<close>

lemma guarded_refused:
  assumes "lru_laws L" "cache_ok L verify (jwt_secret c) (jwtCache h)" "authConfig h = Some c"
    and "header_get ''Authorization'' (hr_header r) \<noteq> ''Bearer''" "rw_sent w = None"
    and no: "\<And>i. \<not> authentic verify now c r i"
  shows "\<exists>cache' w'. cache_ok L verify (jwt_secret c) cache' \<and>
    Auth_ServeHTTP L verify now h w r s = (Returns w', h\<lparr>jwtCache := cache'\<rparr>, s) \<and>
    sent_response w' = \<lparr>rs_status = 401, rs_header = rw_header w, rs_body = Inr (rw_body w @ ''auth failed!'' @ [CHR 0x0A])\<rparr>"
proof -
  obtain info cache' where "TryAuth L verify now (Some c) r (jwtCache h) = (Returns (info, info \<noteq> None), cache')"
    "cache_ok L verify (jwt_secret c) cache'" "info \<noteq> None \<longleftrightarrow> (\<exists>i. authentic verify now c r i)"
    using TryAuth_exact [OF assms(1,2,4), of now] by blast
  then show ?thesis using assms(3,5) no
    by (intro exI [of _ cache']) (simp add: Auth_ServeHTTP_def writer_simps)
qed

lemma guarded_passed:
  assumes "lru_laws L" "cache_ok L verify (jwt_secret c) (jwtCache h)" "authConfig h = Some c"
    and "header_get ''Authorization'' (hr_header r) \<noteq> ''Bearer''"
    and yes: "authentic verify now c r j"
  shows "\<exists>i cache'. authentic verify now c r i \<and> cache_ok L verify (jwt_secret c) cache' \<and>
    Auth_ServeHTTP L verify now h w r s =
      (case ah_next h w (r\<lparr>hr_context := WithValue (hr_context r) ''authInfo'' (CtxAuthInfo i)\<rparr>) s of
        (out, s') \<Rightarrow> (out, h\<lparr>jwtCache := cache'\<rparr>, s'))"
proof -
  obtain info cache' where T: "TryAuth L verify now (Some c) r (jwtCache h) = (Returns (info, info \<noteq> None), cache')"
    "cache_ok L verify (jwt_secret c) cache'" "info \<noteq> None \<longleftrightarrow> (\<exists>i. authentic verify now c r i)"
    "\<forall>i. info = Some i \<longrightarrow> authentic verify now c r i"
    using TryAuth_exact [OF assms(1,2,4), of now] by blast
  then obtain i where "info = Some i" using yes by blast
  then show ?thesis using T assms(3)
    by (intro exI [of _ i] exI [of _ cache']) (simp add: Auth_ServeHTTP_def)
qed

text \<open>A call that reaches the callback of its method.\<close>

lemma h1_served:
  assumes q: "ParseBytes json_scan body = Returns (Inr (MRequest q))" and "hr_method r = ''POST''" "hr_body r = Inr body"
    and fed: "Feed decode actor (NewRPCRequest (hr_context r) (MRequest q) TransportHTTP True) s = (Returns (Some m, None), s')"
    and m: "MessageBytes ff (SetTraceId [] m) = Inr k"
  shows "\<exists>w'. H1_ServeHTTP ff json_print json_scan decode actor new_writer r s = (Returns w', s') \<and>
    sent_response w' = \<lparr>rs_status = 200, rs_header = [], rs_body = Inr (json_print k)\<rparr>"
  using respond_message_sent [OF m, of new_writer json_print "MRequest q"] assms
  by (auto simp: H1_ServeHTTP_def respond_def new_writer_def)

lemma request_call: "kind_ok (MRequest q) \<Longrightarrow> is_call (MRequest q) (req_Method q) (req_Params q)"
  by (simp add: is_call_def kind_ok_def is_defs MustMethod_def MustParams_def)

lemma callback_fed:
  assumes "kind_ok (MRequest q)" "resolve a (req_Method q) = Some (v, b, mh)" "mh_schema mh = None"
    and "callback mh (NewRPCRequest ctx (MRequest q) t True) (req_Params q) s = (Returns (RVal x, None), s')"
  shows "Feed decode a (NewRPCRequest ctx (MRequest q) t True) s =
    (Returns (Some (MResult \<lparr>kind = MKResult, traceId = traceId q, res_Id = req_Id q, res_Result = x\<rparr>), None), s')"
proof -
  have "is_call (rq_msg (NewRPCRequest ctx (MRequest q) t True)) (req_Method q) (req_Params q)"
    using request_call [OF assms(1)] by (simp add: NewRPCRequest_def)
  from Feed_dispatch [OF this, of decode a s] show ?thesis
    using assms by (simp add: dispatch_def call_handler_def NewRPCRequest_def recover_call_def wrapResult_def
        NewResultMessage_def MustId_def rawResultMessage_def is_defs kind_ok_def TraceId_def msg_kind_def)
qed

text \<open>The two outcomes of a call through the handlers.\<close>

lemma call_refused:
  assumes L: "lru_laws L" "cache_ok L verify (jwt_secret c) (jwtCache h)" "authConfig h = Some c"
    and q: "travels ff (MRequest (q\<lparr>traceId := []\<rparr>))"
    and hdr: "header_get ''Authorization'' (hr_header (credentials cl q)) \<noteq> ''Bearer''"
    and no: "\<And>i. \<not> authentic verify now c (credentials cl q) i"
  shows "\<exists>h'. cache_ok L verify (jwt_secret c) (jwtCache h') \<and>
    H1_request ff json_print json_scan (over_handler (guarded L verify now)) cl q (h, s) =
     (Returns (Inl (EWrap ''abnormal response'' (EWrapped \<lparr>StatusCode = 401, rHeader = []\<rparr> (''auth failed!'' @ [CHR 0x0A])))),
      q\<lparr>traceId := []\<rparr>, (h', s))"
proof -
  obtain j where j: "MessageBytes ff (MRequest (q\<lparr>traceId := []\<rparr>)) = Inr j" using travels_parse [OF q] by blast
  define r where "r = h1_post (h1_connect cl) (traceId q) (json_print j)"
  have r: "hr_header r = hr_header (credentials cl q)" by (simp add: r_def credentials_header)
  then have "header_get ''Authorization'' (hr_header r) \<noteq> ''Bearer''" "\<And>i. \<not> authentic verify now c r i"
    using hdr no authentic_header [OF r] by simp_all
  then obtain cache' w' where C: "cache_ok L verify (jwt_secret c) cache'"
    and A: "Auth_ServeHTTP L verify now h new_writer r s = (Returns w', h\<lparr>jwtCache := cache'\<rparr>, s)"
      "sent_response w' = \<lparr>rs_status = 401, rs_header = rw_header new_writer,
        rs_body = Inr (rw_body new_writer @ ''auth failed!'' @ [CHR 0x0A])\<rparr>"
    using guarded_refused [OF L, of r new_writer now s] by (auto simp: new_writer_def)
  from A show ?thesis using j C
    by (intro exI [of _ "h\<lparr>jwtCache := cache'\<rparr>"])
      (simp add: H1_request_def Let_def r_def [symmetric] over_handler_def guarded_def h1_result_def new_writer_def)
qed

lemma call_passed:
  assumes L: "lru_laws L" "cache_ok L verify (jwt_secret c) (jwtCache h)" "authConfig h = Some c"
    and nxt: "ah_next h = H1_ServeHTTP ff json_print json_scan decode a"
    and q: "travels ff (MRequest (q\<lparr>traceId := []\<rparr>))"
    and hdr: "header_get ''Authorization'' (hr_header (credentials cl q)) \<noteq> ''Bearer''"
    and yes: "authentic verify now c (credentials cl q) i0"
    and mh: "resolve a (req_Method q) = Some (v, b, mh)" "mh_schema mh = None"
  shows "\<exists>i h' ctx. authentic verify now c (credentials cl q) i \<and> cache_ok L verify (jwt_secret c) (jwtCache h') \<and>
    AuthInfoFromContext ctx = (Some i, True) \<and>
    (\<forall>x s'. callback mh (NewRPCRequest ctx (MRequest ((wired_request ff q)\<lparr>traceId := []\<rparr>)) TransportHTTP True) (req_Params (wired_request ff q)) s =
        (Returns (RVal x, None), s') \<longrightarrow>
      travels ff (MResult \<lparr>kind = MKResult, traceId = [], res_Id = wired_id (req_Id q), res_Result = x\<rparr>) \<longrightarrow>
      H1_request ff json_print json_scan (over_handler (guarded L verify now)) cl q (h, s) =
       (Returns (Inr (MResult \<lparr>kind = MKResult, traceId = traceId q, res_Id = wired_id (req_Id q), res_Result = wired ff x\<rparr>)),
        q\<lparr>traceId := []\<rparr>, (h', s')))"
proof -
  let ?q = "(wired_request ff q)\<lparr>traceId := []\<rparr>"
  obtain j where j: "MessageBytes ff (MRequest (q\<lparr>traceId := []\<rparr>)) = Inr j"
      "ParseBytes json_scan (json_print j) = Returns (Inr (MRequest ?q))"
    using travels_parse [OF q] by (auto simp: wired_MRequest)
  define r where "r = h1_post (h1_connect cl) (traceId q) (json_print j)"
  have r: "hr_header r = hr_header (credentials cl q)" "hr_method r = ''POST''" "hr_body r = Inr (json_print j)"
    by (simp_all add: r_def credentials_header) (simp_all add: h1_post_def Let_def)
  have "header_get ''Authorization'' (hr_header r) \<noteq> ''Bearer''" "authentic verify now c r i0"
    using hdr yes r(1) authentic_header [OF r(1)] by simp_all
  then obtain i cache' where i: "authentic verify now c r i" "cache_ok L verify (jwt_secret c) cache'"
    and A: "Auth_ServeHTTP L verify now h new_writer r s =
      (case ah_next h new_writer (r\<lparr>hr_context := WithValue (hr_context r) ''authInfo'' (CtxAuthInfo i)\<rparr>) s of
        (out, s') \<Rightarrow> (out, h\<lparr>jwtCache := cache'\<rparr>, s'))"
    using guarded_passed [OF L] by blast
  let ?ctx = "WithValue (hr_context r) ''authInfo'' (CtxAuthInfo i)"
  have kind: "kind_ok (MRequest ?q)" using q by (simp add: travels_def wired_MRequest sendable_def wire_message_def)
  have "H1_request ff json_print json_scan (over_handler (guarded L verify now)) cl q (h, s) =
       (Returns (Inr (MResult \<lparr>kind = MKResult, traceId = traceId q, res_Id = wired_id (req_Id q), res_Result = wired ff x\<rparr>)),
        q\<lparr>traceId := []\<rparr>, (h\<lparr>jwtCache := cache'\<rparr>, s'))"
    if x: "callback mh (NewRPCRequest ?ctx (MRequest ?q) TransportHTTP True) (req_Params (wired_request ff q)) s = (Returns (RVal x, None), s')"
      and m: "travels ff (MResult \<lparr>kind = MKResult, traceId = [], res_Id = wired_id (req_Id q), res_Result = x\<rparr>)" for x s'
  proof -
    let ?m = "MResult \<lparr>kind = MKResult, traceId = [], res_Id = wired_id (req_Id q), res_Result = x\<rparr>"
    obtain k where k: "MessageBytes ff ?m = Inr k"
      "ParseBytes json_scan (json_print k) =
        Returns (Inr (MResult \<lparr>kind = MKResult, traceId = [], res_Id = wired_id (req_Id q), res_Result = wired ff x\<rparr>))"
      using travels_parse [OF m] by (auto simp: wired_MResult)
    have "\<exists>w'. ah_next h new_writer (r\<lparr>hr_context := ?ctx\<rparr>) s = (Returns w', s') \<and>
        sent_response w' = \<lparr>rs_status = 200, rs_header = [], rs_body = Inr (json_print k)\<rparr>"
      unfolding nxt
      by (rule h1_served [OF j(2), where m = ?m])
        (use r k(1) callback_fed [OF kind, of a v b mh ?ctx TransportHTTP s x s' decode] mh x in \<open>simp_all add: SetTraceId_def\<close>)
    then show ?thesis
      using A j k by (auto simp: over_handler_def guarded_def H1_request_def Let_def r_def [symmetric] h1_result_def
          h1_parse_def SetTraceId_def)
  qed
  moreover have "AuthInfoFromContext ?ctx = (Some i, True)" by (simp add: AuthInfoFromContext_def WithValue_def)
  ultimately show ?thesis using i authentic_header [OF r(1)]
    by (intro exI [of _ i] exI [of _ "h\<lparr>jwtCache := cache'\<rparr>"] exI [of _ ?ctx]) simp
qed


text \<open>A client with a bearer token, and an actor whose one callback keeps the context it is given.\<close>

definition sample_token_client :: H1Client where
  "sample_token_client = \<lparr>h1_scheme = ''http'', h1_extraHeader = [(''Authorization'', [''Bearer tok''])], h1_Timeout = 0,
     h1_clientTLS = None, h1_httpClient = None\<rparr>"

definition sample_whoami :: RequestMessage where
  "sample_whoami = \<lparr>kind = MKRequest, traceId = [], req_Id = VInt 1, req_Method = ''get'', req_Params = [], req_paramsAreList = True\<rparr>"

definition keep_context :: "go_context MethodHandler" where
  "keep_context = \<lparr>callback = \<lambda>req ps w. (Returns (RVal (VInt 1), None), RPCRequest_Context req), mh_schema = None\<rparr>"

definition sample_guard :: "(string \<Rightarrow> jwtClaims option, go_context) AuthHandler" where
  "sample_guard = \<lparr>authConfig = Some sample_config,
     ah_next = H1_ServeHTTP (\<lambda>x. ''0'') json_print json_scan (\<lambda>t. Inr []) (Actor True True [(''get'', keep_context)] None None []),
     jwtCache = Map.empty\<rparr>"


end
