(* ===== verification/Clients.thy ===== *)
theory Clients
  imports Streaming_Props Http1
begin

text \<open>
  The interface \<open>Client\<close> of \<^verbatim>\<open>http/types.go\<close>, as far as calls go: \<open>UnwrapCall\<close> is \<open>Call\<close> followed by the reading of
  the answer. Both the streaming client and the HTTP/1.1 client provide it. What the interface leaves open is
  which messages \<open>Call\<close> returns; the streaming client only returns results and errors, the HTTP/1.1 client
  returns whatever the body of the response holds.
\<close>

text \<open>What \<open>UnwrapCall\<close> promises for an answer: the decoded value of a result, the error of an error message, which
  may be nil.\<close>

definition answer_value :: "(gval \<Rightarrow> goerr + 'o) \<Rightarrow> RequestMessage \<Rightarrow> Message \<Rightarrow> (goerr + 'o) option" where
  "answer_value decode q m = (case m of
      MResult r \<Rightarrow> Some (case decode (res_Result r) of
          Inl e \<Rightarrow> Inl (EWrap (''RPC('' @ req_Method q @ '')'') e)
        | Inr y \<Rightarrow> Inr y)
    | MError e \<Rightarrow> map_option (\<lambda>x. Inl (ERpc x)) (err_Error e)
    | _ \<Rightarrow> None)"

locale calling_client =
  fixes call :: "RequestMessage \<Rightarrow> 'r \<Rightarrow> goerr + Message"
    and unwrap :: "(gval \<Rightarrow> goerr + 'o) \<Rightarrow> RequestMessage \<Rightarrow> 'r \<Rightarrow> (RPCError, (goerr + 'o) option) outcome"
  assumes unwrap_failed: "call q res = Inl e \<Longrightarrow> unwrap decode q res = Returns (Some (Inl e))"
    and unwrap_result: "call q res = Inr m \<Longrightarrow> IsResult m \<Longrightarrow>
      unwrap decode q res = obind (MustResult m) (\<lambda>v. Returns (Some (case decode v of
        Inl e \<Rightarrow> Inl (EWrap (''RPC('' @ req_Method q @ '')'') e) | Inr y \<Rightarrow> Inr y)))"
    and unwrap_error: "call q res = Inr m \<Longrightarrow> \<not> IsResult m \<Longrightarrow>
      unwrap decode q res = obind (MustError m) (\<lambda>e. Returns (map_option (\<lambda>x. Inl (ERpc x)) e))"
begin

lemma unwrap_answer:
  assumes "call q res = Inr m" "kind_ok m" "IsResultOrError m"
  shows "unwrap decode q res = Returns (answer_value decode q m)"
proof (cases "IsResult m")
  case True
  then show ?thesis using assms(2) unwrap_result [OF assms(1)]
    by (cases m) (simp_all add: kind_ok_def is_defs MustResult_def answer_value_def)
next
  case False
  then show ?thesis using assms(2,3) unwrap_error [OF assms(1)]
    by (cases m) (simp_all add: kind_ok_def is_defs MustError_def answer_value_def)
qed

lemma unwrap_panics:
  assumes "call q res = Inr m" "kind_ok m" "\<not> IsResultOrError m"
  shows "unwrap decode q res = Panics (NewErrMsgType ''MustError'')"
  using assms unwrap_error [OF assms(1)] by (cases m) (simp_all add: kind_ok_def is_defs MustError_def)

end

interpretation streaming: calling_client Call UnwrapCall
  by unfold_locales (simp_all add: UnwrapCall_def)

interpretation h1: calling_client H1_Call H1_UnwrapCall
  by unfold_locales (simp_all add: H1_UnwrapCall_def)

text \<open>What the callers of a streaming client get.\<close>

definition unwraps :: "(gval \<Rightarrow> goerr + 'o) \<Rightarrow> 't client \<Rightarrow> bool" where
  "unwraps decode c = (\<forall>n ca. callers c n = Some ca \<longrightarrow> (case ca_phase ca of
      Returned m \<Rightarrow> UnwrapCall decode (ca_req ca) (Inr m) = Returns (answer_value decode (ca_req ca) m)
    | Failed e \<Rightarrow> UnwrapCall decode (ca_req ca) (Inl e) =
        Returns (Some (Inl (EWrap (''RPC('' @ req_Method (ca_req ca) @ '')'') e)))
    | _ \<Rightarrow> True))"

lemma client_unwraps:
  assumes "client_ok c"
  shows "unwraps decode c"
  unfolding unwraps_def
proof (intro allI impI)
  fix n ca assume "callers c n = Some ca"
  then have "caller_ok ca" using client_caller [OF assms] by blast
  then show "case ca_phase ca of
      Returned m \<Rightarrow> UnwrapCall decode (ca_req ca) (Inr m) = Returns (answer_value decode (ca_req ca) m)
    | Failed e \<Rightarrow> UnwrapCall decode (ca_req ca) (Inl e) =
        Returns (Some (Inl (EWrap (''RPC('' @ req_Method (ca_req ca) @ '')'') e)))
    | _ \<Rightarrow> True"
    by (auto simp: caller_ok_def answer_to_def Call_def intro: streaming.unwrap_answer streaming.unwrap_failed
        split: phase.split)
qed

text \<open>An HTTP/1.1 server that answers a call with a given text.\<close>

definition answering :: "string \<Rightarrow> http_request \<Rightarrow> 's \<Rightarrow> http_result \<times> 's" where
  "answering body r s = (Responded \<lparr>rs_status = 200, rs_header = [], rs_body = Inr body\<rparr>, s)"

lemma h1_answered:
  assumes "sendable ff m" "MessageBytes ff m = Inr j" "MessageBytes ff (MRequest (q\<lparr>traceId := []\<rparr>)) = Inr k"
  shows "fst (H1_request ff json_print json_scan (answering (json_print j)) cl q s) = Returns (Inr (SetTraceId (traceId q) m))"
  using sendable_parse [OF assms(1)] assms(2,3)
  by (simp add: H1_request_def Let_def answering_def h1_result_def h1_parse_def)

lemma SetTraceId_kind [simp]: "kind_ok (SetTraceId t m) = kind_ok m" "IsResultOrError (SetTraceId t m) = IsResultOrError m"
  by (cases m; simp add: SetTraceId_def kind_ok_def is_defs)+

text \<open>C26: the streaming clients keep what \<open>UnwrapCall\<close> promises: in every reachable state, whatever the network
  sent, a call that returned gives the decoded value of its result or the error of its error message, and a call
  that failed gives that error; none of them panics. The HTTP/1.1 client keeps it exactly for the answers that are
  results or errors: a server that answers a call with a request or a notify makes the caller panic, since \<open>Call\<close> does
  not look at the kind of the answer.\<close>

theorem unwrap_safe:
  "(\<forall>c. reachable (ws_transport ff) c \<longrightarrow> unwraps decode c) \<and>
   (\<forall>c. reachable (h2_transport ff) c \<longrightarrow> unwraps decode c) \<and>
   (\<forall>m j q k cl s. sendable ff m \<longrightarrow> MessageBytes ff m = Inr j \<longrightarrow>
      MessageBytes ff (MRequest (q\<lparr>traceId := []\<rparr>)) = Inr k \<longrightarrow>
      (\<exists>m'. fst (H1_request ff json_print json_scan (answering (json_print j)) cl q s) = Returns (Inr m') \<and>
        H1_UnwrapCall decode q (Inr m') =
          (if IsResultOrError m then Returns (answer_value decode q m') else Panics (NewErrMsgType ''MustError''))))"
proof (intro conjI allI impI)
  show "unwraps decode c" if "reachable (ws_transport ff) c" for c
    using ws.reachable_ok [OF that] by (blast intro: client_unwraps)
  show "unwraps decode c" if "reachable (h2_transport ff) c" for c
    using h2.reachable_ok [OF that] by (blast intro: client_unwraps)
  fix m j q k and cl :: H1Client and s :: 'd
  assume m: "sendable ff m" "MessageBytes ff m = Inr j" and q: "MessageBytes ff (MRequest (q\<lparr>traceId := []\<rparr>)) = Inr k"
  have "kind_ok m" using m(1) by (simp add: sendable_def wire_message_def message_ok_kind)
  then show "\<exists>m'. fst (H1_request ff json_print json_scan (answering (json_print j)) cl q s) = Returns (Inr m') \<and>
      H1_UnwrapCall decode q (Inr m') =
        (if IsResultOrError m then Returns (answer_value decode q m') else Panics (NewErrMsgType ''MustError''))"
    using h1_answered [OF m q, of cl s]
    by (auto simp: H1_Call_def intro!: exI [of _ "SetTraceId (traceId q) m"] h1.unwrap_answer h1.unwrap_panics)
qed

theorem unwrap_safe_witness:
  "unwraps Inr (up Map.empty [MRequest call_1] [0 \<mapsto> at_phase call_1 Waiting [a_result]] [VInt 1] []) \<and>
   (\<exists>j m'. MessageBytes (\<lambda>x. ''0'') (MNotify \<lparr>kind = MKNotify, traceId = [], ntf_Method = ''get'', ntf_Params = [], ntf_paramsAreList = True\<rparr>) = Inr j \<and>
     fst (H1_request (\<lambda>x. ''0'') json_print json_scan (answering (json_print j))
       \<lparr>h1_scheme = ''http'', h1_extraHeader = [], h1_Timeout = 0, h1_clientTLS = None, h1_httpClient = None\<rparr>
       \<lparr>kind = MKRequest, traceId = [], req_Id = VInt 1, req_Method = ''get'', req_Params = [], req_paramsAreList = True\<rparr> (0::nat)) =
       Returns (Inr m') \<and>
     H1_UnwrapCall Inr \<lparr>kind = MKRequest, traceId = [], req_Id = VInt 1, req_Method = ''get'', req_Params = [], req_paramsAreList = True\<rparr>
       (Inr m') = Panics (NewErrMsgType ''MustError''))" (is "_ \<and> (\<exists>j m'. MessageBytes _ ?m = _ \<and> fst (H1_request _ _ _ _ ?cl ?q _) = _ \<and> _)")
proof
  show "unwraps Inr (up Map.empty [MRequest call_1] [0 \<mapsto> at_phase call_1 Waiting [a_result]] [VInt 1] [])"
    by (rule unwrap_safe [THEN conjunct1, rule_format, OF run_answered [of "\<lambda>q. ''0''"]])
  have one: "show_int 1 = ''1''" "valid_number ''1''" by code_simp+
  have m: "sendable (\<lambda>x. ''0'') ?m" and q: "sendable (\<lambda>x. ''0'') (MRequest (?q\<lparr>traceId := []\<rparr>))"
    by (simp_all add: sendable_def wire_message_def kind_ok_def msg_kind_def kinds wire_id_def in_int64_def
        int64_min_def int64_max_def wire_params_ok_def MessageBytes_def Interface_def marshal_template_def
        wire_params_def omit_empty_def one max_depth_def byte_val_def)
  obtain j where j: "MessageBytes (\<lambda>x. ''0'') ?m = Inr j" using sendable_parse [OF m] by blast
  obtain k where k: "MessageBytes (\<lambda>x. ''0'') (MRequest (?q\<lparr>traceId := []\<rparr>)) = Inr k" using sendable_parse [OF q] by blast
  obtain m' where "fst (H1_request (\<lambda>x. ''0'') json_print json_scan (answering (json_print j)) ?cl ?q (0::nat)) = Returns (Inr m')"
    "H1_UnwrapCall Inr ?q (Inr m') =
      (if IsResultOrError ?m then Returns (answer_value Inr ?q m') else Panics (NewErrMsgType ''MustError''))"
    using unwrap_safe [of "\<lambda>x. ''0''" Inr, THEN conjunct2, THEN conjunct2, rule_format, OF m j k] by metis
  moreover have "\<not> IsResultOrError ?m" by (simp add: is_defs)
  ultimately show "\<exists>j m'. MessageBytes (\<lambda>x. ''0'') ?m = Inr j \<and>
      fst (H1_request (\<lambda>x. ''0'') json_print json_scan (answering (json_print j)) ?cl ?q (0::nat)) = Returns (Inr m') \<and>
      H1_UnwrapCall Inr ?q (Inr m') = Panics (NewErrMsgType ''MustError'')"
    using j by (intro exI [of _ j] exI [of _ m']) simp
qed

end
