(* ===== verification/Gateway.thy ===== *)
theory Gateway
  imports Sessions
begin

text \<open>
  The handler that serves all three protocols on one port, of \<^verbatim>\<open>http/gateway_handler.go\<close>. Its fields are HTTP
  handlers: functions of a request and of the state behind them, among which \<open>ServeHTTP\<close> chooses. How a handler of
  each kind serves is an argument, and so is the cleartext HTTP/2 of \<^verbatim>\<open>golang.org/x/net\<close>.
\<close>

type_synonym 's handler = "http_request \<Rightarrow> 's \<Rightarrow> 's"

record ('w, 's) GatewayHandler =
  h1Handler :: "'s handler"
  wsHandler :: "'s handler"
  h2Handler :: "'s handler"
  gw_Actor :: "'w Actor"
  insecure :: bool

definition NewGatewayHandler :: "('w H1Handler \<Rightarrow> 's handler) \<Rightarrow> ('w WSHandler \<Rightarrow> 's handler) \<Rightarrow>
    ('w H2Handler \<Rightarrow> 's handler) \<Rightarrow> ('w H2Handler \<Rightarrow> 's handler) \<Rightarrow> 'w Actor option \<Rightarrow> bool \<Rightarrow>
    ('w, 's) GatewayHandler" where
  "NewGatewayHandler serve_h1 serve_ws serve_h2 h2c actor0 insec =
     (let actor = (case actor0 of None \<Rightarrow> NewActor | Some a \<Rightarrow> a)
      in \<lparr>h1Handler = serve_h1 (NewH1Handler (Some actor)), wsHandler = serve_ws (NewWSHandler (Some actor)),
          h2Handler = (if insec then H2CHandler h2c (NewH2Handler (Some actor)) else serve_h2 (NewH2Handler (Some actor))),
          gw_Actor = actor, insecure = insec\<rparr>)"

definition Gateway_ServeHTTP :: "('w, 's) GatewayHandler \<Rightarrow> 's handler" where
  "Gateway_ServeHTTP g r =
     (if 2 \<le> hr_proto r then h2Handler g r
      else let upgradeHeader = header_get ''Upgrade'' (hr_header r) in
        if upgradeHeader = ''websocket'' then wsHandler g r
        else if upgradeHeader = ''h2c'' then h2Handler g r
        else h1Handler g r)"

text \<open>Whatever the protocol, the gateway serves with the actor it was made with: the handler chosen holds that actor,
  and the HTTP/2 handler its fallback makes holds it too.\<close>

definition served_by :: "'w Actor \<Rightarrow> 'w H1Handler + 'w WSHandler + 'w H2Handler \<Rightarrow> bool" where
  "served_by a h = (case h of
      Inl h1 \<Rightarrow> h1h_Actor h1 = a
    | Inr (Inl wsh) \<Rightarrow> wh_Actor wsh = a \<and> wh_SpawnGoroutine wsh
    | Inr (Inr h2) \<Rightarrow> hh_Actor h2 = a \<and> hh_SpawnGoroutine h2 \<and> h1h_Actor (fst (FallbackHandler h2)) = a)"

text \<open>The gateway over handlers that note which of them served.\<close>

definition noting_gateway :: "'w Actor option \<Rightarrow> bool \<Rightarrow> ('w, ('w H1Handler + 'w WSHandler + 'w H2Handler) list) GatewayHandler" where
  "noting_gateway = NewGatewayHandler (\<lambda>h r s. s @ [Inl h]) (\<lambda>h r s. s @ [Inr (Inl h)]) (\<lambda>h r s. s @ [Inr (Inr h)])
     (\<lambda>h r s. s @ [Inr (Inr h)])"

lemma gateway_one_actor:
  "\<exists>h. Gateway_ServeHTTP (noting_gateway (Some a) insec) r s = s @ [h] \<and> served_by a h"
  by (auto simp: Gateway_ServeHTTP_def noting_gateway_def NewGatewayHandler_def Let_def served_by_def NewH1Handler_def
      NewWSHandler_def NewH2Handler_def H2CHandler_def FallbackHandler_def)

text \<open>A request is handed to the websocket handler only when its \<open>Upgrade\<close> header is spelled in lower case.\<close>

lemma gateway_case_sensitive:
  "hr_proto r < 2 \<Longrightarrow> header_get ''Upgrade'' (hr_header r) = ''WebSocket'' \<Longrightarrow> Gateway_ServeHTTP g r s = h1Handler g r s"
  by (simp add: Gateway_ServeHTTP_def)

end
