(* ===== verification/Tools.thy ===== *)
theory Tools
  imports Http1
begin

text \<open>
  The helpers around the library: method names (\<^verbatim>\<open>validators.go\<close>), the command line syntax of
  parameters (\<^verbatim>\<open>utils.go\<close>) and of headers (\<^verbatim>\<open>http/client_util.go\<close>), the choice of a client
  (\<^verbatim>\<open>http/client_factory.go\<close>) and of the TLS settings (\<^verbatim>\<open>http/server_utils.go\<close>). Files, the URL parser
  and the tokenizer \<open>scan\<close> are arguments.
\<close>

section \<open>Method names\<close>

definition is_alnum :: "char \<Rightarrow> bool" where
  "is_alnum c = (is_digit c \<or> (CHR ''a'' \<le> c \<and> c \<le> CHR ''z'') \<or> (CHR ''A'' \<le> c \<and> c \<le> CHR ''Z''))"

definition IsMethod :: "string \<Rightarrow> bool" where
  "IsMethod name = (name \<noteq> [] \<and> list_all (\<lambda>c. is_alnum c \<or> c \<in> set ''-_:+.'') name)"

definition IsPublicMethod :: "string \<Rightarrow> bool" where
  "IsPublicMethod name =
     (if take 4 name = ''rpc.'' then False
      else case name of
        [] \<Rightarrow> False
      | c # cs \<Rightarrow> is_alnum c \<and> list_all (\<lambda>c. is_alnum c \<or> c \<in> set ''-_:+./&#'' \<or> c = CHR 0x5C) cs)"

section \<open>Parameters on the command line\<close>

text \<open>Decoding the first document of an input into an \<open>interface{}\<close>, a slice, a map or a string.\<close>

definition decode_any :: "decoder \<Rightarrow> goerr + gval" where
  "decode_any d = (case fst (Decode d) of Inl e \<Rightarrow> Inl (go_decode_err e) | Inr j \<Rightarrow> Inr (to_value j))"

definition decode_list :: "decoder \<Rightarrow> goerr + gval" where
  "decode_list d = (case fst (Decode d) of
      Inl e \<Rightarrow> Inl (go_decode_err e)
    | Inr (JArr js) \<Rightarrow> Inr (VList (to_values js))
    | Inr JNull \<Rightarrow> Inr (VList [])
    | Inr _ \<Rightarrow> Inl (go_decode_err ErrUnmarshalType))"

definition decode_map :: "decoder \<Rightarrow> goerr + gval" where
  "decode_map d = (case fst (Decode d) of
      Inl e \<Rightarrow> Inl (go_decode_err e)
    | Inr (JObj kvs) \<Rightarrow> Inr (to_value (JObj kvs))
    | Inr JNull \<Rightarrow> Inr (VMap [])
    | Inr _ \<Rightarrow> Inl (go_decode_err ErrUnmarshalType))"

definition decode_string :: "decoder \<Rightarrow> goerr + gval" where
  "decode_string d = (case fst (Decode d) of
      Inl e \<Rightarrow> Inl (go_decode_err e)
    | Inr (JStr s) \<Rightarrow> Inr (VString s)
    | Inr JNull \<Rightarrow> Inr (VString [])
    | Inr _ \<Rightarrow> Inl (go_decode_err ErrUnmarshalType))"

definition GuessJson :: "(string \<Rightarrow> goerr + string) \<Rightarrow> (string \<Rightarrow> decoder) \<Rightarrow> string \<Rightarrow> goerr + gval" where
  "GuessJson open_file scan input =
     (if input = [] then Inr (VString [])
      else if input = ''true'' \<or> input = ''false'' then Inr (VBool (input = ''true''))
      else if input = ''null'' then Inr VNil
      else case ParseInt input of
        Some iv \<Rightarrow> Inr (VInt64 iv)
      | None \<Rightarrow> (case ParseFloat input of
          (fv, None) \<Rightarrow> Inr (VFloat fv)
        | (_, Some _) \<Rightarrow>
            (if hd input = CHR ''@'' then
               sbind (open_file (tl input)) (\<lambda>content. decode_any (scan content))
             else if hd input = CHR ''['' then decode_list (scan input)
             else if hd input = CHR ''{'' then decode_map (scan input)
             else if hd input = CHR 0x22 then decode_string (scan input)
             else Inr (VString input))))"

text \<open>The values up to the first error, and the error.\<close>

fun GuessJsonArray :: "(string \<Rightarrow> goerr + string) \<Rightarrow> (string \<Rightarrow> decoder) \<Rightarrow> string list \<Rightarrow> gval list \<times> goerr option" where
  "GuessJsonArray open_file scan [] = ([], None)"
| "GuessJsonArray open_file scan (input # rest) = (case GuessJson open_file scan input of
     Inl e \<Rightarrow> ([], Some e)
   | Inr v \<Rightarrow> (case GuessJsonArray open_file scan rest of (arr, err) \<Rightarrow> (v # arr, err)))"

section \<open>Headers on the command line\<close>

definition trim_spaces :: "string \<Rightarrow> string" where
  "trim_spaces s = rev (dropWhile (\<lambda>c. c = CHR '' '') (rev (dropWhile (\<lambda>c. c = CHR '' '') s)))"

fun HeaderFlags_Parse_from :: "header \<Rightarrow> string list \<Rightarrow> goerr + header" where
  "HeaderFlags_Parse_from h [] = Inr h"
| "HeaderFlags_Parse_from h (hr # rest) = (case cut_at (CHR ''='') hr of
     None \<Rightarrow> Inl (EText ''invalid http header'')
   | Some (k, v) \<Rightarrow> HeaderFlags_Parse_from (header_add (trim_spaces k) (trim_spaces v) h) rest)"

definition HeaderFlags_Set :: "string \<Rightarrow> string list \<Rightarrow> string list" where
  "HeaderFlags_Set v flags = flags @ [v]"

definition HeaderFlags_Parse :: "string list \<Rightarrow> goerr + header" where
  "HeaderFlags_Parse flags = HeaderFlags_Parse_from [] flags"

section \<open>Clients\<close>

definition NewWSClient :: "string \<Rightarrow> string run" where
  "NewWSClient scheme = (if scheme \<noteq> ''ws'' \<and> scheme \<noteq> ''wss'' then Panics (PValue ''server url is not websocket'')
     else Returns scheme)"

text \<open>The HTTP/2 client beside its streaming part: the scheme it dials, \<open>UseH2C\<close>, its TLS settings, and the
  \<open>http.Client\<close> it makes once, which dials without TLS or with the settings of that time.\<close>

datatype h2_dial = DialPlain | DialTLS "tls_config option"

record H2Client =
  h2_scheme :: string
  UseH2C :: bool
  h2_clientTLS :: "tls_config option"
  h2_httpClient :: "h2_dial option"

definition NewH2Client :: "string \<Rightarrow> H2Client run" where
  "NewH2Client scheme =
     (let (newScheme, useh2c) = (if scheme = ''h2'' then (''https'', False)
            else if scheme = ''h2c'' then (''http'', True) else (scheme, False))
      in if newScheme \<noteq> ''https'' \<and> newScheme \<noteq> ''http'' then Panics (PValue ''server url is not http2'')
         else Returns \<lparr>h2_scheme = newScheme, UseH2C = useh2c, h2_clientTLS = None, h2_httpClient = None\<rparr>)"

definition SetClientTLSConfig :: "tls_config option \<Rightarrow> H2Client \<Rightarrow> H2Client" where
  "SetClientTLSConfig cfg c = c\<lparr>h2_clientTLS := cfg\<rparr>"

definition HTTPClient :: "H2Client \<Rightarrow> h2_dial \<times> H2Client" where
  "HTTPClient c = (case h2_httpClient c of
      Some d \<Rightarrow> (d, c)
    | None \<Rightarrow> (let d = (if UseH2C c then DialPlain else DialTLS (h2_clientTLS c))
        in (d, c\<lparr>h2_httpClient := Some d\<rparr>)))"

text \<open>A client made for \<open>h2c\<close> never dials with TLS, one made for \<open>h2\<close> always does; the settings are those of the
  first connection.\<close>

lemma NewH2Client_fields:
  "NewH2Client scheme = Returns c \<Longrightarrow> (UseH2C c \<longleftrightarrow> scheme = ''h2c'') \<and> h2_httpClient c = None"
  by (cases "scheme = ''h2''"; cases "scheme = ''h2c''") (auto simp: NewH2Client_def split: if_splits)

lemma HTTPClient_dials:
  assumes "NewH2Client scheme = Returns c"
  shows "fst (HTTPClient (SetClientTLSConfig cfg c)) = (if scheme = ''h2c'' then DialPlain else DialTLS cfg)"
  using NewH2Client_fields [OF assms] by (simp add: HTTPClient_def SetClientTLSConfig_def Let_def)

lemma HTTPClient_once: "fst (HTTPClient (SetClientTLSConfig cfg (snd (HTTPClient c)))) = fst (HTTPClient c)"
  by (simp add: HTTPClient_def SetClientTLSConfig_def Let_def split: option.split)

datatype client_kind = IsH1 H1Client | IsWS string | IsH2 H2Client

text \<open>\<open>scheme\<close> is the scheme of the parsed URL, or the error of the parser.\<close>

definition NewClient :: "goerr + string \<Rightarrow> int option \<Rightarrow> (goerr + client_kind) run" where
  "NewClient parsed opt = (case parsed of
      Inl e \<Rightarrow> Returns (Inl (EWrap ''url.Parse'' e))
    | Inr scheme \<Rightarrow>
        (if scheme \<in> {''http'', ''https''} then
           obind (NewH1Client scheme opt) (\<lambda>c. Returns (Inr (IsH1 c)))
         else if scheme \<in> {''ws'', ''wss''} then
           obind (NewWSClient scheme) (\<lambda>s. Returns (Inr (IsWS s)))
         else if scheme \<in> {''h2'', ''h2c''} then
           obind (NewH2Client scheme) (\<lambda>c. Returns (Inr (IsH2 c)))
         else Returns (Inl (EText ''url scheme not supported''))))"

definition IsStreaming :: "client_kind \<Rightarrow> bool" where
  "IsStreaming c = (case c of IsH1 _ \<Rightarrow> False | _ \<Rightarrow> True)"

lemma NewClient_returns: "no_panic (NewClient parsed opt)"
  by (auto simp: NewClient_def NewH1Client_def NewWSClient_def NewH2Client_def split: sum.split)

section \<open>TLS settings\<close>

record TLSConfig =
  Certfile :: string
  Keyfile :: string

definition TLS_ValidateValues :: "TLSConfig \<Rightarrow> goerr option" where
  "TLS_ValidateValues c =
     (if Certfile c = [] then Some (EText ''certfile is empty'')
      else if Keyfile c = [] then Some (EText ''keyfile is empty'')
      else None)"

text \<open>\<open>ListenAndServe\<close>: the first configuration that is not nil; \<open>listen\<close>, \<open>serve\<close> and \<open>serve_tls\<close> are the
  network's results.\<close>

definition ListenAndServe :: "goerr option \<Rightarrow> goerr option \<Rightarrow> (TLSConfig \<Rightarrow> goerr option) \<Rightarrow>
    TLSConfig option list \<Rightarrow> goerr option" where
  "ListenAndServe listen serve serve_tls tlsConfigs = (case listen of
      Some e \<Rightarrow> Some e
    | None \<Rightarrow> (case first_some (\<lambda>c. c) tlsConfigs of
        Some cfg \<Rightarrow> serve_tls cfg
      | None \<Rightarrow> map_option (EWrap ''server.Serve'') serve))"

section \<open>Numbers on the command line\<close>

lemma parse_signed_last: "parse_signed s = Some i \<Longrightarrow> s \<noteq> [] \<and> is_digit (last s)"
  by (auto simp: parse_signed_def parse_nat_def list_all_iff split: list.splits if_splits)

lemma show_int_not_word: "show_int i \<notin> {[], ''true'', ''false'', ''null''}"
  using parse_signed_last [OF parse_signed_show_int, of i] by (auto simp: is_digit_def)

lemma GuessJson_int: "in_int64 i \<Longrightarrow> GuessJson open_file scan (show_int i) = Inr (VInt64 i)"
  using show_int_not_word [of i] by (auto simp: GuessJson_def ParseInt_show_int)

lemma lower_digit: "is_digit c \<Longrightarrow> lower c = c"
  by (simp add: lower_def is_digit_def)

definition float_words :: "string list" where
  "float_words = [''nan'', ''inf'', ''+inf'', ''infinity'', ''+infinity'', ''-inf'', ''-infinity'']"

lemma special_float_word: "special_float s = Some f \<Longrightarrow> map lower s \<in> set float_words"
  by (auto simp: special_float_def float_words_def Let_def split: if_splits)

lemma float_words_last: "list_all (\<lambda>w. w \<noteq> [] \<and> \<not> is_digit (last w)) float_words"
  by (simp add: float_words_def is_digit_def)

lemma special_float_last:
  assumes "special_float s = Some f"
  shows "s \<noteq> [] \<and> \<not> is_digit (last s)"
proof -
  have "map lower s \<noteq> []" "\<not> is_digit (last (map lower s))"
    using special_float_word [OF assms] float_words_last by (auto simp: list_all_iff)
  then show ?thesis using lower_digit [of "last s"] by (auto simp: last_map)
qed

lemma special_float_not_finite: "special_float s = Some f \<Longrightarrow> marshal ff (VFloat f) = Inl UnsupportedValue"
  by (auto simp: special_float_def Let_def split: if_splits)

lemma GuessJson_special:
  assumes "special_float s = Some f"
  shows "GuessJson open_file scan s = Inr (VFloat f)"
proof -
  have "ParseInt s = None"
    using special_float_last [OF assms] parse_signed_last [of s] by (auto simp: ParseInt_def split: option.split)
  moreover have "s \<noteq> ''true'' \<and> s \<noteq> ''false'' \<and> s \<noteq> ''null''"
    using assms by (auto simp: special_float_def lower_def Let_def)
  ultimately show ?thesis
    using special_float_last [OF assms] assms by (simp add: GuessJson_def ParseFloat_def)
qed

end
