(* ===== verification/Json_Indent.thy ===== *)
theory Json_Indent
  imports Json_Text
begin

text \<open>
  The layout of \<open>json.MarshalIndent\<close> with an empty prefix and two blanks for each level: every element and member on
  a line of its own, a blank after a colon, empty arrays and objects on one line. What is printed this way is read
  back as it was.
\<close>

section \<open>Layout\<close>

text \<open>A new line at depth \<open>k\<close>.\<close>

definition fresh_line :: "nat \<Rightarrow> string" where
  "fresh_line k = CHR 0x0A # replicate (2 * k) (CHR '' '')"

fun json_pretty :: "nat \<Rightarrow> json \<Rightarrow> string"
and pretty_elems :: "nat \<Rightarrow> json list \<Rightarrow> string"
and pretty_members :: "nat \<Rightarrow> (string \<times> json) list \<Rightarrow> string" where
  "json_pretty k (JArr js) =
     (if js = [] then ''[]'' else ''['' @ fresh_line (k + 1) @ pretty_elems (k + 1) js @ fresh_line k @ '']'')"
| "json_pretty k (JObj kvs) =
     (if kvs = [] then ''{}'' else ''{'' @ fresh_line (k + 1) @ pretty_members (k + 1) kvs @ fresh_line k @ ''}'')"
| "json_pretty k j = json_print j"
| "pretty_elems k [] = []"
| "pretty_elems k (j # js) = json_pretty k j @ (if js = [] then [] else '','' @ fresh_line k @ pretty_elems k js)"
| "pretty_members k [] = []"
| "pretty_members k ((key, j) # kvs) = quoted key @ '': '' @ json_pretty k j @
     (if kvs = [] then [] else '','' @ fresh_line k @ pretty_members k kvs)"

definition MarshalIndent :: "json \<Rightarrow> string" where
  "MarshalIndent j = json_pretty 0 j"

section \<open>Blanks\<close>

lemma skip_ws_blank: "c \<in> set [CHR '' '', CHR 0x09, CHR 0x0A, CHR 0x0D] \<Longrightarrow> skip_ws (c # s) = skip_ws s"
  by (simp add: skip_ws_def)

lemma skip_ws_line [simp]: "skip_ws (fresh_line k @ s) = skip_ws s"
proof -
  have "skip_ws (replicate n (CHR '' '') @ s) = skip_ws s" for n
    by (induction n) (simp_all add: skip_ws_blank)
  then show ?thesis by (simp add: fresh_line_def skip_ws_blank)
qed

lemma expect_line [simp]: "expect c (fresh_line k @ s) = expect c s"
  by (simp add: expect_def)

lemma follows_line: "follows (fresh_line k @ s)"
  by (simp add: fresh_line_def)

text \<open>Blanks in front of a value, its elements or its members change nothing.\<close>

lemma parse_blank:
  assumes "skip_ws s = skip_ws s'"
  shows "parse_value n d s = parse_value n d s'" "parse_members n d s = parse_members n d s'"
    "parse_elems n d s = parse_elems n d s'"
proof -
  show v: "parse_value n d s = parse_value n d s'" for n by (cases n) (simp_all add: assms)
  show "parse_members n d s = parse_members n d s'" by (cases n) (simp_all add: assms expect_def)
  show "parse_elems n d s = parse_elems n d s'" using v by (cases n) (simp_all del: parse_value.simps)
qed

lemma parse_line [simp]:
  "parse_value n d (fresh_line k @ s) = parse_value n d s" "parse_members n d (fresh_line k @ s) = parse_members n d s"
  "parse_elems n d (fresh_line k @ s) = parse_elems n d s" "parse_value n d (CHR '' '' # s) = parse_value n d s"
  by (rule parse_blank; simp add: skip_ws_blank)+

section \<open>What is printed is read\<close>

lemma pretty_first: "text_ok d j \<Longrightarrow> \<exists>c s. json_pretty k j = c # s \<and>
    c \<notin> set [CHR '' '', CHR 0x09, CHR 0x0A, CHR 0x0D, CHR '']'', CHR ''}'']"
  using print_first [of d j] by (cases j) auto

lemma parse_pretty:
  "text_ok d j \<Longrightarrow> 2 * length (json_pretty k j) < n \<Longrightarrow> follows r \<Longrightarrow>
     parse_value n d (json_pretty k j @ r) = Some (j, r)"
  "texts_ok d js \<Longrightarrow> js \<noteq> [] \<Longrightarrow> 2 * length (pretty_elems k js) + 1 < n \<Longrightarrow>
     parse_elems n d (pretty_elems k js @ fresh_line k' @ CHR '']'' # r) = Some (js, r)"
  "members_ok d kvs \<Longrightarrow> kvs \<noteq> [] \<Longrightarrow> 2 * length (pretty_members k kvs) + 1 < n \<Longrightarrow>
     parse_members n d (pretty_members k kvs @ fresh_line k' @ CHR ''}'' # r) = Some (kvs, r)"
proof (induction d j and d js and d kvs arbitrary: k n r and k k' n r and k k' n r rule: text_ok_texts_ok_members_ok.induct)
  case (1 d)
  then show ?case using parse_print(1) [OF 1(1), of n r] by (simp del: json_print.simps parse_value.simps)
next
  case (2 d b)
  then show ?case using parse_print(1) [OF 2(1), of n r] by (simp del: json_print.simps parse_value.simps)
next
  case (3 d x)
  then show ?case using parse_print(1) [OF 3(1), of n r] by (simp del: json_print.simps parse_value.simps)
next
  case (4 d s)
  then show ?case using parse_print(1) [OF 4(1), of n r] by (simp del: json_print.simps parse_value.simps)
next
  case (5 d js)
  show ?case
  proof (cases "js = []")
    case False
    define e where "e = pretty_elems (k + 1) js"
    obtain m where m: "n = Suc m" "2 * length e + 1 < m" using 5(3) False by (cases n) (auto simp: e_def)
    have "parse_elems m (d - 1) (e @ fresh_line k @ CHR '']'' # r) = Some (js, r)"
      unfolding e_def using 5 m False by (simp add: e_def)
    moreover have "expect (CHR '']'') (e @ u) = None" for u
      using pretty_first [of "d - 1" "hd js" "k + 1"] 5(2) False by (cases js) (auto simp: e_def)
    ultimately show ?thesis using 5(2) m False by (simp flip: e_def del: One_nat_def)
  qed (use 5 in \<open>cases n; simp\<close>)
next
  case (6 d kvs)
  show ?case
  proof (cases "kvs = []")
    case False
    define e where "e = pretty_members (k + 1) kvs"
    obtain m where m: "n = Suc m" "2 * length e + 1 < m" using 6(3) False by (cases n) (auto simp: e_def)
    have "parse_members m (d - 1) (e @ fresh_line k @ CHR ''}'' # r) = Some (kvs, r)"
      unfolding e_def using 6 m False by (simp add: e_def)
    moreover have "expect (CHR ''}'') (e @ u) = None" for u
      using False by (cases kvs) (auto simp: e_def quoted_def)
    ultimately show ?thesis using 6(2) m False by (simp flip: e_def del: One_nat_def)
  qed (use 6 in \<open>cases n; simp\<close>)
next
  case (8 d j js)
  then obtain m where m: "n = Suc m" by (cases n) auto
  show ?case using 8 m follows_line by (cases js) (simp_all del: parse_value.simps)
next
  case (10 d key j kvs)
  then obtain m where m: "n = Suc m" by (cases n) auto
  show ?case using 10 m follows_line by (cases kvs) (simp_all add: quoted_def unquote_esc del: parse_value.simps)
qed simp_all

lemma MarshalIndent_read:
  assumes "text_ok max_depth j" "follows r"
  shows "json_scan (MarshalIndent j @ r) = Inr j # json_scan r"
proof -
  have "skip_ws (MarshalIndent j @ r) \<noteq> []"
    using pretty_first [OF assms(1), of 0] by (auto simp: MarshalIndent_def)
  moreover have "parse_value (2 * length (MarshalIndent j @ r) + 1) max_depth (MarshalIndent j @ r) = Some (j, r)"
    unfolding MarshalIndent_def using assms by (intro parse_pretty) simp_all
  ultimately show ?thesis by (subst json_scan.simps) (simp del: parse_value.simps)
qed

end
