(* ===== verification/Cli.thy ===== *)
theory Cli
  imports Tools Json_Indent
begin

text \<open>
  The command line tools \<^verbatim>\<open>cli/call/main.go\<close> and \<^verbatim>\<open>cli/notify/main.go\<close>: what they do with their arguments, from the
  parsed flags to the text that is printed. The network, as the clients see it, is an argument; the end of a
  run is what it printed or why it exited.
\<close>

section \<open>Clients as the tools use them\<close>

text \<open>The method \<open>Call\<close> of the interface \<open>Client\<close>, after \<open>SetExtraHeader\<close>: the HTTP/1.1 client sends the call with
  \<open>do\<close>; the result of a streaming client is \<open>stream\<close>.\<close>

definition client_Call :: "(rat \<Rightarrow> string) \<Rightarrow> (json \<Rightarrow> string) \<Rightarrow> (string \<Rightarrow> decoder) \<Rightarrow>
    (http_request \<Rightarrow> 's \<Rightarrow> http_result \<times> 's) \<Rightarrow>
    (client_kind \<Rightarrow> header \<Rightarrow> RequestMessage \<Rightarrow> 's \<Rightarrow> (goerr + Message) run \<times> 's) \<Rightarrow>
    client_kind \<Rightarrow> header \<Rightarrow> RequestMessage \<Rightarrow> 's \<Rightarrow> (goerr + Message) run \<times> 's" where
  "client_Call ff print scan do stream k header reqmsg s = (case k of
      IsH1 c \<Rightarrow> (case H1_request ff print scan do (H1_SetExtraHeader header c) reqmsg s of
        (res, reqmsg', s') \<Rightarrow> (obind res (\<lambda>r. Returns (H1_Call reqmsg' r)), s'))
    | _ \<Rightarrow> stream k header reqmsg s)"

definition client_Send :: "(rat \<Rightarrow> string) \<Rightarrow> (json \<Rightarrow> string) \<Rightarrow> (http_request \<Rightarrow> 's \<Rightarrow> http_result \<times> 's) \<Rightarrow>
    (client_kind \<Rightarrow> header \<Rightarrow> Message \<Rightarrow> 's \<Rightarrow> goerr option \<times> 's) \<Rightarrow>
    client_kind \<Rightarrow> header \<Rightarrow> Message \<Rightarrow> 's \<Rightarrow> goerr option \<times> 's" where
  "client_Send ff print do stream k header msg s = (case k of
      IsH1 c \<Rightarrow> (case H1_Send ff print do (H1_SetExtraHeader header c) msg s of (err, msg', s') \<Rightarrow> (err, s'))
    | _ \<Rightarrow> stream k header msg s)"

text \<open>\<open>EncodePretty\<close>: the text of a message, indented.\<close>

definition EncodePretty :: "(rat \<Rightarrow> string) \<Rightarrow> Message \<Rightarrow> goerr + string" where
  "EncodePretty ff m = (case MessageBytes ff m of
      Inl e \<Rightarrow> Inl (EWrap ''json.MarshalIndent'' (EText ''unsupported value''))
    | Inr j \<Rightarrow> Inr (MarshalIndent j))"

section \<open>The tools\<close>

definition server_url :: "string \<Rightarrow> string \<Rightarrow> string \<Rightarrow> string" where
  "server_url flag env dflt =
     (let u = (if flag = [] then env else flag) in if u = [] then dflt else u)"

datatype tool_end = Exits string | Prints string | Quiet

text \<open>The part the two tools share: the client, the headers, the method and the params, which \<open>act\<close> works with, or
  the reason to exit. \<open>parse_url\<close> gives the scheme of a URL.\<close>

definition tool_main :: "(string \<Rightarrow> goerr + string) \<Rightarrow> (string \<Rightarrow> decoder) \<Rightarrow> (string \<Rightarrow> goerr + string) \<Rightarrow>
    string \<Rightarrow> string \<Rightarrow> string list \<Rightarrow> string list \<Rightarrow>
    (client_kind \<Rightarrow> header \<Rightarrow> string \<Rightarrow> gval list \<Rightarrow> 's \<Rightarrow> tool_end run \<times> 's) \<Rightarrow> 's \<Rightarrow> tool_end run \<times> 's" where
  "tool_main open_file scan parse_url flag env header_flags args act s = (case args of
      [] \<Rightarrow> (Returns (Exits ''method params...''), s)
    | meth # clParams \<Rightarrow> (case GuessJsonArray open_file scan clParams of
        (_, Some e) \<Rightarrow> (Returns (Exits ''params error''), s)
      | (params, None) \<Rightarrow> (case HeaderFlags_Parse header_flags of
          Inl e \<Rightarrow> (Returns (Exits ''err parse header flags''), s)
        | Inr header \<Rightarrow>
            (case NewClient (parse_url (server_url flag env ''http://127.0.0.1:9990'')) None of
               Panics p \<Rightarrow> (Panics p, s)
             | Returns (Inl e) \<Rightarrow> (Returns (Exits ''fail to find jsonrpc client''), s)
             | Returns (Inr k) \<Rightarrow> act k header meth params s))))"

text \<open>\<open>call\<close> and \<open>send\<close> are the two methods of the client; \<open>uuid\<close> is the id of the call.\<close>

definition call_act :: "(client_kind \<Rightarrow> header \<Rightarrow> RequestMessage \<Rightarrow> 's \<Rightarrow> (goerr + Message) run \<times> 's) \<Rightarrow>
    (rat \<Rightarrow> string) \<Rightarrow> string \<Rightarrow> client_kind \<Rightarrow> header \<Rightarrow> string \<Rightarrow> gval list \<Rightarrow> 's \<Rightarrow> tool_end run \<times> 's" where
  "call_act call ff uuid k header meth params s = (case NewRequestMessage (VString uuid) meth (VList params) of
      Panics p \<Rightarrow> (Panics (PError (ERpc p)), s)
    | Returns reqmsg \<Rightarrow> (case call k header reqmsg s of
        (res, s') \<Rightarrow> (obind res (\<lambda>res. case res of
            Inl e \<Rightarrow> Returns (Exits ''rpc error'')
          | Inr resmsg \<Rightarrow> (case EncodePretty ff resmsg of
              Inl e \<Rightarrow> Panics (PError e)
            | Inr repr \<Rightarrow> Returns (Prints (repr @ newline)))), s')))"

definition notify_act :: "(client_kind \<Rightarrow> header \<Rightarrow> Message \<Rightarrow> 's \<Rightarrow> goerr option \<times> 's) \<Rightarrow>
    client_kind \<Rightarrow> header \<Rightarrow> string \<Rightarrow> gval list \<Rightarrow> 's \<Rightarrow> tool_end run \<times> 's" where
  "notify_act send k header meth params s = (case NewNotifyMessage meth (VList params) of
      Panics p \<Rightarrow> (Panics (PError (ERpc p)), s)
    | Returns ntfmsg \<Rightarrow> (case send k header (MNotify ntfmsg) s of
        (err, s') \<Rightarrow> (Returns (if err = None then Quiet else Exits ''rpc error''), s')))"

definition call_main :: "(client_kind \<Rightarrow> header \<Rightarrow> RequestMessage \<Rightarrow> 's \<Rightarrow> (goerr + Message) run \<times> 's) \<Rightarrow>
    (rat \<Rightarrow> string) \<Rightarrow> (string \<Rightarrow> goerr + string) \<Rightarrow> (string \<Rightarrow> decoder) \<Rightarrow> (string \<Rightarrow> goerr + string) \<Rightarrow>
    string \<Rightarrow> string \<Rightarrow> string list \<Rightarrow> string list \<Rightarrow> string \<Rightarrow> 's \<Rightarrow> tool_end run \<times> 's" where
  "call_main call ff open_file scan parse_url flag env header_flags args uuid s =
     tool_main open_file scan parse_url flag env header_flags args (call_act call ff uuid) s"

definition notify_main :: "(client_kind \<Rightarrow> header \<Rightarrow> Message \<Rightarrow> 's \<Rightarrow> goerr option \<times> 's) \<Rightarrow>
    (string \<Rightarrow> goerr + string) \<Rightarrow> (string \<Rightarrow> decoder) \<Rightarrow> (string \<Rightarrow> goerr + string) \<Rightarrow>
    string \<Rightarrow> string \<Rightarrow> string list \<Rightarrow> string list \<Rightarrow> 's \<Rightarrow> tool_end run \<times> 's" where
  "notify_main send open_file scan parse_url flag env header_flags args s =
     tool_main open_file scan parse_url flag env header_flags args (notify_act send) s"

section \<open>What the tools send\<close>

text \<open>A tool that gets as far as its client runs \<open>act\<close> on what its arguments say.\<close>

lemma tool_main_acts:
  assumes "GuessJsonArray open_file scan inputs = (params, None)" "HeaderFlags_Parse header_flags = Inr header"
    and "NewClient (parse_url (server_url flag env ''http://127.0.0.1:9990'')) None = Returns (Inr k)"
  shows "tool_main open_file scan parse_url flag env header_flags (meth # inputs) act s = act k header meth params s"
  using assms by (simp add: tool_main_def)

text \<open>An argument of the command line that is an \<open>int64\<close> in decimal notation reaches
  the wire as that number; one that spells an infinity or a NaN, such as \<^verbatim>\<open>Infinity\<close> or \<^verbatim>\<open>nan\<close>, is
  not taken for a string but for a float that JSON cannot express: no message with it can be sent.\<close>

lemma notify_sends:
  assumes "HeaderFlags_Parse header_flags = Inr header" "GuessJson open_file scan input = Inr v" "meth \<noteq> []"
    and "NewClient (parse_url (server_url flag env ''http://127.0.0.1:9990'')) None = Returns (Inr k)"
  shows "notify_main (\<lambda>k header m s. (None, s @ [m])) open_file scan parse_url flag env header_flags [meth, input] [] =
    (Returns Quiet, [MNotify \<lparr>kind = MKNotify, traceId = [], ntf_Method = meth, ntf_Params = [v], ntf_paramsAreList = True\<rparr>])"
  using assms by (simp add: notify_main_def tool_main_acts [where params = "[v]"] notify_act_def NewNotifyMessage_def params_of_def)

lemma cli_numbers:
  assumes "HeaderFlags_Parse header_flags = Inr header" "meth \<noteq> []" "in_int64 i"
    and "NewClient (parse_url (server_url flag env ''http://127.0.0.1:9990'')) None = Returns (Inr k)"
  shows "\<exists>m. notify_main (\<lambda>k header m s. (None, s @ [m])) open_file scan parse_url flag env header_flags [meth, show_int i] [] =
      (Returns Quiet, [m]) \<and>
    MessageBytes ff m = Inr (JObj [(''jsonrpc'', JStr ''2.0''), (''method'', JStr meth), (''params'', JArr [JNum (show_int i)])])"
  using notify_sends [OF assms(1) GuessJson_int [OF assms(3)] assms(2), where parse_url = parse_url and flag = flag and env = env and k = k] assms(4)
  by (simp add: MessageBytes_def Interface_def marshal_template_def omit_empty_def wire_params_def)

lemma cli_words:
  assumes "HeaderFlags_Parse header_flags = Inr header" "meth \<noteq> []" "special_float t = Some f"
    and "NewClient (parse_url (server_url flag env ''http://127.0.0.1:9990'')) None = Returns (Inr k)"
  shows "\<exists>m e. notify_main (\<lambda>k header m s. (None, s @ [m])) open_file scan parse_url flag env header_flags [meth, t] [] =
      (Returns Quiet, [m]) \<and> MessageBytes ff m = Inl e"
  using notify_sends [OF assms(1) GuessJson_special [OF assms(3)] assms(2), where parse_url = parse_url and flag = flag and env = env and k = k] assms(4) special_float_not_finite [OF assms(3), of ff]
  by (simp add: MessageBytes_def Interface_def marshal_template_def wire_params_def)

end
