(* ===== verification/Watch.thy ===== *)
theory Watch
  imports Cli
begin

text \<open>
  The command line tool \<^verbatim>\<open>cli/watch/main.go\<close>: it connects a streaming client, calls a method if one
  is given, and waits until the connection is closed, connecting again when the network failed.
  What the client does is a record of functions on the state \<open>'s\<close> of the network. The loop of
  \<open>run\<close> need not end, so it is a partial function: \<open>None\<close> is a run that goes on for ever. The
  pause of a second between two attempts is left out.
\<close>

section \<open>Client and watcher\<close>

record 's streamable =
  s_Connect :: "'s \<Rightarrow> goerr option \<times> 's"
  s_Call :: "RequestMessage \<Rightarrow> 's \<Rightarrow> (goerr + Message) \<times> 's"
  s_Wait :: "'s \<Rightarrow> goerr option \<times> 's"
  s_NewUuid :: "'s \<Rightarrow> string \<times> 's"

record jsonrpcWatcher =
  w_method :: string
  w_params :: "gval list"
  retrylimit :: int
  connectretry :: int

text \<open>\<open>errors.Is\<close>, along the chain of wrapped errors.\<close>

fun errors_Is :: "goerr \<Rightarrow> goerr \<Rightarrow> bool" where
  "errors_Is (EWrap t e) target = (EWrap t e = target \<or> errors_Is e target)"
| "errors_Is e target = (e = target)"

definition retryable :: "goerr \<Rightarrow> bool" where
  "retryable e = (errors_Is e TransportConnectFailed \<or> errors_Is e TransportClosed \<or> errors_Is e (EText ''EOF''))"

lemma retryable_network [simp]: "retryable TransportConnectFailed" "retryable TransportClosed"
  by (simp_all add: retryable_def TransportConnectFailed_def TransportClosed_def)

section \<open>connect\<close>

text \<open>The call of the method, which ends the program when it fails, and the line it prints.\<close>

definition watch_call :: "(rat \<Rightarrow> string) \<Rightarrow> 's streamable \<Rightarrow> jsonrpcWatcher \<Rightarrow> 's \<Rightarrow>
    string list run \<times> 's" where
  "watch_call ff N w s =
     (if w_method w = [] then (Returns [], s)
      else case s_NewUuid N s of (u, s1) \<Rightarrow>
        (case NewRequestMessage (VString u) (w_method w) (VList (w_params w)) of
           Panics p \<Rightarrow> (Panics (PError (ERpc p)), s1)
         | Returns reqmsg \<Rightarrow> (case s_Call N reqmsg s1 of
             (Inl e, s2) \<Rightarrow> (Panics (PValue ''rpc error''), s2)
           | (Inr resmsg, s2) \<Rightarrow> (case EncodePretty ff resmsg of
               Inl e \<Rightarrow> (Panics (PValue ''encode pretty error''), s2)
             | Inr repr \<Rightarrow> (Returns [repr], s2)))))"

text \<open>The error \<open>connect\<close> returns, the watcher, and the lines printed.\<close>

definition watch_connect :: "(rat \<Rightarrow> string) \<Rightarrow> 's streamable \<Rightarrow> jsonrpcWatcher \<Rightarrow> 's \<Rightarrow>
    (goerr option \<times> jsonrpcWatcher \<times> string list) run \<times> 's" where
  "watch_connect ff N w s = (case s_Connect N s of
      (Some e, s1) \<Rightarrow> (Returns (Some e, w, []), s1)
    | (None, s1) \<Rightarrow>
        (let w1 = w\<lparr>connectretry := 0\<rparr> in
         case watch_call ff N w1 s1 of
           (Panics p, s2) \<Rightarrow> (Panics p, s2)
         | (Returns lines, s2) \<Rightarrow> (case s_Wait N s2 of (err, s3) \<Rightarrow> (Returns (err, w1, lines), s3))))"

section \<open>run\<close>

datatype watch_end = WatchDone | WatchGaveUp | WatchError goerr | WatchPanics panic_value

text \<open>One turn of the loop: the program goes on with a watcher, or ends.\<close>

definition watch_turn :: "(rat \<Rightarrow> string) \<Rightarrow> 's streamable \<Rightarrow> jsonrpcWatcher \<Rightarrow> 's \<Rightarrow>
    (jsonrpcWatcher + watch_end) \<times> 's" where
  "watch_turn ff N w s = (case watch_connect ff N w s of
      (Panics p, s') \<Rightarrow> (Inr (WatchPanics p), s')
    | (Returns (err, w1, lines), s') \<Rightarrow>
        (case err of
           None \<Rightarrow> (Inr WatchDone, s')
         | Some e \<Rightarrow>
             (if retryable e then
                (let w2 = w1\<lparr>connectretry := connectretry w1 + 1\<rparr> in
                 if connectretry w2 \<ge> retrylimit w2 then (Inr WatchGaveUp, s') else (Inl w2, s'))
              else (Inr (WatchError e), s'))))"

partial_function (option) watch_run :: "(rat \<Rightarrow> string) \<Rightarrow> 's streamable \<Rightarrow> jsonrpcWatcher \<Rightarrow> 's \<Rightarrow>
    (watch_end \<times> 's) option" where
  "watch_run ff N w s = (case watch_turn ff N w s of
      (Inl w', s') \<Rightarrow> watch_run ff N w' s'
    | (Inr e, s') \<Rightarrow> Some (e, s'))"

text \<open>\<open>main\<close>: the watcher it starts, or why it exits; only streaming clients are accepted.\<close>

datatype watch_start = WatchExits string | Watches client_kind header jsonrpcWatcher

definition watch_main :: "(string \<Rightarrow> goerr + string) \<Rightarrow> (string \<Rightarrow> decoder) \<Rightarrow> (string \<Rightarrow> goerr + string) \<Rightarrow>
    string \<Rightarrow> string \<Rightarrow> int \<Rightarrow> string list \<Rightarrow> string list \<Rightarrow> watch_start run" where
  "watch_main open_file scan parse_url flag env retry header_flags args =
     (case HeaderFlags_Parse header_flags of
        Inl e \<Rightarrow> Returns (WatchExits ''err parse header flags'')
      | Inr header \<Rightarrow>
          (case (case args of [] \<Rightarrow> ([], [], None)
                 | meth # clParams \<Rightarrow> (meth, GuessJsonArray open_file scan clParams)) of
             (_, _, Some e) \<Rightarrow> Returns (WatchExits ''params error'')
           | (meth, params, None) \<Rightarrow>
               obind (NewClient (parse_url (server_url flag env ''ws://127.0.0.1:9990'')) None) (\<lambda>c. case c of
                 Inl e \<Rightarrow> Returns (WatchExits ''fail to find jsonrpc client'')
               | Inr k \<Rightarrow>
                   (if \<not> IsStreaming k then Panics (PValue ''streaming client required'')
                    else Returns (Watches k header
                      \<lparr>w_method = meth, w_params = params, retrylimit = retry, connectretry = 0\<rparr>)))))"

section \<open>How often it tries\<close>

lemma watch_run_refused:
  assumes "connectretry w < retrylimit w"
  shows "watch_run ff (N\<lparr>s_Connect := (\<lambda>s. (Some TransportConnectFailed, f s))\<rparr>) w s =
    Some (WatchGaveUp, (f ^^ nat (retrylimit w - connectretry w)) s)"
  using assms
proof (induction "nat (retrylimit w - connectretry w)" arbitrary: w s)
  case (Suc n)
  let ?N = "N\<lparr>s_Connect := (\<lambda>s. (Some TransportConnectFailed, f s))\<rparr>"
  let ?w = "w\<lparr>connectretry := connectretry w + 1\<rparr>"
  have turn: "watch_turn ff ?N w s =
      (if connectretry w + 1 \<ge> retrylimit w then Inr WatchGaveUp else Inl ?w, f s)"
    by (simp add: watch_turn_def watch_connect_def Let_def)
  show ?case
  proof (cases "connectretry w + 1 \<ge> retrylimit w")
    case True
    then have "nat (retrylimit w - connectretry w) = 1" using Suc.prems by simp
    with True show ?thesis by (subst watch_run.simps) (simp add: turn)
  next
    case False
    have n: "n = nat (retrylimit ?w - connectretry ?w)" using Suc.hyps(2) by simp
    have "watch_run ff ?N ?w (f s) = Some (WatchGaveUp, (f ^^ n) (f s))"
      using Suc.hyps(1) [OF n] False n by simp
    with False show ?thesis
      by (subst watch_run.simps) (simp add: turn funpow_swap1 flip: Suc.hyps(2))
  qed
qed simp

text \<open>A network that refuses every connection, and one that accepts each and closes it.\<close>

definition refusing :: "('s \<Rightarrow> 's) \<Rightarrow> 's streamable \<Rightarrow> 's streamable" where
  "refusing f N = N\<lparr>s_Connect := (\<lambda>s. (Some TransportConnectFailed, f s))\<rparr>"

definition flapping :: "('s \<Rightarrow> 's) \<Rightarrow> 's streamable \<Rightarrow> 's streamable" where
  "flapping f N = N\<lparr>s_Connect := (\<lambda>s. (None, f s)), s_Wait := (\<lambda>s. (Some TransportClosed, s))\<rparr>"

definition watcher :: "int \<Rightarrow> jsonrpcWatcher" where
  "watcher limit = \<lparr>w_method = [], w_params = [], retrylimit = limit, connectretry = 0\<rparr>"

lemma flapping_turn: "w_method w = [] \<Longrightarrow> watch_turn ff (flapping f N) w s =
    (if retrylimit w \<le> 1 then Inr WatchGaveUp else Inl (w\<lparr>connectretry := 1\<rparr>), f s)"
  by (auto simp: watch_turn_def watch_connect_def watch_call_def flapping_def Let_def)

lemma flapping_goes_on:
  assumes "watch_run ff M w s = Some r"
  shows "\<not> (M = flapping f N \<and> w_method w = [] \<and> 2 \<le> retrylimit w)"
  by (rule watch_run.raw_induct [where P = "\<lambda>ff M w s r.
      \<not> (M = flapping f N \<and> w_method w = [] \<and> 2 \<le> retrylimit w)", OF _ assms])
    (fastforce simp: flapping_turn)


end
