(* ===== verification/Typed.thy ===== *)
theory Typed
  imports Actor_Laws Schema_Built
begin

text \<open>
  The typed handlers of \<^verbatim>\<open>http/typewrap.go\<close> and the registrations of \<^verbatim>\<open>http/request.go\<close> that
  use them. A function is what \<open>reflect\<close> shows of it: the types of its arguments and results and
  how to call it. Go values of other types than \<open>interface{}\<close> are of an arbitrary type \<open>'v\<close>.
  \<open>mapstructure\<close> is the two arguments \<open>dec\<close>, from JSON values into a variable that holds the zero
  value of a type (with the text of its error), and \<open>enc\<close>, from Go values into the variable of a
  result; \<open>None\<close> is a nil \<open>interface{}\<close>. Variadic functions are not modelled.
\<close>

section \<open>Types and functions\<close>

text \<open>An interface type tells whether it has the methods of \<open>context.Context\<close>.\<close>

datatype gotype =
    GPtr gotype
  | GStruct string
  | GInterface string bool
  | GPlain string

fun type_String :: "gotype \<Rightarrow> string" where
  "type_String (GPtr t) = CHR ''*'' # type_String t"
| "type_String (GStruct n) = n"
| "type_String (GInterface n _) = n"
| "type_String (GPlain n) = n"

fun typeIsStruct :: "gotype \<Rightarrow> bool" where
  "typeIsStruct (GStruct _) = True"
| "typeIsStruct (GPtr t) = typeIsStruct t"
| "typeIsStruct _ = False"

datatype 'v arg = ARequest RPCRequest | AContext go_context | AValue 'v

text \<open>\<open>fn_err\<close>: the type of the second result implements \<open>error\<close>.\<close>

record ('v, 'w) gofunc =
  fn_in :: "gotype list"
  fn_out :: "gotype list"
  fn_err :: bool
  fn_call :: "'v arg list \<Rightarrow> 'w \<Rightarrow> ('v option \<times> goerr option) run \<times> 'w"

section \<open>The first argument\<close>

datatype FirstArgSpec = ReqSpec | ContextSpec

fun Check :: "FirstArgSpec \<Rightarrow> gotype \<Rightarrow> bool" where
  "Check ReqSpec t = (case t of GPtr _ \<Rightarrow> type_String t = ''*jlibhttp.RPCRequest'' | _ \<Rightarrow> False)"
| "Check ContextSpec t = (case t of GInterface _ is_context \<Rightarrow> is_context | _ \<Rightarrow> False)"

fun spec_Value :: "FirstArgSpec \<Rightarrow> RPCRequest \<Rightarrow> 'v arg" where
  "spec_Value ReqSpec req = ARequest req"
| "spec_Value ContextSpec req = AContext (RPCRequest_Context req)"

fun spec_String :: "FirstArgSpec \<Rightarrow> string" where
  "spec_String ReqSpec = ''*jlibhttp.RPCRequest''"
| "spec_String ContextSpec = ''context.Context''"

section \<open>Values\<close>

text \<open>The variable a result is decoded into: an empty map or the zero value of the type.\<close>

datatype slot = EmptyMap | Zero gotype

type_synonym 'v decoding = "gotype \<Rightarrow> gval \<Rightarrow> string + 'v option"
type_synonym 'v encoding = "slot \<Rightarrow> 'v option \<Rightarrow> goerr + gval"

definition valueToInterface :: "'v encoding \<Rightarrow> gotype \<Rightarrow> 'v option \<Rightarrow> goerr + gval" where
  "valueToInterface enc t v = enc (if typeIsStruct t then EmptyMap else Zero t) v"

section \<open>wrapTyped\<close>

text \<open>The loop over the arguments; \<open>i\<close> counts the function's arguments from 0. The error of the
  argument is \<open>i + 1\<close>. A \<open>reflect.Value\<close> of a nil interface is \<open>None\<close>.\<close>

fun typed_args :: "'v decoding \<Rightarrow> nat \<Rightarrow> gotype list \<Rightarrow> gval list \<Rightarrow> (goerr + 'v option list) run" where
  "typed_args dec i [] ps = Returns (Inr [])"
| "typed_args dec i (t # ts) [] = Panics (PError (EText ''index out of range''))"
| "typed_args dec i (t # ts) (p # ps) = (case dec t p of
     Inl e \<Rightarrow> Returns (Inl (ERpc (ParamsError (''params '' @ show_nat (i + 1) @ '' '' @ e))))
   | Inr v \<Rightarrow> obind (typed_args dec (i + 1) ts ps) (\<lambda>vs. Returns (sbind vs (\<lambda>vs. Inr (v # vs)))))"

text \<open>\<open>reflect.Value.Call\<close> panics with a text when an argument is the zero \<open>Value\<close>.\<close>

definition reflect_Call :: "('v, 'w) gofunc \<Rightarrow> 'v arg list \<Rightarrow> 'v option list \<Rightarrow> 'w \<Rightarrow>
    ('v option \<times> goerr option) run \<times> 'w" where
  "reflect_Call f firstArgs vs w =
     (if None \<in> set vs then (Panics (PValue ''reflect: Call using zero Value argument''), w)
      else fn_call f (firstArgs @ map (\<lambda>v. AValue (the v)) vs) w)"

definition typed_result :: "'v encoding \<Rightarrow> gotype \<Rightarrow> 'v option \<times> goerr option \<Rightarrow> reply \<times> goerr option" where
  "typed_result enc resType r = (case r of (v, errRes) \<Rightarrow>
     (case errRes of
        Some e \<Rightarrow> (RVal VNil, Some e)
      | None \<Rightarrow> (case valueToInterface enc resType v of
           Inl e \<Rightarrow> (RVal VNil, Some e)
         | Inr g \<Rightarrow> (RVal g, None))))"

definition first_args :: "FirstArgSpec option \<Rightarrow> RPCRequest \<Rightarrow> 'v arg list" where
  "first_args spec req = (case spec of None \<Rightarrow> [] | Some s \<Rightarrow> [spec_Value s req])"

text \<open>The result of the call, encoded as the first result type.\<close>

definition typed_finish :: "'v encoding \<Rightarrow> ('v, 'w) gofunc \<Rightarrow> ('v option \<times> goerr option) run \<times> 'w \<Rightarrow>
    (reply \<times> goerr option) run \<times> 'w" where
  "typed_finish enc f called = (case called of
     (out, w) \<Rightarrow> (obind out (\<lambda>r. Returns (typed_result enc (hd (fn_out f)) r)), w))"

definition typed_handler :: "'v decoding \<Rightarrow> 'v encoding \<Rightarrow> ('v, 'w) gofunc \<Rightarrow> FirstArgSpec option \<Rightarrow> 'w RequestCallback" where
  "typed_handler dec enc f spec req params w =
     (let numIn = length (fn_in f);
          firstArgNum = (if spec \<noteq> None then 1 else 0)
      in if numIn > length params + firstArgNum then
           (Returns (RVal VNil, Some (ERpc (ParamsError ''no enough params size''))), w)
         else case typed_args dec firstArgNum (drop firstArgNum (fn_in f)) params of
           Panics p \<Rightarrow> (Panics p, w)
         | Returns (Inl e) \<Rightarrow> (Returns (RVal VNil, Some e), w)
         | Returns (Inr vs) \<Rightarrow>
             typed_finish enc f (reflect_Call f (first_args spec req) vs w))"

text \<open>\<open>tfunc\<close> is \<open>None\<close> for a value that is not a function.\<close>

definition wrapTyped :: "'v decoding \<Rightarrow> 'v encoding \<Rightarrow> ('v, 'w) gofunc option \<Rightarrow> FirstArgSpec option \<Rightarrow>
    goerr + 'w RequestCallback" where
  "wrapTyped dec enc tfunc spec = (case tfunc of
      None \<Rightarrow> Inl (EText ''tfunc is not func type'')
    | Some f \<Rightarrow>
        (if spec \<noteq> None \<and> length (fn_in f) < 1 then Inl (EText ''func must have 1 more arguments'')
         else if spec \<noteq> None \<and> \<not> Check (the spec) (hd (fn_in f)) then
           Inl (EText (''the first arg must be '' @ spec_String (the spec)))
         else if length (fn_out f) \<noteq> 2 then Inl (EText ''func return number must be 2'')
         else if \<not> fn_err f then Inl (EText ''second output does not implement error'')
         else Inr (typed_handler dec enc f spec)))"

section \<open>Registration\<close>

definition or_panic :: "goerr + 'a \<Rightarrow> 'a run" where
  "or_panic r = (case r of Inl e \<Rightarrow> Panics (PError e) | Inr a \<Rightarrow> Returns a)"

definition OnContext :: "string \<Rightarrow> (gval list \<Rightarrow> 'w \<Rightarrow> (reply \<times> goerr option) run \<times> 'w) \<Rightarrow> 'w HandlerSetter list \<Rightarrow>
    'w Actor \<Rightarrow> 'w Actor run" where
  "OnContext meth cb setters a = or_panic (OnRequest meth (\<lambda>req params. cb params) setters a)"

definition OnTyped :: "'v decoding \<Rightarrow> 'v encoding \<Rightarrow> string \<Rightarrow> ('v, 'w) gofunc option \<Rightarrow> 'w HandlerSetter list \<Rightarrow>
    'w Actor \<Rightarrow> 'w Actor run" where
  "OnTyped dec enc meth tf setters a =
     obind (or_panic (wrapTyped dec enc tf None)) (\<lambda>h. or_panic (OnRequest meth h setters a))"

definition OnTypedRequest :: "'v decoding \<Rightarrow> 'v encoding \<Rightarrow> string \<Rightarrow> ('v, 'w) gofunc option \<Rightarrow> 'w HandlerSetter list \<Rightarrow>
    'w Actor \<Rightarrow> goerr + 'w Actor" where
  "OnTypedRequest dec enc meth tf setters a =
     sbind (wrapTyped dec enc tf (Some ReqSpec)) (\<lambda>h. OnRequest meth h setters a)"

definition OnTypedContext :: "'v decoding \<Rightarrow> 'v encoding \<Rightarrow> string \<Rightarrow> ('v, 'w) gofunc option \<Rightarrow> 'w HandlerSetter list \<Rightarrow>
    'w Actor \<Rightarrow> goerr + 'w Actor" where
  "OnTypedContext dec enc meth tf setters a =
     sbind (wrapTyped dec enc tf (Some ContextSpec)) (\<lambda>h. OnRequest meth h setters a)"

text \<open>Schemas given as text; \<open>parsed\<close> is what the JSON or YAML parser makes of it.\<close>

definition build_goerr :: "build_err \<Rightarrow> goerr" where
  "build_goerr e = (case e of SchemaBuildError t ps \<Rightarrow> EText t | NonStringMap ps \<Rightarrow> EText ''non string map'')"

definition built :: "build_err + schema \<Rightarrow> 'w HandlerSetter run" where
  "built b = (case b of Inl e \<Rightarrow> Panics (PError (build_goerr e)) | Inr s \<Rightarrow> Returns (WithSchema s))"

definition WithSchemaJson :: "goerr + json \<Rightarrow> 'w HandlerSetter run" where
  "WithSchemaJson parsed = obind (or_panic parsed) (\<lambda>j. built (BuildBytes j))"

definition BuildYamlBytes :: "(gval \<Rightarrow> string) \<Rightarrow> goerr + gval \<Rightarrow> goerr + schema" where
  "BuildYamlBytes fv parsed = sbind parsed (\<lambda>data. case BuildYamlInterface fv data of
      Inl e \<Rightarrow> Inl (build_goerr e) | Inr s \<Rightarrow> Inr s)"

definition WithSchemaYaml :: "(gval \<Rightarrow> string) \<Rightarrow> goerr + gval \<Rightarrow> 'w HandlerSetter run" where
  "WithSchemaYaml fv parsed = obind (or_panic (BuildYamlBytes fv parsed)) (\<lambda>s. Returns (WithSchema s))"

section \<open>Arguments\<close>

text \<open>\<open>decoded dec ts ps vs\<close>: the values \<open>vs\<close> are what the decoder makes of the params \<open>ps\<close> for arguments
  of the types \<open>ts\<close>.\<close>

definition decoded :: "'v decoding \<Rightarrow> gotype list \<Rightarrow> gval list \<Rightarrow> 'v option list \<Rightarrow> bool" where
  "decoded dec ts ps vs = (length ts = length ps \<and> list_all2 (\<lambda>(t, p) v. dec t p = Inr v) (zip ts ps) vs)"

lemma typed_args_ok: "decoded dec ts ps vs \<Longrightarrow> typed_args dec i ts (ps @ extra) = Returns (Inr vs)"
  by (induction ts arbitrary: i ps vs)
    (auto simp: decoded_def list_all2_Cons1 Suc_length_conv split: sum.split)

lemma typed_args_Inr: "typed_args dec i ts ps = Returns (Inr vs) \<Longrightarrow> decoded dec ts (take (length ts) ps) vs"
  by (induction dec i ts ps arbitrary: vs rule: typed_args.induct)
    (auto simp: decoded_def obind_Returns_iff sbind_Inr_iff split: sum.splits)

lemma typed_args_returns: "length ts \<le> length ps \<Longrightarrow> \<exists>r. typed_args dec i ts ps = Returns r"
  by (induction dec i ts ps rule: typed_args.induct) (fastforce split: sum.split)+

text \<open>The types of the arguments that the params give.\<close>

definition param_types :: "('v, 'w) gofunc \<Rightarrow> FirstArgSpec option \<Rightarrow> gotype list" where
  "param_types f spec = drop (if spec = None then 0 else 1) (fn_in f)"

lemma wrapTyped_Inr: "wrapTyped dec enc tf spec = Inr h \<Longrightarrow> \<exists>f. tf = Some f \<and> h = typed_handler dec enc f spec \<and>
    length (fn_in f) = length (param_types f spec) + length (first_args spec req) \<and> length (fn_out f) = 2"
  by (auto simp: wrapTyped_def param_types_def first_args_def split: option.splits if_splits)

lemma typed_handler_eq:
  assumes "wrapTyped dec enc (Some f) spec = Inr h"
  shows "h req params w =
    (if length params < length (param_types f spec) then
       (Returns (RVal VNil, Some (ERpc (ParamsError ''no enough params size''))), w)
     else case typed_args dec (if spec = None then 0 else 1) (param_types f spec) params of
       Panics p \<Rightarrow> (Panics p, w)
     | Returns (Inl e) \<Rightarrow> (Returns (RVal VNil, Some e), w)
     | Returns (Inr vs) \<Rightarrow> typed_finish enc f (reflect_Call f (first_args spec req) vs w))"
  using wrapTyped_Inr [OF assms, of req]
  by (cases spec) (auto simp: typed_handler_def param_types_def first_args_def [of None] first_args_def [of "Some _"] Let_def)

text \<open>C36: a typed handler calls its function with the request or context it asks for
  and with the leading params, each decoded into the type of its argument; params beyond the function's
  arguments are ignored. Its answer is the function's error, or its encoded result.\<close>

theorem typed_call:
  assumes "wrapTyped dec enc (Some f) spec = Inr h"
    and "decoded dec (param_types f spec) ps (map Some vs)"
  shows "h req (ps @ extra) w = typed_finish enc f (fn_call f (first_args spec req @ map AValue vs) w)"
proof -
  have "length (param_types f spec) = length ps" using assms(2) by (simp add: decoded_def)
  then show ?thesis
    by (auto simp: typed_handler_eq [OF assms(1)] typed_args_ok [OF assms(2)] reflect_Call_def comp_def)
qed

text \<open>An instance: a function of the request and a number that counts its calls and returns the number.\<close>

definition sample_fn :: "(int, nat) gofunc" where
  "sample_fn = \<lparr>fn_in = [GPtr (GStruct ''jlibhttp.RPCRequest''), GPlain ''int''],
     fn_out = [GPlain ''int'', GInterface ''error'' False], fn_err = True,
     fn_call = (\<lambda>args w. case args of
        [ARequest r, AValue n] \<Rightarrow> (Returns (Some (n + 1), None), Suc w)
      | _ \<Rightarrow> (Panics (PValue ''arguments''), w))\<rparr>"

definition sample_dec :: "int decoding" where
  "sample_dec t g = (case t of
      GInterface _ _ \<Rightarrow> (case g of VNil \<Rightarrow> Inr None | _ \<Rightarrow> Inl ''expected nothing'')
    | _ \<Rightarrow> (case g of VInt i \<Rightarrow> Inr (Some i) | VNil \<Rightarrow> Inr (Some 0) | _ \<Rightarrow> Inl ''expected int''))"

definition sample_enc :: "int encoding" where
  "sample_enc t v = Inr (case v of None \<Rightarrow> VNil | Some i \<Rightarrow> VInt i)"

theorem typed_call_witness:
  "typed_handler sample_dec sample_enc sample_fn (Some ReqSpec) (sample_request []) ([VInt 4] @ [VBool True]) 7 =
   (Returns (RVal (VInt 5), None), 8)"
proof -
  have "wrapTyped sample_dec sample_enc (Some sample_fn) (Some ReqSpec) =
      Inr (typed_handler sample_dec sample_enc sample_fn (Some ReqSpec))"
    by (simp add: wrapTyped_def sample_fn_def)
  moreover have "decoded sample_dec (param_types sample_fn (Some ReqSpec)) [VInt 4] (map Some [4])"
    by (simp add: decoded_def param_types_def sample_fn_def sample_dec_def)
  ultimately show ?thesis
    using typed_call [of sample_dec sample_enc sample_fn "Some ReqSpec" _ "[VInt 4]" "[4]" "sample_request []" "[VBool True]" 7]
    by (simp add: sample_fn_def first_args_def typed_finish_def typed_result_def valueToInterface_def sample_enc_def)
qed

text \<open>The wrapper itself panics only when a param decodes to a nil interface.\<close>

lemma typed_panics:
  assumes "wrapTyped dec enc (Some f) spec = Inr h" "fst (h req params w) = Panics p"
  shows "(\<exists>args. fst (fn_call f args w) = Panics p) \<or>
    (\<exists>vs. decoded dec (param_types f spec) (take (length (param_types f spec)) params) vs \<and> None \<in> set vs)"
proof (cases "length params < length (param_types f spec)")
  case False
  then obtain r where r: "typed_args dec (if spec = None then 0 else 1) (param_types f spec) params = Returns r"
    using typed_args_returns by (metis not_less)
  show ?thesis
  proof (cases r)
    case (Inr vs)
    show ?thesis
    proof (cases "None \<in> set vs")
      case True
      then show ?thesis using typed_args_Inr r Inr by blast
    next
      case no: False
      then show ?thesis
        using assms False r Inr
        by (auto simp: typed_handler_eq [OF assms(1)] reflect_Call_def typed_finish_def obind_def
            split: prod.splits outcome.splits intro!: disjI1) (metis fst_conv)
    qed
  qed (use assms False r in \<open>auto simp: typed_handler_eq [OF assms(1)]\<close>)
qed (use assms in \<open>auto simp: typed_handler_eq [OF assms(1)]\<close>)

section \<open>A null param\<close>

lemma OnTyped_actor:
  assumes "wrapTyped dec enc (Some f) None = Inr h"
  shows "OnTyped dec enc meth (Some f) [] NewActor =
    Returns (Actor True True [(meth, \<lparr>callback = h, mh_schema = None\<rparr>)] None None [])"
  by (simp add: OnTyped_def assms or_panic_def NewActor_def map_has_def map_put_def)


text \<open>The instance is \<^verbatim>\<open>func(v interface{}) (int, error)\<close>.\<close>

definition any_fn :: "(int, nat) gofunc" where
  "any_fn = sample_fn\<lparr>fn_in := [GInterface ''interface {}'' False]\<rparr>"


end
