(* ===== verification/Fifo.thy ===== *)
theory Fifo
  imports Typed
begin

text \<open>
  The service of \<^verbatim>\<open>examples/fifo/main.go\<close>, whose handlers share a list and a table of sessions:
  a use of the dispatcher through \<open>On\<close>, \<open>OnTyped\<close>, \<open>OnRequest\<close> and \<open>OnClose\<close>. A session is its
  id; what is sent to it is kept in \<open>sent_to\<close>. Each handler runs to its end, as under the lock of the
  code, and a push goes through the sessions in the order in which they subscribed, where the code's
  order is any.
\<close>

section \<open>State\<close>

record fifo_state =
  fifo :: "gval list"
  subs :: "string list"
  sent_to :: "(string \<times> Message) list"

definition fifo_start :: fifo_state where
  "fifo_start = \<lparr>fifo = [], subs = [], sent_to = []\<rparr>"

definition fifo_error :: "string \<Rightarrow> goerr" where
  "fifo_error t = ERpc \<lparr>Code = -400, ErrText = t, Data = VNil\<rparr>"

type_synonym fifo_callback = "gval list \<Rightarrow> fifo_state \<Rightarrow> (reply \<times> goerr option) run \<times> fifo_state"

section \<open>Handlers\<close>

definition fifo_echo :: fifo_callback where
  "fifo_echo params w =
     (Returns (RVal (case params of [] \<Rightarrow> VString [] | p # _ \<Rightarrow> p), None), w)"

text \<open>The notify for one element, to every session.\<close>

definition fifo_notify :: "gval \<Rightarrow> fifo_state \<Rightarrow> fifo_state panicky" where
  "fifo_notify elem w = obind (NewNotifyMessage ''fifo_subscription'' (VList [elem])) (\<lambda>n.
     Returns (w\<lparr>sent_to := sent_to w @ map (\<lambda>s. (s, MNotify n)) (subs w)\<rparr>))"

fun fifo_notify_all :: "gval list \<Rightarrow> fifo_state \<Rightarrow> fifo_state panicky" where
  "fifo_notify_all [] w = Returns w"
| "fifo_notify_all (e # es) w = obind (fifo_notify e w) (fifo_notify_all es)"

definition fifo_push :: fifo_callback where
  "fifo_push params w =
     (if params = [] then (Returns (RVal VNil, Some (fifo_error ''no object is given'')), w)
      else let w1 = w\<lparr>fifo := fifo w @ params\<rparr> in
        (case fifo_notify_all params w1 of
           Panics p \<Rightarrow> (Panics (PError (ERpc p)), w1)
         | Returns w2 \<Rightarrow> (Returns (RVal (VString ''ok''), None), w2)))"

definition fifo_pop :: fifo_callback where
  "fifo_pop params w =
     (if fifo w = [] then (Returns (RVal VNil, Some (fifo_error ''pop empty array'')), w)
      else (Returns (RVal (VString ''ok''), None), w\<lparr>fifo := take (length (fifo w) - 1) (fifo w)\<rparr>))"

definition fifo_list :: fifo_callback where
  "fifo_list params w = (Returns (RVal (VList (fifo w)), None), w)"

text \<open>\<open>fifo_get\<close> is a typed function: its argument is an \<open>int\<close> and its result an \<open>interface{}\<close>.
  Go values are represented by \<open>gval\<close>.\<close>

definition fifo_get :: "(gval, fifo_state) gofunc" where
  "fifo_get = \<lparr>fn_in = [GPlain ''int''], fn_out = [GInterface ''interface {}'' False, GInterface ''error'' False],
     fn_err = True,
     fn_call = (\<lambda>args w. case args of
        [AValue (VInt i)] \<Rightarrow>
          (if i < 0 \<or> i \<ge> int (length (fifo w)) then
             (Returns (None, Some (fifo_error ''index out of range'')), w)
           else (Returns (if fifo w ! nat i = VNil then None else Some (fifo w ! nat i), None), w))
      | _ \<Rightarrow> (Panics (PValue ''reflect: Call using an argument of another type''), w))\<rparr>"

definition fifo_subscribe :: "fifo_state RequestCallback" where
  "fifo_subscribe req params w = (case rq_session req of
      None \<Rightarrow> (Returns (RVal (VString ''no sesion''), None), w)
    | Some sid \<Rightarrow> (Returns (RVal (VString ''ok''), None),
        w\<lparr>subs := (if sid \<in> set (subs w) then subs w else subs w @ [sid])\<rparr>))"

definition fifo_close :: "fifo_state CloseCallback" where
  "fifo_close r sid w = w\<lparr>subs := removeAll sid (subs w)\<rparr>"

section \<open>The actor\<close>

text \<open>\<open>OnRequest\<close> and \<open>OnClose\<close> report an error that \<open>main\<close> ignores, keeping the actor.\<close>

definition or_same :: "'a \<Rightarrow> goerr + 'a \<Rightarrow> 'a run" where
  "or_same a r = Returns (case r of Inl e \<Rightarrow> a | Inr a' \<Rightarrow> a')"

definition fifo_main :: "gval decoding \<Rightarrow> gval encoding \<Rightarrow> fifo_state Actor run" where
  "fifo_main dec enc =
     obind (On ''fifo_echo'' fifo_echo [] NewActor) (\<lambda>a1.
     obind (On ''fifo_push'' fifo_push [] a1) (\<lambda>a2.
     obind (On ''fifo_pop'' fifo_pop [] a2) (\<lambda>a3.
     obind (On ''fifo_list'' fifo_list [] a3) (\<lambda>a4.
     obind (OnTyped dec enc ''fifo_get'' (Some fifo_get) [] a4) (\<lambda>a5.
     obind (or_same a5 (OnRequest ''fifo_subscribe'' fifo_subscribe [] a5)) (\<lambda>a6.
     or_same a6 (OnClose fifo_close a6)))))))"

definition plain :: "'w RequestCallback \<Rightarrow> 'w MethodHandler" where
  "plain cb = \<lparr>callback = cb, mh_schema = None\<rparr>"

definition fifo_actor :: "gval decoding \<Rightarrow> gval encoding \<Rightarrow> fifo_state Actor" where
  "fifo_actor dec enc = Actor True True
     [(''fifo_echo'', plain (\<lambda>req. fifo_echo)), (''fifo_push'', plain (\<lambda>req. fifo_push)),
      (''fifo_pop'', plain (\<lambda>req. fifo_pop)), (''fifo_list'', plain (\<lambda>req. fifo_list)),
      (''fifo_get'', plain (typed_handler dec enc fifo_get None)), (''fifo_subscribe'', plain fifo_subscribe)]
     None (Some fifo_close) []"

lemma wrap_fifo_get: "wrapTyped dec enc (Some fifo_get) None = Inr (typed_handler dec enc fifo_get None)"
  by (simp add: wrapTyped_def fifo_get_def)

lemma fifo_main: "fifo_main dec enc = Returns (fifo_actor dec enc)"
  by (simp add: fifo_main_def fifo_actor_def plain_def On_def OnTyped_def or_panic_def or_same_def wrap_fifo_get
      NewActor_def map_has_def map_put_def)

section \<open>Requests to the service\<close>

lemma fifo_feed: "is_call (rq_msg req) meth params \<Longrightarrow> Feed decode (fifo_actor dec enc) req w =
    (case map_of (methodHandlers (fifo_actor dec enc)) meth of
       Some h \<Rightarrow> call_handler decode True True h req params w
     | None \<Rightarrow> feed_missing True None req w)"
  unfolding Feed_dispatch dispatch_def by (simp add: fifo_actor_def del: Feed.simps)

lemma snd_recover_call [simp]: "snd (recover_call r msg called) = snd called"
  by (cases called) (simp add: recover_call_def split: outcome.split panic_value.split)

lemma snd_call_plain [simp]: "snd (call_handler decode v r (plain cb) req params w) = snd (cb req params w)"
  by (simp add: call_handler_def plain_def Let_def)

lemma snd_feed_missing [simp]: "snd (feed_missing r None req w) = w"
  by (simp add: feed_missing_def split: outcome.split)

lemma snd_typed_finish [simp]: "snd (typed_finish enc f called) = snd called"
  by (cases called) (simp add: typed_finish_def)

lemma typed_keeps:
  assumes "\<And>args. snd (fn_call f args w) = w"
  shows "snd (typed_handler dec enc f spec req params w) = w"
proof -
  have "snd (reflect_Call f as vs w) = w" for as vs by (simp add: reflect_Call_def assms)
  then show ?thesis by (auto simp: typed_handler_def Let_def split: outcome.split sum.split)
qed

lemma fifo_get_keeps: "snd (fn_call fifo_get args w) = w"
  by (simp add: fifo_get_def split: list.split arg.split gval.split)

lemma fifo_notify_all_fifo: "fifo_notify_all es w = Returns w' \<Longrightarrow> fifo w' = fifo w"
  by (induction es arbitrary: w) (fastforce simp: obind_Returns_iff fifo_notify_def)+

lemma fifo_push_fifo: "fifo (snd (fifo_push params w)) = fifo w @ params"
  by (auto simp: fifo_push_def Let_def split: outcome.split dest: fifo_notify_all_fifo)

lemma fifo_pop_fifo: "fifo (snd (fifo_pop params w)) = butlast (fifo w)"
  by (simp add: fifo_pop_def butlast_conv_take)

section \<open>The service is a stack\<close>

definition stack_step :: "string \<times> gval list \<Rightarrow> gval list \<Rightarrow> gval list" where
  "stack_step c st = (case c of (meth, params) \<Rightarrow>
     if meth = ''fifo_push'' then rev params @ st else if meth = ''fifo_pop'' then tl st else st)"

definition stack_of :: "fifo_state \<Rightarrow> gval list" where
  "stack_of w = rev (fifo w)"

definition serve :: "gval decoding \<Rightarrow> gval encoding \<Rightarrow> struct_decoder \<Rightarrow> RPCRequest list \<Rightarrow> fifo_state \<Rightarrow> fifo_state" where
  "serve dec enc decode reqs w = fold (\<lambda>r w. snd (Feed decode (fifo_actor dec enc) r w)) reqs w"

lemma rev_butlast [simp]: "rev (butlast xs) = tl (rev xs)"
  by (cases xs rule: rev_cases) simp_all

lemma fifo_one:
  assumes "is_call (rq_msg req) meth params"
  shows "stack_of (snd (Feed decode (fifo_actor dec enc) req w)) = stack_step (meth, params) (stack_of w)"
  unfolding fifo_feed [OF assms]
  by (auto simp: fifo_actor_def stack_of_def stack_step_def fifo_push_fifo fifo_pop_fifo 
      fifo_echo_def fifo_list_def fifo_subscribe_def typed_keeps [OF fifo_get_keeps] split: option.split)

text \<open>C39: the state of the service under any sequence of calls is that of a stack, whose
  top is the last element: a pop removes the element pushed last, and not the first one as the name says. No
  other method changes it.\<close>

theorem fifo_stack:
  "list_all2 (\<lambda>r (meth, params). is_call (rq_msg r) meth params) reqs calls \<Longrightarrow>
   stack_of (serve dec enc decode reqs w) = fold stack_step calls (stack_of w)"
proof (induction reqs calls arbitrary: w rule: list_all2_induct)
  case (Cons r reqs c calls)
  then show ?case by (cases c) (simp add: serve_def fifo_one)
qed (simp add: serve_def)

definition fifo_request :: "string \<Rightarrow> gval list \<Rightarrow> RPCRequest" where
  "fifo_request meth ps = NewRPCRequest [] (MRequest \<lparr>kind = MKRequest, traceId = [], req_Id = VInt 1,
     req_Method = meth, req_Params = ps, req_paramsAreList = True\<rparr>) TransportHTTP True"

lemma fifo_request_call: "is_call (rq_msg (fifo_request meth ps)) meth ps"
  by (simp add: fifo_request_def NewRPCRequest_def is_call_def is_defs must_defs)

theorem fifo_stack_witness:
  "stack_of (serve (\<lambda>t g. Inr (Some g)) (\<lambda>s v. Inr VNil) sample_decode
     [fifo_request ''fifo_push'' [VInt 1, VInt 2], fifo_request ''fifo_pop'' []] fifo_start) = [VInt 1]"
proof -
  have "list_all2 (\<lambda>r (meth, params). is_call (rq_msg r) meth params)
      [fifo_request ''fifo_push'' [VInt 1, VInt 2], fifo_request ''fifo_pop'' []]
      [(''fifo_push'', [VInt 1, VInt 2]), (''fifo_pop'', [])]"
    by (simp add: fifo_request_call)
  from fifo_stack [OF this] show ?thesis by (simp add: stack_of_def stack_step_def fifo_start_def)
qed

end
