(* ===== verification/Bench.thy ===== *)
theory Bench
  imports Cli "HOL-Library.Word" "HOL-Library.Multiset"
begin

text \<open>
  The benchmark tool \<^verbatim>\<open>cli/benchmark/main.go\<close>: what it reports about the times of its calls. A time is
  a 64 bit \<open>uint\<close> of nanoseconds; the times are the list of what the channel delivered, which is some
  interleaving of what the workers sent. The clock, the network (both in \<open>timed_call\<close>) and the printing are
  arguments.
\<close>

section \<open>The report\<close>

type_synonym uint64 = "64 word"

record bench_report =
  b_avg :: uint64
  b_min :: uint64
  b_p95 :: uint64
  b_max :: uint64

text \<open>A conversion of a \<open>float64\<close> to \<open>int\<close> truncates.\<close>

definition f64_to_int :: "f64 \<Rightarrow> int" where
  "f64_to_int f = (case f of FFin q \<Rightarrow> (if 0 \<le> q then \<lfloor>q\<rfloor> else \<lceil>q\<rceil>) | _ \<Rightarrow> int64_min)"

definition f64_times :: "f64 \<Rightarrow> f64 \<Rightarrow> f64" where
  "f64_times x y = (case (x, y) of (FFin a, FFin b) \<Rightarrow> round_f64 (a * b) | _ \<Rightarrow> FNaN)"

definition pos95 :: "nat \<Rightarrow> int" where
  "pos95 n = f64_to_int (f64_times (round_f64 (95 / 100)) (int_to_f64 (int n)))"

definition index_run :: "'a list \<Rightarrow> int \<Rightarrow> 'a run" where
  "index_run xs i = (if 0 \<le> i \<and> i < int (length xs) then Returns (xs ! nat i)
     else Panics (PError (EText ''index out of range'')))"

text \<open>\<open>used\<close> has as many elements as the product of the two options.\<close>

definition RunCallBenchmark :: "uint64 list \<Rightarrow> bench_report run" where
  "RunCallBenchmark used =
     (let total = sum_list used;
          results = sort used;
          len = length results
      in if of_nat len = (0 :: uint64) then Panics (PError (EText ''integer divide by zero''))
         else obind (index_run results (pos95 len)) (\<lambda>t95.
           obind (index_run results (int len - 1)) (\<lambda>maxv.
           obind (index_run results 0) (\<lambda>minv.
             Returns \<lparr>b_avg = total div of_nat len, b_min = minv, b_p95 = t95, b_max = maxv\<rparr>))))"

text \<open>One worker: the times of \<open>n\<close> calls, whether they failed or not; \<open>NewClient\<close>'s error is a panic of the
  goroutine, which ends the program.\<close>

definition worker_call :: "string \<Rightarrow> gval list \<Rightarrow> (RequestMessage \<Rightarrow> 's \<Rightarrow> uint64 \<times> 's) \<Rightarrow> string \<Rightarrow>
    uint64 list run \<times> 's \<Rightarrow> uint64 list run \<times> 's" where
  "worker_call meth params timed_call u st = (case st of (acc, s) \<Rightarrow> (case acc of
      Panics p \<Rightarrow> (Panics p, s)
    | Returns ts \<Rightarrow> (case NewRequestMessage (VString u) meth (VList params) of
        Panics p \<Rightarrow> (Panics (PError (ERpc p)), s)
      | Returns r \<Rightarrow> (case timed_call r s of (t, s') \<Rightarrow> (Returns (ts @ [t]), s')))))"

definition callNTimes :: "goerr + string \<Rightarrow> string \<Rightarrow> gval list \<Rightarrow>
    (client_kind \<Rightarrow> RequestMessage \<Rightarrow> 's \<Rightarrow> uint64 \<times> 's) \<Rightarrow> (nat \<Rightarrow> string) \<Rightarrow> nat \<Rightarrow> 's \<Rightarrow> uint64 list run \<times> 's" where
  "callNTimes parsed meth params timed_call uuid n s = (case NewClient parsed None of
      Panics p \<Rightarrow> (Panics p, s)
    | Returns (Inl e) \<Rightarrow> (Panics (PError e), s)
    | Returns (Inr c) \<Rightarrow>
        fold (\<lambda>i. worker_call meth params (timed_call c) (uuid i)) [0..<n] (Returns [], s))"

text \<open>\<open>main\<close>: the arguments of \<open>RunCallBenchmark\<close>, or why the program exits.\<close>

datatype bench = BenchExits string | Benches string string "gval list" header uint64 uint64

definition bench_main :: "(string \<Rightarrow> goerr + string) \<Rightarrow> (string \<Rightarrow> decoder) \<Rightarrow> string \<Rightarrow> string \<Rightarrow> string list \<Rightarrow>
    uint64 \<Rightarrow> uint64 \<Rightarrow> string list \<Rightarrow> bench" where
  "bench_main open_file scan flag env header_flags m n args = (case args of
      [] \<Rightarrow> BenchExits ''method params...''
    | meth # clParams \<Rightarrow> (case GuessJsonArray open_file scan clParams of
        (_, Some e) \<Rightarrow> BenchExits ''params error''
      | (params, None) \<Rightarrow> (case HeaderFlags_Parse header_flags of
          Inl e \<Rightarrow> BenchExits ''err parse header flags''
        | Inr header \<Rightarrow> Benches (server_url flag env ''http://127.0.0.1:9990'') meth params header m n)))"

text \<open>\<open>toS\<close>: nanoseconds as seconds.\<close>

definition toS :: "uint64 \<Rightarrow> f64" where
  "toS ns = (case int_to_f64 (uint ns) of FFin q \<Rightarrow> round_f64 (q / 1000000000) | f \<Rightarrow> f)"

section \<open>The position of the 95th percentile\<close>

lemma pow2_powi: "pow2 e = 2 powi e"
  by (simp add: pow2_def power_int_def inverse_eq_divide power_one_over)

lemma bit_len_lower: "0 < n \<Longrightarrow> 2 powi (bit_len n - 1) \<le> (of_int n :: rat)"
proof (induction n rule: bit_len.induct)
  case (1 n)
  show ?case
  proof (cases "n = 1")
    case True
    then show ?thesis by (simp add: bit_len.simps)
  next
    case False
    with 1 have "2 powi (bit_len (n div 2) - 1) \<le> (of_int (n div 2) :: rat)" by simp
    moreover have "bit_len n - 1 = (bit_len (n div 2) - 1) + 1" using 1 by (subst bit_len.simps) simp
    moreover have "of_int (2 * (n div 2)) \<le> (of_int n :: rat)" by (simp only: of_int_le_iff)
    ultimately show ?thesis by (simp add: power_int_diff)
  qed
qed

lemma bit_len_nonneg: "0 \<le> bit_len n"
  by (induction n rule: bit_len.induct) (subst bit_len.simps, simp)

lemma bit_len_upper: "0 \<le> n \<Longrightarrow> n < 2 ^ nat (bit_len n)"
proof (induction n rule: bit_len.induct)
  case (1 n)
  show ?case
  proof (cases "n = 0")
    case False
    with 1 have "n div 2 < 2 ^ nat (bit_len (n div 2))" by simp
    moreover have "nat (bit_len n) = Suc (nat (bit_len (n div 2)))"
      using 1(2) False bit_len_nonneg [of "n div 2"] by (subst bit_len.simps) simp
    ultimately show ?thesis by simp
  qed (simp add: bit_len.simps)
qed

lemma bit_len_upper_rat: "0 \<le> n \<Longrightarrow> (of_int n :: rat) < 2 powi bit_len n"
  using bit_len_upper [of n] bit_len_nonneg [of n]
  by (simp add: power_int_def)

text \<open>The exponent of the leading bit is not too large.\<close>

lemma pow2_ilog2:
  assumes "0 < q"
  shows "pow2 (ilog2 q) \<le> q"
proof -
  obtain a b where ab: "quotient_of q = (a, b)" by fastforce
  then have q: "q = of_int a / of_int b" "0 < b" by (simp_all add: quotient_of_div quotient_of_denom_pos)
  then have "0 < a" using assms by (simp add: zero_less_divide_iff)
  let ?e = "bit_len a - bit_len b"
  have "pow2 (?e - 1) \<le> q"
  proof -
    have "pow2 (?e - 1) = 2 powi (bit_len a - 1) / 2 powi bit_len b"
      by (simp add: pow2_powi flip: power_int_diff) (simp add: algebra_simps)
    also have "\<dots> \<le> of_int a / of_int b"
      using bit_len_lower [OF \<open>0 < a\<close>] bit_len_upper_rat [of b] q(2)
      using \<open>0 < a\<close> by (intro frac_le) auto
    finally show ?thesis by (simp add: q(1))
  qed
  then show ?thesis by (simp add: ilog2_def ab Let_def)
qed

lemma round_half_even_upper: "of_int (round_half_even x) \<le> x + 1"
proof -
  have "round_half_even x \<le> \<lfloor>x\<rfloor> + 1" by (auto simp: round_half_even_def Let_def)
  then have "(of_int (round_half_even x) :: rat) \<le> of_int (\<lfloor>x\<rfloor> + 1)" by (simp only: of_int_le_iff)
  then show ?thesis using of_int_floor_le [of x] by linarith
qed

lemma round_half_even_nonneg: "0 \<le> x \<Longrightarrow> 0 \<le> round_half_even x"
  by (simp add: round_half_even_def Let_def)

text \<open>Rounding a number of at least one half moves it up by less than a part of \<open>2 ^ 40\<close>.\<close>

lemma round_f64_upper:
  assumes "1 / 2 \<le> q" "q < 2 ^ 53"
  shows "\<exists>v. round_f64 q = FFin v \<and> 0 \<le> v \<and> v \<le> q + q / 2 ^ 40"
proof -
  define k where "k = max (ilog2 q - 52) (-1074)"
  define v where "v = of_int (round_half_even (q / pow2 k)) * pow2 k"
  have p: "pow2 k \<le> q / 2 ^ 40"
  proof (cases "ilog2 q - 52 \<le> -1074")
    case True
    have "pow2 k = 1 / 2 ^ 1074" using True by (simp add: k_def pow2_def)
    also have "\<dots> \<le> (1 / 2) / 2 ^ 40" by (simp add: field_simps)
    also have "\<dots> \<le> q / 2 ^ 40" using assms(1) by (intro divide_right_mono) simp_all
    finally show ?thesis .
  next
    case False
    then have "pow2 k = pow2 (ilog2 q) / 2 ^ 52" by (simp add: k_def pow2_powi power_int_diff)
    also have "\<dots> \<le> q / 2 ^ 52" using assms(1) by (intro divide_right_mono pow2_ilog2) simp_all
    also have "\<dots> \<le> q / 2 ^ 40" using assms(1) by (intro divide_left_mono) simp_all
    finally show ?thesis .
  qed
  have "v \<le> (q / pow2 k + 1) * pow2 k"
    unfolding v_def by (intro mult_right_mono round_half_even_upper less_imp_le pow2_pos)
  also have "\<dots> = q + pow2 k" by (simp add: distrib_right)
  finally have v: "v \<le> q + q / 2 ^ 40" using p by simp
  have "0 \<le> round_half_even (q / pow2 k)"
    using assms(1) less_imp_le [OF pow2_pos [of k]] by (intro round_half_even_nonneg divide_nonneg_nonneg) auto
  then have nonneg: "0 \<le> v"
    unfolding v_def using less_imp_le [OF pow2_pos [of k]] by (intro mult_nonneg_nonneg) auto
  have "q + q / 2 ^ 40 < 2 ^ 54" using assms(2) by simp
  moreover have "(2 ^ 54 :: rat) \<le> pow2 1024" by (simp add: pow2_def)
  ultimately have "\<not> pow2 1024 \<le> v" using v by linarith
  then show ?thesis
    using assms(1) v nonneg by (simp add: round_f64_def Let_def k_def [symmetric] v_def [symmetric])
qed

lemma ilog2_ninety_five: "ilog2 (95 / 100) = - 1"
proof -
  have "(95 / 100 :: rat) = Fract 19 20" by (simp add: Fract_of_int_quotient)
  then have "quotient_of (95 / 100) = (19, 20)" by (simp only: quotient_of_Fract) code_simp
  moreover have "bit_len 19 = 5" "bit_len 20 = 5" by code_simp+
  ultimately show ?thesis by (simp add: ilog2_def pow2_def)
qed

lemma ninety_five: "round_f64 (95 / 100) = FFin (4278419646001971 / 2 ^ 52)"
proof -
  have "\<lfloor>(95 / 100 :: rat) / pow2 (- 53)\<rfloor> = 8556839292003942" by (simp add: pow2_def floor_eq_iff)
  then have "round_half_even ((95 / 100) / pow2 (- 53)) = 8556839292003942"
    by (simp add: round_half_even_def pow2_def Let_def)
  then show ?thesis
    unfolding round_f64_def by (simp only: abs_of_nonneg) (simp add: ilog2_ninety_five [simplified] pow2_def)
qed

lemma pos95_range:
  assumes "0 < n" "n < 2 ^ 53"
  shows "0 \<le> pos95 n \<and> pos95 n < int n"
proof -
  define q :: rat where "q = 4278419646001971 / 2 ^ 52 * of_int (int n)"
  have n: "(1 :: rat) \<le> of_int (int n)" "(of_int (int n) :: rat) < 2 ^ 53"
    using assms by (simp_all flip: of_int_less_iff)
  have q: "95 / 100 * of_int (int n) - of_int (int n) / 10 ^ 9 \<le> q" "q \<le> 951 / 1000 * of_int (int n)"
    unfolding q_def using n(1) by (simp_all add: field_simps)
  have "pos95 n = f64_to_int (round_f64 q)"
    unfolding pos95_def f64_times_def ninety_five using int_to_f64_exact [of "int n"] assms by (simp add: q_def)
  moreover obtain v where v: "round_f64 q = FFin v" "0 \<le> v" "v \<le> q + q / 2 ^ 40"
    using round_f64_upper [of q] q n by (auto simp: field_simps)
  moreover have "v < of_int (int n)"
    using v(3) q n(1) by (simp add: field_simps)
  ultimately show ?thesis by (simp add: f64_to_int_def floor_less_iff)
qed

section \<open>The report is right\<close>

lemma index_run_ok: "i < length xs \<Longrightarrow> index_run xs (int i) = Returns (xs ! i)"
  by (simp add: index_run_def)

lemma sorted_ends:
  assumes "sorted xs" "xs \<noteq> []"
  shows "hd xs = Min (set xs) \<and> last xs = Max (set xs)"
proof
  show "hd xs = Min (set xs)"
    using assms by (cases xs) (auto intro!: Min_eqI [symmetric])
  obtain ys y where "xs = ys @ [y]" using assms(2) by (cases xs rule: rev_cases) auto
  then show "last xs = Max (set xs)"
    using assms by (auto simp: sorted_append intro!: Max_eqI [symmetric])
qed

lemma report_ok:
  assumes "used \<noteq> []" "length used < 2 ^ 53"
  shows "\<exists>r. RunCallBenchmark used = Returns r \<and> b_min r = Min (set used) \<and> b_max r = Max (set used) \<and>
    b_p95 r \<in> set used \<and> b_min r \<le> b_p95 r \<and> b_p95 r \<le> b_max r \<and>
    b_avg r = sum_list used div of_nat (length used)"
proof -
  let ?n = "length used" and ?s = "sort used"
  have n: "0 < ?n" using assms(1) by simp
  then have s: "?s \<noteq> []" "length ?s = ?n" by (simp_all flip: length_greater_0_conv)
  obtain i where i: "pos95 ?n = int i" "i < ?n"
    using pos95_range [OF n assms(2)] nonneg_int_cases [of "pos95 ?n"] by auto
  have "unat (of_nat ?n :: uint64) = ?n"
    using assms(2) by (simp add: unat_of_nat)
  then have "(of_nat ?n :: uint64) \<noteq> 0" using n by (metis unat_0 less_irrefl)
  moreover have "index_run ?s (int ?n - 1) = Returns (last ?s)" "index_run ?s 0 = Returns (hd ?s)"
      "index_run ?s (pos95 ?n) = Returns (?s ! i)"
    using n i s by (simp_all add: index_run_def last_conv_nth hd_conv_nth nat_diff_distrib)
  moreover have "hd ?s = Min (set used)" "last ?s = Max (set used)"
    using sorted_ends [of ?s] s(1) by simp_all
  ultimately show ?thesis
    using i n by (simp add: RunCallBenchmark_def Let_def)
      (metis List.finite_set Max_ge Min_le length_sort nth_mem set_sort)
qed

text \<open>A worker that does not panic delivers one time for each of its calls.\<close>

lemma worker_times:
  "fst (fold (\<lambda>i. worker_call meth params call (uuid i)) is st) = Returns ts \<Longrightarrow>
   \<exists>ts0. fst st = Returns ts0 \<and> length ts = length ts0 + length is"
proof (induction "is" arbitrary: st)
  case (Cons i "is")
  then obtain ts0 where "fst (worker_call meth params call (uuid i) st) = Returns ts0" "length ts = length ts0 + length is"
    by fastforce
  then show ?case by (auto simp: worker_call_def split: outcome.splits prod.splits)
qed simp

lemma callNTimes_length: "callNTimes parsed meth params timed_call uuid n s = (Returns ts, s') \<Longrightarrow> length ts = n"
  by (auto simp: callNTimes_def split: outcome.splits sum.splits
      dest!: arg_cong [where f = fst] worker_times)

lemma sum_mset_of_sum: "sum_mset (\<Sum>a\<in>A. f a) = (\<Sum>a\<in>A. sum_mset (f a))"
  by (induction A rule: infinite_finite_induct) simp_all

text \<open>C40: the report on the calls of \<open>m\<close> workers of \<open>n\<close> calls each, whatever the clients and the order in which the
  channel delivered the times: with at least one and fewer than \<open>2 ^ 53\<close> calls it is computed without a
  panic, floating point rounding included, from one time for each call; the minimum and the maximum are those of
  the times, the 95th percentile is one of the times between them, and the average is their truncated
  sum divided by their number.\<close>

theorem bench_report:
  assumes "0 < m" "0 < n" "m * n < 2 ^ 53"
    and workers: "\<And>a. a < m \<Longrightarrow> \<exists>s s'. callNTimes parsed meth params timed_call (uuid a) n s = (Returns (ts a), s')"
    and used: "mset used = (\<Sum>a<m. mset (ts a))"
  shows "\<exists>r. RunCallBenchmark used = Returns r \<and> length used = m * n \<and>
    b_min r = Min (\<Union>a<m. set (ts a)) \<and> b_max r = Max (\<Union>a<m. set (ts a)) \<and>
    (\<exists>a<m. b_p95 r \<in> set (ts a)) \<and> b_min r \<le> b_p95 r \<and> b_p95 r \<le> b_max r \<and>
    b_avg r = (\<Sum>a<m. sum_list (ts a)) div of_nat (m * n)"
proof -
  have len: "length used = m * n"
  proof -
    have "length used = (\<Sum>a<m. length (ts a))"
      using arg_cong [OF used, of size] by (simp add: size_mset size_multiset_sum)
    also have "\<dots> = (\<Sum>a<m. n)" using workers by (intro sum.cong) (auto dest: callNTimes_length)
    also have "\<dots> = m * n" by simp
    finally show ?thesis .
  qed
  have sets: "set used = (\<Union>a<m. set (ts a))"
    using arg_cong [OF used, of set_mset] by (simp add: set_mset_sum)
  have total: "sum_list used = (\<Sum>a<m. sum_list (ts a))"
    using arg_cong [OF used, of sum_mset] by (simp add: sum_mset_sum_list sum_mset_of_sum)
  have "used \<noteq> []" "length used < 2 ^ 53" using assms(1-3) len by auto
  from report_ok [OF this] obtain r where r: "RunCallBenchmark used = Returns r" "b_min r = Min (set used)"
      "b_max r = Max (set used)" "b_p95 r \<in> set used" "b_min r \<le> b_p95 r" "b_p95 r \<le> b_max r"
      "b_avg r = sum_list used div of_nat (length used)"
    by blast
  moreover have "\<exists>a<m. b_p95 r \<in> set (ts a)" using r(4) sets by auto
  ultimately show ?thesis using len sets total by auto
qed

text \<open>Two workers of two calls each, on a clock that moves by one nanosecond a call.\<close>

theorem bench_report_witness:
  "\<exists>r. RunCallBenchmark [10, 0, 11, 1] = Returns r \<and> length [10, 0, 11, 1 :: uint64] = 2 * 2 \<and>
    b_avg r = (\<Sum>a<(2::nat). sum_list (if a = 0 then [0, 1] else [10, 11])) div of_nat (2 * 2)"
proof -
  let ?ts = "\<lambda>a::nat. if a = 0 then [0, 1] else [10, 11 :: uint64]"
  have w: "\<exists>s s'. callNTimes (Inr ''http'') ''get'' [] (\<lambda>c r s. (s, s + 1)) (\<lambda>i. ''id'') 2 s = (Returns (?ts a), s')" for a
    by (rule exI [of _ "if a = 0 then 0 else 10"])
      (simp add: callNTimes_def NewClient_def NewH1Client_def worker_call_def NewRequestMessage_def params_of_def
        numeral_2_eq_2)
  have u: "mset [10, 0, 11, 1] = (\<Sum>a<(2::nat). mset (?ts a))"
    by (simp add: lessThan_Suc numeral_2_eq_2 add_mset_commute)
  have n: "(0::nat) < 2" "(2 * 2 :: nat) < 2 ^ 53" by simp_all
  from bench_report [OF n(1,1,2) w u] show ?thesis by blast
qed

end
