(* ===== verification/Params.thy ===== *)
theory Params
  imports Typed Transport
begin

text \<open>
  The remaining conversions of \<^verbatim>\<open>utils.go\<close> and \<^verbatim>\<open>messageimpl.go\<close>: \<open>DecodeParams\<close>, which fills the
  fields of a struct with a list of params, the JSON form of a \<open>Bigint\<close>, the key under which a
  request may be cached, the text of a message, and the fields that the loggers attach. As in \<open>Typed\<close>, \<open>dec\<close> is \<open>mapstructure\<close>'s decoder and \<open>print\<close> the printer of
  JSON documents.
\<close>

section \<open>DecodeParams\<close>

text \<open>A field of the struct as \<open>reflect\<close> shows it; the result is what was assigned, by the index of the
  field, before the end or the first error. A nil interface cannot be assigned: \<open>Value.Set\<close> panics with
  an error.\<close>

record field =
  fld_exported :: bool
  fld_type :: gotype

definition set_on_zero :: panic_value where
  "set_on_zero = PError (EText ''reflect: call of reflect.Value.Set on zero Value'')"

fun DecodeParams_fields :: "'v decoding \<Rightarrow> nat \<Rightarrow> field list \<Rightarrow> gval list \<Rightarrow> (nat \<times> 'v) list \<times> (goerr option) run" where
  "DecodeParams_fields dec i [] ps = ([], Returns None)"
| "DecodeParams_fields dec i (f # fs) ps =
     (if \<not> fld_exported f then DecodeParams_fields dec (Suc i) fs ps
      else case ps of
        [] \<Rightarrow> DecodeParams_fields dec (Suc i) fs []
      | p # ps' \<Rightarrow> (case dec (fld_type f) p of
          Inl e \<Rightarrow> ([], Returns (Some (EWrap ''mapstruct.Decode'' (EText e))))
        | Inr None \<Rightarrow> ([], Panics set_on_zero)
        | Inr (Some v) \<Rightarrow> (case DecodeParams_fields dec (Suc i) fs ps' of (ass, r) \<Rightarrow> ((i, v) # ass, r))))"

text \<open>What \<open>outputPtr\<close> is: no pointer, a pointer to something else, or a pointer to a struct.\<close>

datatype target = NoPointer | PointerTo gotype | PointerToStruct "field list"

definition DecodeParams :: "'v decoding \<Rightarrow> gval list \<Rightarrow> target \<Rightarrow> (nat \<times> 'v) list \<times> (goerr option) run" where
  "DecodeParams dec ps out = (case out of
      NoPointer \<Rightarrow> ([], Returns (Some (EText ''output is not a pointer'')))
    | PointerTo t \<Rightarrow> ([], Returns (Some (EText ''output is not pointer of struct'')))
    | PointerToStruct fs \<Rightarrow> DecodeParams_fields dec 0 fs ps)"

text \<open>The exported fields, with their indexes, in order.\<close>

definition exported :: "nat \<Rightarrow> field list \<Rightarrow> (nat \<times> gotype) list" where
  "exported i fs = map (\<lambda>(i, f). (i, fld_type f)) (filter (\<lambda>(i, f). fld_exported f) (enumerate i fs))"

lemma exported_simps [simp]:
  "exported i [] = []"
  "exported i (f # fs) = (if fld_exported f then (i, fld_type f) # exported (Suc i) fs else exported (Suc i) fs)"
  by (simp_all add: exported_def)

text \<open>The leading params fill the exported fields in order; params and fields beyond the shorter list are
  left alone.\<close>

lemma DecodeParams_fills:
  assumes "decoded dec (map snd (take (length ps) (exported i fs))) (take (length (exported i fs)) ps) (map Some vs)"
  shows "DecodeParams_fields dec i fs ps = (zip (map fst (exported i fs)) vs, Returns None)"
  using assms
proof (induction dec i fs ps arbitrary: vs rule: DecodeParams_fields.induct)
  case (2 dec i f fs ps)
  show ?case
  proof (cases "fld_exported f")
    case True
    with 2 show ?thesis
      by (cases ps; cases vs) (auto simp: decoded_def)
  qed (use 2 in simp)
qed (simp add: decoded_def)

section \<open>Bigint\<close>

text \<open>\<open>big.Int\<close>'s \<open>SetString\<close> in base 10 reads an optional sign and digits. When it fails, the value of
  the receiver is undefined: \<open>None\<close>.\<close>

definition quote :: "string \<Rightarrow> string" where
  "quote s = CHR 0x22 # s @ [CHR 0x22]"

definition Bigint_MarshalJSON :: "int \<Rightarrow> string" where
  "Bigint_MarshalJSON b = quote (show_int b)"

definition Bigint_UnmarshalJSON :: "string \<Rightarrow> int option" where
  "Bigint_UnmarshalJSON sd =
     (if sd \<noteq> [] \<and> hd sd = CHR 0x22 then parse_signed (butlast (tl sd)) else parse_signed sd)"

definition Bigint_Load :: "string \<Rightarrow> int option" where
  "Bigint_Load repr = parse_signed repr"

definition Bigint_String :: "int \<Rightarrow> string" where
  "Bigint_String b = show_int b"

lemma show_int_not_quoted: "hd (show_int b) \<noteq> CHR 0x22"
proof
  assume h: "hd (show_int b) = CHR 0x22"
  obtain c cs where s: "show_int b = c # cs"
    using parse_signed_show_int [of b] by (cases "show_int b") (simp_all add: parse_signed_def)
  then show False
    using parse_signed_show_int [of b] h by (simp add: parse_signed_def parse_nat_def is_digit_def)
qed

text \<open>Whatever its size, a number survives the trip through JSON, as a string or as a JSON number.\<close>

lemma bigint_roundtrip:
  "Bigint_UnmarshalJSON (Bigint_MarshalJSON b) = Some b" "Bigint_UnmarshalJSON (show_int b) = Some b"
  "Bigint_Load (Bigint_String b) = Some b"
  using show_int_not_quoted [of b]
  by (simp_all add: Bigint_UnmarshalJSON_def Bigint_MarshalJSON_def quote_def Bigint_Load_def Bigint_String_def)

section \<open>Cache keys\<close>

definition MarshalJson :: "(rat \<Rightarrow> string) \<Rightarrow> (json \<Rightarrow> string) \<Rightarrow> gval \<Rightarrow> marshal_err + string" where
  "MarshalJson ff print v = sbind (marshal ff v) (\<lambda>j. Inr (print j))"

definition CacheKey :: "(rat \<Rightarrow> string) \<Rightarrow> (json \<Rightarrow> string) \<Rightarrow> RequestMessage \<Rightarrow> string \<Rightarrow> string run" where
  "CacheKey ff print r pre = (case marshal ff (VList (req_Params r)) of
      Inl e \<Rightarrow> Panics (PError (EText ''json: unsupported''))
    | Inr j \<Rightarrow> Returns (pre @ req_Method r @ print j))"

text \<open>The key takes the params as a list, so that a request whose params are an
  object has the key of the one whose params are a list of that object, although the two are sent as
  different documents.\<close>

lemma cache_key_collides:
  assumes "NewRequestMessage i meth (VMap m) = Returns r" "NewRequestMessage i meth (VList [VMap m]) = Returns r'"
  shows "CacheKey ff print r pre = CacheKey ff print r' pre \<and> Interface (MRequest r) \<noteq> Interface (MRequest r')"
proof
  have "req_Params r = req_Params r'" "req_Method r = req_Method r'"
    using assms by (auto simp: NewRequestMessage_def params_of_def split: if_splits)
  then show "CacheKey ff print r pre = CacheKey ff print r' pre" by (simp only: CacheKey_def)
  show "Interface (MRequest r) \<noteq> Interface (MRequest r')"
    using assms by (auto simp: NewRequestMessage_def params_of_def Interface_def wire_params_def split: if_splits)
qed

section \<open>Validation of a document\<close>

text \<open>\<open>ValidateBytes\<close> panics when there is no document.\<close>

definition ValidateBytes :: "schema \<Rightarrow> decoder \<Rightarrow> SchemaValidator \<Rightarrow> (ErrorPos option \<times> SchemaValidator) run" where
  "ValidateBytes s d v = (case fst (Decode d) of
      Inl e \<Rightarrow> Panics (PError (go_decode_err e))
    | Inr j \<Rightarrow> (case ValidatorScan s [] (to_value j) v of
        Panics p \<Rightarrow> Panics (PValue ''validator'') | Returns r \<Rightarrow> Returns r))"

section \<open>Texts\<close>

text \<open>\<open>new_decoder\<close> is \<open>mapstructure.NewDecoder\<close> for the type of the output; a decoder gives the value of the
  output.\<close>

definition DecodeInterface :: "goerr + (gval \<Rightarrow> goerr + 'o) \<Rightarrow> gval \<Rightarrow> goerr + 'o" where
  "DecodeInterface new_decoder input = (case new_decoder of
      Inl e \<Rightarrow> Inl (EWrap ''decode interface'' e)
    | Inr decode \<Rightarrow> decode input)"

text \<open>\<open>uuid\<close> is the text of a new UUID.\<close>

definition NewUuid :: "string \<Rightarrow> string" where
  "NewUuid uuid = filter (\<lambda>c. c \<noteq> CHR ''-'') uuid"

definition MessageString :: "(rat \<Rightarrow> string) \<Rightarrow> (json \<Rightarrow> string) \<Rightarrow> Message \<Rightarrow> string run" where
  "MessageString ff print m = (case MessageBytes ff m of
      Inl e \<Rightarrow> Panics (PError (EText ''json: unsupported'')) | Inr j \<Rightarrow> Returns (print j))"

section \<open>Log fields\<close>

definition msg_Log :: "Message \<Rightarrow> (string \<times> gval) list" where
  "msg_Log m = (case m of
      MRequest r \<Rightarrow> [(''traceid'', VString (traceId r)), (''msgtype'', VString ''request''), (''msgid'', req_Id r),
        (''method'', VString (req_Method r))]
    | MNotify n \<Rightarrow> [(''traceid'', VString (traceId n)), (''msgtype'', VString ''notify''), (''method'', VString (ntf_Method n))]
    | MResult r \<Rightarrow> [(''traceid'', VString (traceId r)), (''msgtype'', VString ''result''), (''msgid'', res_Id r)]
    | MError e \<Rightarrow> [(''traceid'', VString (traceId e)), (''msgtype'', VString ''error''), (''msgid'', err_Id e)])"

text \<open>\<open>remote\<close> is the remote address of the HTTP request, when there is one.\<close>

definition RPCRequest_Log :: "string \<Rightarrow> RPCRequest \<Rightarrow> (string \<times> gval) list" where
  "RPCRequest_Log remote req = msg_Log (rq_msg req) @ [(''ttype'', VString (rq_transport req)),
     (''remoteAddr'', VString (if rq_http req then remote else []))]"

end
