(* ===== verification/Cli_Props.thy ===== *)
theory Cli_Props
  imports Cli
begin

text \<open>
  The tool \<^verbatim>\<open>call\<close> from its command line to what it prints: the arguments, the client that the URL asks for, the
  HTTP/1.1 exchange, the actor of the server, and the text of the answer.
\<close>

lemma pretty_message:
  assumes "sendable ff m"
  shows "\<exists>t. EncodePretty ff m = Inr t \<and> ParseBytes json_scan (t @ newline) = Returns (Inr m)"
proof -
  obtain j where j: "MessageBytes ff m = Inr j" "text_ok max_depth j" "message_of_json j = Returns (Inr m)"
    using sendable_json [OF assms] by blast
  have "json_scan (MarshalIndent j @ newline) = Inr j # json_scan newline"
    by (rule MarshalIndent_read [OF j(2)]) (simp add: newline_def)
  then have "ParseBytes json_scan (MarshalIndent j @ newline) = Returns (Inr m)"
    using j(3) by (simp add: ParseBytes_def message_of_json_def DecodeMessage_def)
  then show ?thesis using j(1) by (simp add: EncodePretty_def)
qed

lemma NewClient_http:
  "scheme \<in> {''http'', ''https''} \<Longrightarrow> \<exists>c. NewClient (Inr scheme) opt = Returns (Inr (IsH1 c))"
  by (auto simp: NewClient_def NewH1Client_def)

text \<open>The request the tool makes of its arguments.\<close>

definition tool_request :: "string \<Rightarrow> string \<Rightarrow> gval list \<Rightarrow> RequestMessage" where
  "tool_request uuid meth params = \<lparr>kind = MKRequest, traceId = [], req_Id = VString uuid, req_Method = meth,
     req_Params = params, req_paramsAreList = True\<rparr>"



end
