(* ===== verification/Spec2Isabelle.thy ===== *)
theory Spec2Isabelle
  imports Schema_Built Schema_Roundtrip Schema_Build Actor_Laws Streaming_Conn Network_Props Auth_Http Clients Sessions_Serial Gateway Wire Watch Fifo Bench Params Cli_Props
begin

text \<open>
  A verification of jlib, a JSON-RPC 2.0 library in Go with clients and servers over HTTP/1,
  websocket and HTTP/2.

  \<^bold>\<open>The program.\<close> A \<^emph>\<open>message\<close> (\<^verbatim>\<open>types.go\<close>, \<^verbatim>\<open>messageimpl.go\<close>) is a request, a notify, a result or
  an error; \<^verbatim>\<open>parse.go\<close> decodes it from a JSON document. A \<^emph>\<open>schema\<close> (\<^verbatim>\<open>schema/\<close>) is built from JSON
  or YAML and validates a value. An \<^emph>\<open>actor\<close> (\<^verbatim>\<open>http/request.go\<close>) holds the handlers of the methods,
  validates a request against the schema of its method, calls the handler and makes an answer of its
  result. The \<^emph>\<open>servers\<close> (\<^verbatim>\<open>http/h1_server.go\<close>, \<^verbatim>\<open>http/ws_server.go\<close>, \<^verbatim>\<open>http/h2_server.go\<close>,
  behind \<^verbatim>\<open>http/gateway_handler.go\<close> and \<^verbatim>\<open>http/auth_handler.go\<close>) feed an actor with what they read and
  write its answers; the \<^emph>\<open>clients\<close> (\<^verbatim>\<open>http/h1_client.go\<close>, \<^verbatim>\<open>http/streaming_client.go\<close> on the
  transports \<^verbatim>\<open>http/ws_client.go\<close> and \<^verbatim>\<open>http/h2_client.go\<close>) send requests and match the answers to
  their callers. The command line tools (\<^verbatim>\<open>cli/\<close>) and the example (\<^verbatim>\<open>examples/fifo\<close>) use both.

  \<^bold>\<open>The theories.\<close>
  \<^item> \<open>Jlib_Prelude\<close>: computations that return or panic (\<open>outcome\<close>), errors as sums, Go maps as
    association lists, decimal notation. \<open>Go_Numbers\<close>: \<open>strconv\<close>'s integers and the binary64 floats with
    their rounding and ordering (an instance of \<open>ord\<close>). \<open>Go_Values\<close>: the values of \<open>interface{}\<close>, the JSON tree and \<open>json.Marshal\<close>.
  \<^item> \<open>Messages\<close> and \<open>Parse\<close>: \<^verbatim>\<open>errors.go\<close>, \<^verbatim>\<open>types.go\<close>, \<^verbatim>\<open>messageimpl.go\<close>, \<^verbatim>\<open>parse.go\<close>. A message is a
    value of one datatype whose four records have the fields of the structs. The lemmas show that
    decoding returns well formed messages only, never panics, and is inverse to encoding. \<open>Wired\<close>: what a value
    of any Go type is read back as. \<open>Json_Text\<close>, \<open>Json_Indent\<close> and \<open>Wire\<close>: the texts of JSON documents, plain and
    indented, of messages and of an HTTP/2 stream, written and read.
  \<^item> \<open>Schema_Types\<close>, \<open>Schema_Convert\<close>, \<open>Schema_Validate\<close>, \<open>Schema_Equal\<close>, \<open>Schema_Build\<close>, \<open>Schema_Built\<close>,
    \<open>Schema_Roundtrip\<close>: the package \<^verbatim>\<open>schema\<close>. The validator with its stack of paths is proved
    equivalent to a reference definition of validity through the locale \<open>checker\<close>; equality is proved
    to be equality of canonical forms; the builder returns schemas that satisfy a typing invariant,
    and printing a schema and building it again gives an equal one for the schemas that keep no bounds.
  \<^item> \<open>Actor\<close> and \<open>Actor_Laws\<close>: \<^verbatim>\<open>http/request.go\<close>. A handler is a function on the state of the rest of the
    program. The lemmas show which handler a request reaches, that an invalid request does not reach
    it, and that each request is answered once under its own id and trace id. A request carries its context as
    the list of its values. \<open>Typed\<close>: the handlers of
    \<^verbatim>\<open>http/typewrap.go\<close>, made from Go functions. \<open>Params\<close>: the other conversions of \<^verbatim>\<open>utils.go\<close>, and log fields.
  \<^item> \<open>Http\<close>, \<open>Http1\<close>, \<open>Auth\<close>, \<open>Auth_Http\<close>: headers and response writers, the HTTP/1 server and client, and
    authentication. A call of the client over an abstract network is proved to give what the
    actor of the server answers; the authentication handler is characterised by the credentials it accepts and
    by what the handler behind it finds in the context. \<open>Auth_Http\<close> puts the three together: the callbacks of an
    actor behind authentication run for authentic calls only, with the caller's authentication info.
  \<^item> \<open>Transport\<close>, \<open>Transitions\<close>, \<open>Streaming\<close>, \<open>Streaming_Laws\<close>, \<open>Streaming_Spec\<close>, \<open>Streaming_Props\<close>: the streaming
    client. The interface \<open>Transport\<close> is a locale, interpreted for both transports; the client is a
    step relation over its goroutines (callers, send loops, receive loops, timers, callers of \<open>Wait\<close>), with its channels
    and contexts as numbered objects, so that a goroutine can be blocked on one the client has replaced. An invariant of its
    reachable states gives what callers can rely on, and the client refines the
    \<^emph>\<open>board\<close>, an abstract system in which a call is asked, answered and taken (locale \<open>simulation\<close>).
    \<open>Streaming_Conn\<close>: the life of its connections, and who is told of their end. \<open>Streaming_Answers\<close>: the answers
    of its calls are timeouts or messages it read. \<open>Clients\<close>: what \<open>UnwrapCall\<close> makes of an answer, for the streaming
    clients and the HTTP/1 client, as interpretations of one locale for the interface of \<^verbatim>\<open>http/types.go\<close>.
  \<^item> \<open>Sessions\<close>, \<open>Sessions_Props\<close>, \<open>Sessions_Serial\<close>, \<open>Gateway\<close>: the handlers of the websocket and HTTP/2 servers and
    of all three protocols, and their sessions as a step relation, in which a panic
    of a goroutine is the end of the process. The laws the two servers share are the locale \<open>session_protocol\<close>; inside
    it, a session without \<open>SpawnGoroutine\<close> refines a sequential server, and what a session writes is what its peer reads.
  \<^item> \<open>Network\<close> and \<open>Network_Props\<close>: a streaming client, a session of a server and the network between them, as one
    step relation (locale \<open>client_server\<close>, interpreted for websocket and HTTP/2). The network may lose, repeat
    and reorder texts but not change them; whatever it does, a call that returns gives a timeout or the answer
    the server's actor made of that very request.
  \<^item> \<open>Tools\<close>, \<open>Cli\<close>, \<open>Cli_Props\<close>, \<open>Watch\<close>, \<open>Bench\<close>, \<open>Fifo\<close>: the client factory, the tools and the example. The tool
    \<open>call\<close> against a server of \<open>Http1\<close> prints a text that is read back as the answer of the server's actor. The loop of
    the watcher is a partial function, \<open>None\<close> standing for a run without an end.

  \<^bold>\<open>Conventions.\<close> A panic is the constructor \<open>Panics\<close>, an error of a function the left of a sum or a
  value of the datatype \<open>goerr\<close>. Go's \<open>int\<close> is \<open>int\<close> where the code only compares it with values read as
  \<open>int64\<close>; the times of the benchmark, whose sum can wrap, are 64 bit words. Goroutines interleave at
  the operations that touch shared state; a blocked channel operation is the absence of a step. The
  only fuel is that of the reader of JSON values, and \<open>parse_fuel\<close> shows that it is enough; all other
  recursive functions terminate by their structure or a measure, except the watcher, a partial function.

  \<^bold>\<open>Parameters.\<close> Code outside the repository is an argument of the definitions that use it: the
  formatting of floats (\<open>ff\<close>), \<open>mapstructure\<close> (\<open>decode\<close>, \<open>dec\<close>, \<open>enc\<close>), the JWT library, the LRU cache, files,
  URLs, ids of \<open>uuid\<close>, and the results of the network. The definitions take the printer and the scanner of
  JSON texts as arguments (\<open>print\<close>, \<open>scan\<close>); the properties about texts are stated for those of \<open>Json_Text\<close>.

  \<^bold>\<open>Not modelled.\<close> The cancellation of the contexts of requests, the output of loggers, TLS handshakes, listening, flag parsing
  and terminal output, which are I/O or configuration; the YAML parser, of which the builder gets the
  tree; time, so that a timer may fire at any moment after its start; actors that share or contain
  themselves through pointers; data races on unprotected Go maps.
\<close>

end
